(* ===== verification/Iris_Prelude.thy ===== *)
theory Iris_Prelude
  imports Main "HOL-Library.Word"
begin

text \<open>
  Shared vocabulary of the development: machine integers at the widths the Rust code uses
  (\<open>usize\<close> is 64 bits wide, the only target named in Cargo.toml being x86_64), the result
  type of a Rust call that may panic, socket addresses, word arithmetic of the standard
  library (\<open>saturating_sub\<close>, and \<open>+\<close> whose overflow panics in a debug build and wraps in a
  release build), \<open>chunks_exact\<close>, decimal rendering, and the generic locale of a component
  driven by a sequence of events.
\<close>

named_theorems iris_simps \<open>equations that unfold the straight-line parts of the model\<close>

unbundle bit_operations_syntax

section \<open>Machine integers and results\<close>

type_synonym u8 = "8 word"
type_synonym u16 = "16 word"
type_synonym u64 = "64 word"
type_synonym usize = "64 word"
type_synonym bytes = "u8 list"

text \<open>A call either panics, returns \<open>Err\<close>, or returns \<open>Ok\<close>.\<close>

datatype ('e, 'a) rust_result = Panic | Err 'e | Ok 'a

fun rust_bind :: "('e, 'a) rust_result \<Rightarrow> ('a \<Rightarrow> ('e, 'b) rust_result) \<Rightarrow> ('e, 'b) rust_result" where
  "rust_bind Panic f = Panic"
| "rust_bind (Err e) f = Err e"
| "rust_bind (Ok a) f = f a"

lemma rust_bind_eq_Ok [simp]:
  "rust_bind r f = Ok b \<longleftrightarrow> (\<exists>a. r = Ok a \<and> f a = Ok b)"
  by (cases r) auto

lemma rust_bind_eq_Panic [simp]:
  "rust_bind r f = Panic \<longleftrightarrow> r = Panic \<or> (\<exists>a. r = Ok a \<and> f a = Panic)"
  by (cases r) auto

lemma rust_bind_eq_Err [simp]:
  "rust_bind r f = Err e \<longleftrightarrow> r = Err e \<or> (\<exists>a. r = Ok a \<and> f a = Err e)"
  by (cases r) auto

text \<open>Socket addresses, as the standard library compares them.\<close>

datatype ip_addr = V4 u8 u8 u8 u8 | V6 "128 word"

datatype socket_addr = SocketAddr (addr_ip: ip_addr) (addr_port: u16)

section \<open>Word arithmetic\<close>

text \<open>The build profile decides what an overflowing \<open>+\<close> does.\<close>

datatype build_profile = Debug | Release

definition add_profile :: "build_profile \<Rightarrow> 'a::len word \<Rightarrow> 'a word \<Rightarrow> 'a word option" where
  "add_profile pr a b =
     (if pr = Debug \<and> 2 ^ LENGTH('a) \<le> unat a + unat b then None else Some (a + b))"

definition saturating_sub :: "'a::len word \<Rightarrow> 'a word \<Rightarrow> 'a word" where
  "saturating_sub a b = (if b \<le> a then a - b else 0)"

lemma unat_saturating_sub [simp]: "unat (saturating_sub a b) = unat a - unat b"
  by (auto simp: saturating_sub_def unat_sub word_le_nat_alt)

lemma saturating_sub_0 [simp]: "saturating_sub a 0 = a"
  by (simp add: saturating_sub_def)

lemma saturating_sub_add: "b \<le> a \<Longrightarrow> b + saturating_sub a b = a"
  by (simp add: saturating_sub_def)

lemma add_profile_Release [simp]: "add_profile Release a b = Some (a + b)"
  by (simp add: add_profile_def)

lemma add_profile_Some:
  "add_profile pr a b = Some c \<Longrightarrow> c = a + b"
  by (simp add: add_profile_def split: if_splits)

lemma add_profile_Debug_unat:
  fixes a b c :: "'a::len word"
  assumes "add_profile Debug a b = Some c"
  shows "unat c = unat a + unat b"
  using assms by (auto simp: add_profile_def unat_word_ariths split: if_splits)

section \<open>Slices\<close>

text \<open>\<open>slice.chunks_exact(n)\<close> of the standard library: the full chunks, the remainder dropped.
  The code calls it with a positive literal only; Rust panics for 0.\<close>

function chunks_exact :: "nat \<Rightarrow> 'a list \<Rightarrow> 'a list list" where
  "chunks_exact n xs =
     (if 0 < n \<and> n \<le> length xs then take n xs # chunks_exact n (drop n xs) else [])"
  by pat_completeness auto
termination
  by (relation "measure (\<lambda>(n, xs). length xs)") auto

declare chunks_exact.simps [simp del]

lemma chunks_exact_short [simp]: "length xs < n \<Longrightarrow> chunks_exact n xs = []"
  by (subst chunks_exact.simps) simp

lemma chunks_exact_append [simp]:
  assumes "length c = n" "0 < n"
  shows "chunks_exact n (c @ xs) = c # chunks_exact n xs"
  using assms by (subst chunks_exact.simps) simp

lemma chunks_exact_concat:
  assumes "0 < n" "\<forall>c \<in> set cs. length c = n" "length rest < n"
  shows "chunks_exact n (concat cs @ rest) = cs"
  using assms(2) by (induction cs) (use assms(1,3) in auto)

lemma chunks_exact_lengths:
  "c \<in> set (chunks_exact n xs) \<Longrightarrow> length c = n"
proof (induction n xs rule: chunks_exact.induct)
  case (1 n xs)
  then show ?case
    by (cases "0 < n \<and> n \<le> length xs") (auto simp: chunks_exact.simps [of n xs])
qed

lemma length_chunks_exact:
  "0 < n \<Longrightarrow> length (chunks_exact n xs) = length xs div n"
proof (induction n xs rule: chunks_exact.induct)
  case (1 n xs)
  show ?case
  proof (cases "n \<le> length xs")
    case True
    with 1 have "length (chunks_exact n xs) = Suc ((length xs - n) div n)"
      by (subst chunks_exact.simps) simp
    with True \<open>0 < n\<close> show ?thesis by (simp add: le_div_geq)
  qed simp
qed

lemma list_all_uptD: "list_all P [i..<j] \<Longrightarrow> i \<le> k \<Longrightarrow> k < j \<Longrightarrow> P k"
  by (simp add: list_all_iff)

lemma dropWhile_eq_ConsD:
  assumes "dropWhile P xs = r # rest"
  shows "\<exists>live. xs = live @ r # rest \<and> list_all P live \<and> \<not> P r"
proof (intro exI conjI)
  show "xs = takeWhile P xs @ r # rest"
    using takeWhile_dropWhile_id [of P xs] assms by simp
  show "list_all P (takeWhile P xs)"
    by (auto simp: list_all_iff dest: set_takeWhileD)
  show "\<not> P r"
    using hd_dropWhile [of P xs] assms by fastforce
qed

lemma dropWhile_append_hit:
  "list_all P live \<Longrightarrow> \<not> P r \<Longrightarrow> dropWhile P (live @ r # rest) = r # rest"
  by (induction live) simp_all

section \<open>Decimal rendering\<close>

definition digit_char :: "nat \<Rightarrow> char" where
  "digit_char d = char_of (48 + d)"

fun show_nat :: "nat \<Rightarrow> string" where
  "show_nat n = (if n < 10 then [digit_char n] else show_nat (n div 10) @ [digit_char (n mod 10)])"

declare show_nat.simps [simp del]

text \<open>Reading the digits back: rendering loses nothing.\<close>

definition read_nat :: "string \<Rightarrow> nat" where
  "read_nat s = foldl (\<lambda>n c. 10 * n + (of_char c - 48)) 0 s"

lemma of_char_digit [simp]: "d < 10 \<Longrightarrow> of_char (digit_char d) = 48 + d"
  by (simp add: digit_char_def)

lemma read_show_nat [simp]: "read_nat (show_nat n) = n"
proof (induction n rule: show_nat.induct)
  case (1 n)
  then show ?case
    by (cases "n < 10") (simp_all add: read_nat_def show_nat.simps [of n])
qed

lemma show_nat_inj [simp]: "show_nat m = show_nat n \<longleftrightarrow> m = n"
  by (metis read_show_nat)

lemma show_nat_digits: "c \<in> set (show_nat n) \<Longrightarrow> 48 \<le> (of_char c :: nat) \<and> of_char c < (58 :: nat)"
proof (induction n rule: show_nat.induct)
  case (1 n)
  then show ?case
    by (cases "n < 10") (auto simp: show_nat.simps [of n])
qed

section \<open>Components driven by events\<close>

text \<open>
  Most components of the program are loops or servers that take one event at a time. The
  contract they share: an operation \<open>step\<close> and an invariant \<open>inv\<close> that every event keeps.
  The facts about a whole history of events are proved here once.
\<close>

locale event_machine =
  fixes step :: "'e \<Rightarrow> 's \<Rightarrow> 's"
    and inv :: "'s \<Rightarrow> bool"
  assumes inv_step: "inv s \<Longrightarrow> inv (step e s)"
begin

lemma inv_run: "inv s \<Longrightarrow> inv (fold step es s)"
  by (induction es arbitrary: s) (auto intro: inv_step)

lemma inv_prefix: "inv s \<Longrightarrow> inv (fold step (take n es) s)"
  by (rule inv_run)

end

text \<open>
  In the long run: a length that never shrinks along a history and grows with every hit. If
  hits never cease, the length exceeds every bound at one of them.
\<close>

locale recurring =
  fixes st :: "nat \<Rightarrow> 's"
    and len :: "'s \<Rightarrow> nat"
    and hit :: "nat \<Rightarrow> bool"
  assumes never_shrinks: "len (st n) \<le> len (st (Suc n))"
    and grows: "hit n \<Longrightarrow> len (st (Suc n)) = Suc (len (st n))"
begin

lemma len_mono: "n \<le> m \<Longrightarrow> len (st n) \<le> len (st m)"
proof (induction m)
  case (Suc m)
  then show ?case using never_shrinks [of m] by (cases "n = Suc m") auto
qed simp

lemma exceeds:
  assumes "\<forall>n. \<exists>m\<ge>n. hit m"
  shows "\<exists>m\<ge>n. hit m \<and> k \<le> len (st (Suc m))"
proof (induction k)
  case 0
  then show ?case using assms by blast
next
  case (Suc k)
  then obtain m where m: "n \<le> m" "k \<le> len (st (Suc m))" by blast
  obtain l where l: "Suc m \<le> l" "hit l" using assms by blast
  have "k \<le> len (st l)" using m(2) len_mono [OF l(1)] by simp
  then have "Suc k \<le> len (st (Suc l))" using grows [OF l(2)] by simp
  then show ?case using l m(1) by (intro exI [of _ l]) simp
qed

end

end
