(* ===== verification/Transaction_Stats.thy ===== *)
theory Transaction_Stats
  imports Iris_Prelude
begin

text \<open>
  \<open>src/transaction_stats.rs\<close>: the process-wide atomic counters, the snapshots of them and
  the periodic report. A \<open>fetch_add\<close> wraps at the width of the counter, and every counter is
  its own atomic: a snapshot reads nine of them one after another, so the model's \<open>load\<close> takes
  the statics as each of the reads finds them.
\<close>

section \<open>The statics\<close>

record statics =
  QUIC_RECEIVED :: u64
  QUIC_INVALID :: u64
  JSON_RPC_RECEIVED :: u64
  JSON_RPC_INVALID :: u64
  MEV_PROTECTED_RECEIVED :: u64
  TPU_ENQUEUED :: u64
  TPU_DROPPED :: u64
  MEV_BUFFERED :: u64
  MEV_RELEASED :: u64
  MEV_BUFFER_SIZE :: usize

definition statics_init :: statics where
  "statics_init =
     \<lparr>QUIC_RECEIVED = 0, QUIC_INVALID = 0, JSON_RPC_RECEIVED = 0, JSON_RPC_INVALID = 0,
      MEV_PROTECTED_RECEIVED = 0, TPU_ENQUEUED = 0, TPU_DROPPED = 0, MEV_BUFFERED = 0,
      MEV_RELEASED = 0, MEV_BUFFER_SIZE = 0\<rparr>"

text \<open>The nine monotone counters, named so that facts can range over them.\<close>

datatype stat_key =
    QuicReceived | QuicInvalid | JsonReceived | JsonInvalid | MevReceived
  | TpuEnqueued | TpuDropped | MevBuffered | MevReleased

instantiation stat_key :: enum
begin

definition enum_stat_key :: "stat_key list" where
  "enum_stat_key =
     [QuicReceived, QuicInvalid, JsonReceived, JsonInvalid, MevReceived,
      TpuEnqueued, TpuDropped, MevBuffered, MevReleased]"

definition enum_all_stat_key :: "(stat_key \<Rightarrow> bool) \<Rightarrow> bool" where
  "enum_all_stat_key P = list_all P enum_class.enum"

definition enum_ex_stat_key :: "(stat_key \<Rightarrow> bool) \<Rightarrow> bool" where
  "enum_ex_stat_key P = list_ex P enum_class.enum"

instance
proof
  show univ: "(UNIV :: stat_key set) = set enum_class.enum"
    by (auto simp: enum_stat_key_def intro: stat_key.exhaust)
  show "distinct (enum_class.enum :: stat_key list)"
    by (simp add: enum_stat_key_def)
  show "enum_class.enum_all P \<longleftrightarrow> Ball UNIV P" for P :: "stat_key \<Rightarrow> bool"
    by (simp add: enum_all_stat_key_def list_all_iff univ)
  show "enum_class.enum_ex P \<longleftrightarrow> Bex UNIV P" for P :: "stat_key \<Rightarrow> bool"
    by (simp add: enum_ex_stat_key_def list_ex_iff univ)
qed

end

fun counter :: "stat_key \<Rightarrow> 'z statics_scheme \<Rightarrow> u64" where
  "counter QuicReceived s = QUIC_RECEIVED s"
| "counter QuicInvalid s = QUIC_INVALID s"
| "counter JsonReceived s = JSON_RPC_RECEIVED s"
| "counter JsonInvalid s = JSON_RPC_INVALID s"
| "counter MevReceived s = MEV_PROTECTED_RECEIVED s"
| "counter TpuEnqueued s = TPU_ENQUEUED s"
| "counter TpuDropped s = TPU_DROPPED s"
| "counter MevBuffered s = MEV_BUFFERED s"
| "counter MevReleased s = MEV_RELEASED s"

section \<open>Recording\<close>

definition record_quic_received :: "'z statics_scheme \<Rightarrow> 'z statics_scheme" where
  "record_quic_received s = s\<lparr>QUIC_RECEIVED := QUIC_RECEIVED s + 1\<rparr>"

definition record_quic_invalid :: "'z statics_scheme \<Rightarrow> 'z statics_scheme" where
  "record_quic_invalid s = s\<lparr>QUIC_INVALID := QUIC_INVALID s + 1\<rparr>"

definition record_mev_protected :: "bool \<Rightarrow> 'z statics_scheme \<Rightarrow> 'z statics_scheme" where
  "record_mev_protected mev_protected s =
     (if mev_protected then s\<lparr>MEV_PROTECTED_RECEIVED := MEV_PROTECTED_RECEIVED s + 1\<rparr> else s)"

definition record_json_rpc_received :: "bool \<Rightarrow> 'z statics_scheme \<Rightarrow> 'z statics_scheme" where
  "record_json_rpc_received mev_protected s =
     record_mev_protected mev_protected (s\<lparr>JSON_RPC_RECEIVED := JSON_RPC_RECEIVED s + 1\<rparr>)"

definition record_json_rpc_invalid :: "'z statics_scheme \<Rightarrow> 'z statics_scheme" where
  "record_json_rpc_invalid s = s\<lparr>JSON_RPC_INVALID := JSON_RPC_INVALID s + 1\<rparr>"

definition record_quic_mev_protected :: "bool \<Rightarrow> 'z statics_scheme \<Rightarrow> 'z statics_scheme" where
  "record_quic_mev_protected mev_protected s = record_mev_protected mev_protected s"

definition record_tpu_enqueued :: "'z statics_scheme \<Rightarrow> 'z statics_scheme" where
  "record_tpu_enqueued s = s\<lparr>TPU_ENQUEUED := TPU_ENQUEUED s + 1\<rparr>"

definition record_tpu_dropped :: "'z statics_scheme \<Rightarrow> 'z statics_scheme" where
  "record_tpu_dropped s = s\<lparr>TPU_DROPPED := TPU_DROPPED s + 1\<rparr>"

definition record_mev_buffered :: "u64 \<Rightarrow> 'z statics_scheme \<Rightarrow> 'z statics_scheme" where
  "record_mev_buffered count s = s\<lparr>MEV_BUFFERED := MEV_BUFFERED s + count\<rparr>"

definition record_mev_released :: "u64 \<Rightarrow> 'z statics_scheme \<Rightarrow> 'z statics_scheme" where
  "record_mev_released count s = s\<lparr>MEV_RELEASED := MEV_RELEASED s + count\<rparr>"

definition set_mev_buffer_size :: "usize \<Rightarrow> 'z statics_scheme \<Rightarrow> 'z statics_scheme" where
  "set_mev_buffer_size sz s = s\<lparr>MEV_BUFFER_SIZE := sz\<rparr>"

lemmas record_defs =
  record_quic_received_def record_quic_invalid_def record_mev_protected_def
  record_json_rpc_received_def record_json_rpc_invalid_def record_quic_mev_protected_def
  record_tpu_enqueued_def record_tpu_dropped_def record_mev_buffered_def
  record_mev_released_def set_mev_buffer_size_def

text \<open>
  The contract of a recording operation: it adds a fixed number to each counter and does
  nothing else to them. Handlers are proved against this contract, and so is the commutation
  that makes the interleaving of atomic updates from several threads irrelevant.
\<close>

locale counting =
  fixes rd :: "stat_key \<Rightarrow> 's \<Rightarrow> u64"
    and f :: "'s \<Rightarrow> 's"
    and delta :: "stat_key \<Rightarrow> u64"
  assumes adds: "rd k (f s) = rd k s + delta k"
begin

lemma adds_times: "rd k ((f ^^ n) s) = rd k s + of_nat n * delta k"
  by (induction n) (simp_all add: adds algebra_simps)

lemma commutes_with:
  assumes "\<And>k s. rd k (g s) = rd k s + delta' k"
  shows "rd k (f (g s)) = rd k (g (f s))"
  by (simp add: adds assms algebra_simps)

end

definition only :: "stat_key \<Rightarrow> u64 \<Rightarrow> stat_key \<Rightarrow> u64" where
  "only k0 n k = (if k = k0 then n else 0)"

lemma only_simps [simp]:
  "only k n k = n" "k \<noteq> k0 \<Longrightarrow> only k0 n k = 0" "only k0 0 k = 0"
  by (simp_all add: only_def)

interpretation quic_received: counting counter record_quic_received "only QuicReceived 1"
  by unfold_locales (rename_tac k s, case_tac k; simp add: record_defs)

interpretation quic_invalid: counting counter record_quic_invalid "only QuicInvalid 1"
  by unfold_locales (rename_tac k s, case_tac k; simp add: record_defs)

interpretation mev_protected: counting counter "record_mev_protected b"
    "only MevReceived (of_bool b)" for b
  by unfold_locales (rename_tac k s, case_tac k; simp add: record_defs)

interpretation quic_mev_protected: counting counter "record_quic_mev_protected b"
    "only MevReceived (of_bool b)" for b
  by unfold_locales (rename_tac k s, case_tac k; simp add: record_defs)

interpretation json_received: counting counter "record_json_rpc_received b"
    "\<lambda>k. only JsonReceived 1 k + only MevReceived (of_bool b) k" for b
  by unfold_locales (rename_tac k s, case_tac k; simp add: record_defs)

interpretation json_invalid: counting counter record_json_rpc_invalid "only JsonInvalid 1"
  by unfold_locales (rename_tac k s, case_tac k; simp add: record_defs)

interpretation tpu_enqueued: counting counter record_tpu_enqueued "only TpuEnqueued 1"
  by unfold_locales (rename_tac k s, case_tac k; simp add: record_defs)

interpretation tpu_dropped: counting counter record_tpu_dropped "only TpuDropped 1"
  by unfold_locales (rename_tac k s, case_tac k; simp add: record_defs)

interpretation mev_buffered: counting counter "record_mev_buffered n" "only MevBuffered n" for n
  by unfold_locales (rename_tac k s, case_tac k; simp add: record_defs)

interpretation mev_released: counting counter "record_mev_released n" "only MevReleased n" for n
  by unfold_locales (rename_tac k s, case_tac k; simp add: record_defs)

interpretation buffer_size: counting counter "set_mev_buffer_size n" "\<lambda>_. 0" for n
  by unfold_locales (rename_tac k s, case_tac k; simp add: record_defs)

lemmas counter_record [simp] =
  quic_received.adds quic_invalid.adds mev_protected.adds quic_mev_protected.adds
  json_received.adds json_invalid.adds tpu_enqueued.adds tpu_dropped.adds
  mev_buffered.adds mev_released.adds buffer_size.adds

declare counter.simps [simp del]

section \<open>Snapshots\<close>

record snapshot =
  quic_received :: u64
  quic_invalid :: u64
  json_rpc_received :: u64
  json_rpc_invalid :: u64
  mev_protected_received :: u64
  tpu_enqueued :: u64
  tpu_dropped :: u64
  mev_buffered :: u64
  mev_released :: u64

definition Snapshot_default :: snapshot where
  "Snapshot_default =
     \<lparr>quic_received = 0, quic_invalid = 0, json_rpc_received = 0, json_rpc_invalid = 0,
      mev_protected_received = 0, tpu_enqueued = 0, tpu_dropped = 0, mev_buffered = 0,
      mev_released = 0\<rparr>"

text \<open>\<open>rd i\<close> is the state of the statics at the \<open>i\<close>-th of the nine relaxed loads.\<close>

definition Snapshot_load :: "(nat \<Rightarrow> 'z statics_scheme) \<Rightarrow> snapshot" where
  "Snapshot_load rd =
     \<lparr>quic_received = QUIC_RECEIVED (rd 0),
      quic_invalid = QUIC_INVALID (rd 1),
      json_rpc_received = JSON_RPC_RECEIVED (rd 2),
      json_rpc_invalid = JSON_RPC_INVALID (rd 3),
      mev_protected_received = MEV_PROTECTED_RECEIVED (rd 4),
      tpu_enqueued = TPU_ENQUEUED (rd 5),
      tpu_dropped = TPU_DROPPED (rd 6),
      mev_buffered = MEV_BUFFERED (rd 7),
      mev_released = MEV_RELEASED (rd 8)\<rparr>"

definition Snapshot_since :: "snapshot \<Rightarrow> snapshot \<Rightarrow> snapshot" where
  "Snapshot_since self previous =
     \<lparr>quic_received = saturating_sub (quic_received self) (quic_received previous),
      quic_invalid = saturating_sub (quic_invalid self) (quic_invalid previous),
      json_rpc_received = saturating_sub (json_rpc_received self) (json_rpc_received previous),
      json_rpc_invalid = saturating_sub (json_rpc_invalid self) (json_rpc_invalid previous),
      mev_protected_received =
        saturating_sub (mev_protected_received self) (mev_protected_received previous),
      tpu_enqueued = saturating_sub (tpu_enqueued self) (tpu_enqueued previous),
      tpu_dropped = saturating_sub (tpu_dropped self) (tpu_dropped previous),
      mev_buffered = saturating_sub (mev_buffered self) (mev_buffered previous),
      mev_released = saturating_sub (mev_released self) (mev_released previous)\<rparr>"

fun stat :: "stat_key \<Rightarrow> snapshot \<Rightarrow> u64" where
  "stat QuicReceived s = quic_received s"
| "stat QuicInvalid s = quic_invalid s"
| "stat JsonReceived s = json_rpc_received s"
| "stat JsonInvalid s = json_rpc_invalid s"
| "stat MevReceived s = mev_protected_received s"
| "stat TpuEnqueued s = tpu_enqueued s"
| "stat TpuDropped s = tpu_dropped s"
| "stat MevBuffered s = mev_buffered s"
| "stat MevReleased s = mev_released s"

text \<open>The position of a counter in the order of the loads.\<close>

fun load_index :: "stat_key \<Rightarrow> nat" where
  "load_index QuicReceived = 0"
| "load_index QuicInvalid = 1"
| "load_index JsonReceived = 2"
| "load_index JsonInvalid = 3"
| "load_index MevReceived = 4"
| "load_index TpuEnqueued = 5"
| "load_index TpuDropped = 6"
| "load_index MevBuffered = 7"
| "load_index MevReleased = 8"

lemma stat_load [simp]: "stat k (Snapshot_load rd) = counter k (rd (load_index k))"
  by (cases k) (simp_all add: Snapshot_load_def counter.simps)

lemma stat_since [simp]:
  "stat k (Snapshot_since a b) = saturating_sub (stat k a) (stat k b)"
  by (cases k) (simp_all add: Snapshot_since_def)

lemma stat_default [simp]: "stat k Snapshot_default = 0"
  by (cases k) (simp_all add: Snapshot_default_def)

declare stat.simps [simp del]


section \<open>The periodic report\<close>

definition REPORT_INTERVAL_secs :: u64 where
  "REPORT_INTERVAL_secs = 5"

text \<open>
  One line of the report. \<open>l_received\<close> and \<open>l_received_total\<close> are the two sums the code
  computes with \<open>+\<close>; the other fields of the line are read off the two snapshots by
  \<open>report_fields\<close>, in the order of the \<open>info!\<close> call.
\<close>

record report_line =
  l_received :: u64
  l_recent :: snapshot
  l_mev_buffer_size :: usize
  l_received_total :: u64
  l_total :: snapshot

definition report_fields :: "report_line \<Rightarrow> (string \<times> u64) list" where
  "report_fields l =
     [(''interval_secs'', REPORT_INTERVAL_secs),
      (''received'', l_received l),
      (''quic_received'', quic_received (l_recent l)),
      (''quic_invalid'', quic_invalid (l_recent l)),
      (''json_rpc_received'', json_rpc_received (l_recent l)),
      (''json_rpc_invalid'', json_rpc_invalid (l_recent l)),
      (''mev_protected_received'', mev_protected_received (l_recent l)),
      (''tpu_enqueued'', tpu_enqueued (l_recent l)),
      (''tpu_dropped'', tpu_dropped (l_recent l)),
      (''mev_buffered'', mev_buffered (l_recent l)),
      (''mev_released'', mev_released (l_recent l)),
      (''mev_buffer_size'', l_mev_buffer_size l),
      (''received_total'', l_received_total l),
      (''quic_received_total'', quic_received (l_total l)),
      (''quic_invalid_total'', quic_invalid (l_total l)),
      (''json_rpc_received_total'', json_rpc_received (l_total l)),
      (''json_rpc_invalid_total'', json_rpc_invalid (l_total l)),
      (''mev_protected_received_total'', mev_protected_received (l_total l)),
      (''tpu_enqueued_total'', tpu_enqueued (l_total l)),
      (''tpu_dropped_total'', tpu_dropped (l_total l))]"

text \<open>
  The body of one tick: \<open>None\<close> when one of the two sums overflows in a debug build. Read 9
  is the load of \<open>MEV_BUFFER_SIZE\<close> inside the \<open>info!\<close> call.
\<close>

definition report_tick ::
  "build_profile \<Rightarrow> snapshot \<Rightarrow> (nat \<Rightarrow> statics) \<Rightarrow> (report_line \<times> snapshot) option" where
  "report_tick pr previous rd =
     (let tot = Snapshot_load rd;
          recent = Snapshot_since tot previous
      in case add_profile pr (quic_received recent) (json_rpc_received recent) of
           None \<Rightarrow> None
         | Some received \<Rightarrow>
             (case add_profile pr (quic_received tot) (json_rpc_received tot) of
                None \<Rightarrow> None
              | Some received_total \<Rightarrow>
                  Some (\<lparr>l_received = received, l_recent = recent,
                         l_mev_buffer_size = MEV_BUFFER_SIZE (rd 9),
                         l_received_total = received_total, l_total = tot\<rparr>, tot)))"

text \<open>What the \<open>select!\<close> of the loop finds ready, one event per round, and how the loop is left.\<close>

datatype report_event = ReportCancelled | ReportTick "nat \<Rightarrow> statics"

datatype loop_exit = Stopped | Panicked | StillRunning

fun report_loop ::
  "build_profile \<Rightarrow> snapshot \<Rightarrow> report_event list \<Rightarrow> report_line list \<times> loop_exit" where
  "report_loop pr previous [] = ([], StillRunning)"
| "report_loop pr previous (ReportCancelled # es) = ([], Stopped)"
| "report_loop pr previous (ReportTick rd # es) =
     (case report_tick pr previous rd of
        None \<Rightarrow> ([], Panicked)
      | Some (line, tot) \<Rightarrow>
          (let (ls, x) = report_loop pr tot es in (line # ls, x)))"

definition report :: "build_profile \<Rightarrow> report_event list \<Rightarrow> report_line list \<times> loop_exit" where
  "report pr es = report_loop pr Snapshot_default es"

text \<open>The ticks the loop serves: those before the first cancellation.\<close>

fun ticks :: "report_event list \<Rightarrow> (nat \<Rightarrow> statics) list" where
  "ticks [] = []"
| "ticks (ReportCancelled # es) = []"
| "ticks (ReportTick rd # es) = rd # ticks es"

text \<open>Counters that only grow between two ticks (none of them wrapped).\<close>

definition counters_grow :: "(nat \<Rightarrow> statics) \<Rightarrow> (nat \<Rightarrow> statics) \<Rightarrow> bool" where
  "counters_grow rd rd' \<longleftrightarrow>
     (\<forall>k. counter k (rd (load_index k)) \<le> counter k (rd' (load_index k)))"

lemma report_tick_Some:
  assumes "report_tick pr previous rd = Some (line, tot)"
  shows "tot = Snapshot_load rd" "l_total line = Snapshot_load rd"
    "l_recent line = Snapshot_since (Snapshot_load rd) previous"
    "l_mev_buffer_size line = MEV_BUFFER_SIZE (rd 9)"
    "l_received line = quic_received (l_recent line) + json_rpc_received (l_recent line)"
    "l_received_total line = quic_received (l_total line) + json_rpc_received (l_total line)"
  using assms by (auto simp: report_tick_def Let_def dest!: add_profile_Some split: option.splits)

lemma report_tick_Release: "report_tick Release previous rd \<noteq> None"
  by (simp add: report_tick_def Let_def)

lemma report_loop_TickE:
  assumes "report_loop pr previous (ReportTick rd # es) = (ls, x)"
  obtains (panics) "ls = []" "x = Panicked" "report_tick pr previous rd = None"
  | (goes_on) line ls' where "ls = line # ls'"
      "report_tick pr previous rd = Some (line, Snapshot_load rd)"
      "report_loop pr (Snapshot_load rd) es = (ls', x)"
proof (cases "report_tick pr previous rd")
  case None
  with assms panics show thesis by simp
next
  case (Some p)
  then have p: "report_tick pr previous rd = Some (fst p, Snapshot_load rd)"
    using report_tick_Some(1) [of pr previous rd "fst p" "snd p"] by (simp add: prod_eq_iff)
  obtain ls' x' where "report_loop pr (Snapshot_load rd) es = (ls', x')"
    by fastforce
  then show thesis using goes_on [OF _ p, of ls'] p assms by simp
qed

lemma report_loop_Release_lines:
  assumes "report_loop Release previous es = (ls, x)"
  shows "map l_total ls = map Snapshot_load (ticks es) \<and>
    x = (if ReportCancelled \<in> set es then Stopped else StillRunning)"
  using assms
proof (induction es arbitrary: previous ls rule: ticks.induct)
  case (3 rd es)
  from "3.prems" show ?case
  proof (cases rule: report_loop_TickE)
    case panics
    then show ?thesis using report_tick_Release by blast
  next
    case (goes_on line ls')
    then show ?thesis using "3.IH" report_tick_Some(2) by auto
  qed
qed simp_all

lemma report_loop_telescope:
  assumes "report_loop pr previous es = (ls, x)"
    and "sorted_wrt counters_grow (ticks es)"
    and "\<forall>rd \<in> set (ticks es). stat k previous \<le> counter k (rd (load_index k))"
  shows "unat (stat k previous) + (\<Sum>l\<leftarrow>ls. unat (stat k (l_recent l))) =
    unat (stat k (last (previous # map l_total ls)))"
  using assms
proof (induction es arbitrary: previous ls rule: ticks.induct)
  case (3 rd es)
  from "3.prems"(1) show ?case
  proof (cases rule: report_loop_TickE)
    case (goes_on line ls')
    have line: "l_total line = Snapshot_load rd"
      "l_recent line = Snapshot_since (Snapshot_load rd) previous"
      using report_tick_Some(2,3) goes_on(2) by blast+
    have IH: "unat (stat k (Snapshot_load rd)) + (\<Sum>l\<leftarrow>ls'. unat (stat k (l_recent l))) =
      unat (stat k (last (Snapshot_load rd # map l_total ls')))"
      using "3.IH" [OF goes_on(3)] "3.prems"(2) by (auto simp: counters_grow_def)
    have le: "unat (stat k previous) \<le> unat (counter k (rd (load_index k)))"
      using "3.prems"(3) by (simp add: word_le_nat_alt)
    show ?thesis
      using IH le by (simp add: goes_on(1) line)
  qed simp
qed simp_all

section \<open>Properties\<close>

text \<open>
  C37: the \<open>recent\<close> columns of the report add up. As long as the counters only grow from one
  tick to the next, the per-interval values of every counter, summed over all the lines the
  loop has printed, are the running total of the last line, whatever the other threads did
  between the nine loads of a snapshot.
\<close>

theorem report_recents_telescope:
  assumes "report pr es = (ls, x)" and "sorted_wrt counters_grow (ticks es)" and "ls \<noteq> []"
  shows "(\<Sum>l\<leftarrow>ls. unat (stat k (l_recent l))) = unat (stat k (l_total (last ls)))"
  using report_loop_telescope [OF assms(1) [unfolded report_def] assms(2), of k] assms(3)
  by (simp add: last_map)

definition sample_statics :: "u64 \<Rightarrow> statics" where
  "sample_statics n = statics_init\<lparr>QUIC_RECEIVED := n\<rparr>"

theorem report_recents_telescope_witness:
  "\<exists>ls. report Release [ReportTick (\<lambda>_. sample_statics 3), ReportTick (\<lambda>_. sample_statics 7)]
      = (ls, StillRunning) \<and> (\<Sum>l\<leftarrow>ls. unat (stat QuicReceived (l_recent l))) = 7"
proof -
  let ?es = "[ReportTick (\<lambda>_. sample_statics 3), ReportTick (\<lambda>_. sample_statics 7)]"
  obtain ls where r: "report Release ?es = (ls, StillRunning)"
    and last: "ls \<noteq> []" "stat QuicReceived (l_total (last ls)) = 7"
    by (simp add: report_def report_tick_def Let_def sample_statics_def counter.simps)
  have grow: "counter k (sample_statics 3) \<le> counter k (sample_statics 7)" for k
    by (cases k) (simp_all add: sample_statics_def statics_init_def counter.simps)
  have "sorted_wrt counters_grow (ticks ?es)"
    by (simp add: counters_grow_def grow)
  from report_recents_telescope [OF r this last(1), of QuicReceived] r last(2)
  show ?thesis by simp
qed

text \<open>
  C38: in a release build the report loop never panics: it prints exactly one line per tick
  it serves before the cancellation, in order, each with the totals it loaded at that tick,
  and it is left exactly when the token is cancelled.
\<close>

theorem report_release_lines:
  "map l_total (fst (report Release es)) = map Snapshot_load (ticks es) \<and>
   snd (report Release es) = (if ReportCancelled \<in> set es then Stopped else StillRunning)"
  using report_loop_Release_lines [of Snapshot_default es] by (simp add: report_def prod_eq_iff)

end
