(* ===== verification/Metrics.thy ===== *)
theory Metrics
  imports Transaction_Stats
begin

text \<open>
  The Prometheus side effects of the code. A \<open>counter!\<close>, \<open>gauge!\<close> or \<open>histogram!\<close> call
  hands a value to the recorder of the \<open>metrics\<close> crate, which is not modelled: the model keeps
  the calls themselves, in program order, in the field \<open>metrics\<close> that extends the statics.
  Gauge and histogram values are the integers the code casts to \<open>f64\<close>.
\<close>

datatype metric =
    CounterInc string "(string \<times> string) list" u64
  | GaugeSet string nat
  | HistogramRecord string "(string \<times> string) list" int

record globals = statics +
  metrics :: "metric list"

definition emit :: "metric \<Rightarrow> 'z globals_scheme \<Rightarrow> 'z globals_scheme" where
  "emit m g = g\<lparr>metrics := metrics g @ [m]\<rparr>"

definition emits :: "metric list \<Rightarrow> 'z globals_scheme \<Rightarrow> 'z globals_scheme" where
  "emits ms g = g\<lparr>metrics := metrics g @ ms\<rparr>"

definition globals_init :: globals where
  "globals_init = statics.extend statics_init \<lparr>metrics = []\<rparr>"

text \<open>How often a counter was incremented: the total a recorder would show.\<close>

fun counter_inc :: "string \<Rightarrow> metric \<Rightarrow> nat" where
  "counter_inc n (CounterInc m ls v) = (if m = n then unat v else 0)"
| "counter_inc n _ = 0"

definition counter_total :: "string \<Rightarrow> metric list \<Rightarrow> nat" where
  "counter_total n ms = sum_list (map (counter_inc n) ms)"

lemma counter_total_simps [simp]:
  "counter_total n [] = 0"
  "counter_total n (m # ms) = counter_inc n m + counter_total n ms"
  "counter_total n (ms @ ms') = counter_total n ms + counter_total n ms'"
  by (simp_all add: counter_total_def)

lemma metrics_emit [simp]: "metrics (emit m g) = metrics g @ [m]"
  by (simp add: emit_def)

lemma metrics_emits [simp]: "metrics (emits ms g) = metrics g @ ms"
  by (simp add: emits_def)

lemma counter_emit [simp]: "counter k (emit m g) = counter k g"
  by (cases k) (simp_all add: emit_def counter.simps)

lemma counter_emits [simp]: "counter k (emits ms g) = counter k g"
  by (cases k) (simp_all add: emits_def counter.simps)

lemma MEV_BUFFER_SIZE_emit [simp]: "MEV_BUFFER_SIZE (emit m g) = MEV_BUFFER_SIZE g"
  by (simp add: emit_def)

end
