(* ===== verification/Tpu_Payload.thy ===== *)
theory Tpu_Payload
  imports Iris_Prelude
begin

text \<open>
  The payload of \<open>src/tpu_next_client.rs\<close>: the wire transaction with one trailing byte of
  flags, which is the only form in which the MEV protection of a transaction travels through
  the channel of the TPU client. \<open>Bytes\<close> values are byte lists. The type \<open>BatchFlags\<close> that
  the \<open>bitflags!\<close> block declares is a \<open>u8\<close> with one known bit, and its four operations are
  the bit operations on it.
\<close>

section \<open>Flags\<close>

type_synonym batch_flags = u8

definition MEV_PROTECTED :: batch_flags where
  "MEV_PROTECTED = 1"

definition BatchFlags_empty :: batch_flags where
  "BatchFlags_empty = 0"

definition BatchFlags_bits :: "batch_flags \<Rightarrow> u8" where
  "BatchFlags_bits f = f"

definition BatchFlags_from_bits_truncate :: "u8 \<Rightarrow> batch_flags" where
  "BatchFlags_from_bits_truncate b = b AND MEV_PROTECTED"

definition BatchFlags_contains :: "batch_flags \<Rightarrow> batch_flags \<Rightarrow> bool" where
  "BatchFlags_contains f g \<longleftrightarrow> f AND g = g"

lemmas flag_defs =
  MEV_PROTECTED_def BatchFlags_empty_def BatchFlags_bits_def
  BatchFlags_from_bits_truncate_def BatchFlags_contains_def

section \<open>Payloads\<close>

record tpu_client_payload =
  encoded :: bytes

definition TpuClientPayload_new :: "bytes \<Rightarrow> bool \<Rightarrow> tpu_client_payload" where
  "TpuClientPayload_new wire_tx mev_protect =
     (let flags = (if mev_protect then MEV_PROTECTED else BatchFlags_empty)
      in \<lparr>encoded = wire_tx @ [BatchFlags_bits flags]\<rparr>)"

definition is_mev_protected :: "tpu_client_payload \<Rightarrow> bool" where
  "is_mev_protected p =
     (encoded p \<noteq> [] \<and>
      BatchFlags_contains (BatchFlags_from_bits_truncate (last (encoded p))) MEV_PROTECTED)"

text \<open>\<open>self.encoded.slice(..self.encoded.len() - 1)\<close>. On an empty buffer it panics in either
  build: the subtraction overflows, or the wrapped index is out of the range of the slice.\<close>

definition wire_transaction :: "tpu_client_payload \<Rightarrow> bytes option" where
  "wire_transaction p =
     (if encoded p = [] then None else Some (take (length (encoded p) - 1) (encoded p)))"

definition into_encoded :: "tpu_client_payload \<Rightarrow> bytes" where
  "into_encoded p = encoded p"

definition TpuClientPayload_decode :: "bytes \<Rightarrow> tpu_client_payload option" where
  "TpuClientPayload_decode e = (if e = [] then None else Some \<lparr>encoded = e\<rparr>)"

section \<open>Lemmas\<close>

lemma decode_empty [simp]: "TpuClientPayload_decode [] = None"
  by (simp add: TpuClientPayload_decode_def)

lemma decode_snoc [simp]: "TpuClientPayload_decode (w @ [b]) = Some \<lparr>encoded = w @ [b]\<rparr>"
  by (simp add: TpuClientPayload_decode_def)

lemma decode_eq_None [simp]: "TpuClientPayload_decode e = None \<longleftrightarrow> e = []"
  by (simp add: TpuClientPayload_decode_def)

lemma decode_SomeD:
  "TpuClientPayload_decode e = Some p \<Longrightarrow> encoded p = e \<and> e \<noteq> []"
  by (auto simp: TpuClientPayload_decode_def split: if_splits)

lemma wire_transaction_snoc [simp]: "wire_transaction \<lparr>encoded = w @ [b]\<rparr> = Some w"
  by (simp add: wire_transaction_def)

lemma wire_transaction_decoded:
  "TpuClientPayload_decode e = Some p \<Longrightarrow> wire_transaction p = Some (butlast e)"
  by (auto dest!: decode_SomeD simp: wire_transaction_def butlast_conv_take)

text \<open>Only bit 0 of the last byte counts; unknown flag bits are ignored.\<close>

lemma is_mev_protected_snoc [simp]:
  "is_mev_protected \<lparr>encoded = w @ [b]\<rparr> \<longleftrightarrow> odd b"
proof -
  have "b AND 1 = of_bool (odd b)"
    by (simp add: and_one_eq mod_2_eq_odd)
  then show ?thesis
    by (auto simp: is_mev_protected_def flag_defs)
qed

lemma into_encoded_new:
  "into_encoded (TpuClientPayload_new w b) = w @ [of_bool b]"
  by (simp add: into_encoded_def TpuClientPayload_new_def flag_defs)

section \<open>The contract between the two ends of the channel\<close>

text \<open>
  The JSON-RPC and QUIC front ends encode, the broadcaster decodes. All that either end relies
  on is that decoding inverts encoding and that the empty message, which the flush task sends,
  is not a payload.
\<close>

locale payload_codec =
  fixes enc :: "bytes \<Rightarrow> bool \<Rightarrow> bytes"
    and dec :: "bytes \<Rightarrow> (bytes \<times> bool) option"
  assumes dec_enc: "dec (enc w b) = Some (w, b)"
    and dec_flush: "dec [] = None"
begin

lemma enc_inject: "enc w b = enc w' b' \<longleftrightarrow> w = w' \<and> b = b'"
  by (auto dest: arg_cong [where f = dec] simp: dec_enc)

lemma enc_not_flush: "enc w b \<noteq> []"
  by (auto dest: arg_cong [where f = dec] simp: dec_enc dec_flush)

lemma dec_stream: "List.map_filter dec (map (\<lambda>(w, b). enc w b) xs) = xs"
  by (induction xs) (auto simp: List.map_filter_simps dec_enc)

lemma dec_stream_flush:
  "List.map_filter dec (filter (\<lambda>e. e \<noteq> []) es) = List.map_filter dec es"
  by (induction es) (auto simp: List.map_filter_simps dec_flush split: option.splits)

end

definition encode_payload :: "bytes \<Rightarrow> bool \<Rightarrow> bytes" where
  "encode_payload w b = into_encoded (TpuClientPayload_new w b)"

text \<open>What the broadcaster reads off a message: its wire transaction and its protection.\<close>

definition decode_payload :: "bytes \<Rightarrow> (bytes \<times> bool) option" where
  "decode_payload e =
     (case TpuClientPayload_decode e of
        None \<Rightarrow> None
      | Some p \<Rightarrow> (case wire_transaction p of
                    None \<Rightarrow> None
                  | Some w \<Rightarrow> Some (w, is_mev_protected p)))"

lemma decode_payload_empty [simp]: "decode_payload [] = None"
  by (simp add: decode_payload_def)

lemma decode_payload_snoc [simp]: "decode_payload (w @ [b]) = Some (w, odd b)"
  by (simp add: decode_payload_def)

lemma decode_payload_nonempty:
  "e \<noteq> [] \<Longrightarrow> decode_payload e = Some (butlast e, odd (last e))"
  by (metis append_butlast_last_id decode_payload_snoc)

interpretation codec: payload_codec encode_payload decode_payload
  by unfold_locales (auto simp: encode_payload_def into_encoded_new)

section \<open>Properties\<close>

text \<open>
  C8: encoding and decoding are inverse to each other over the channel: a payload built by
  \<open>new\<close> decodes to a payload with the same wire transaction and the same protection, reading
  the wire transaction of a decoded message never panics, and every non-empty message is the
  encoding of what it decodes to, up to the unknown bits of the flag byte.
\<close>

theorem payload_roundtrip:
  "(\<exists>p. TpuClientPayload_decode (into_encoded (TpuClientPayload_new w b)) = Some p \<and>
        wire_transaction p = Some w \<and> is_mev_protected p = b) \<and>
   (e = [] \<longleftrightarrow> TpuClientPayload_decode e = None) \<and>
   (e = [] \<or> (\<exists>p w'. TpuClientPayload_decode e = Some p \<and> wire_transaction p = Some w' \<and>
        length e = Suc (length w') \<and>
        into_encoded (TpuClientPayload_new w' (is_mev_protected p)) = w' @ [last e AND 1]))"
proof (cases e rule: rev_cases)
  case Nil
  then show ?thesis by (simp add: into_encoded_new)
next
  case (snoc w' f)
  have "f AND 1 = of_bool (odd f)"
    by (simp add: and_one_eq mod_2_eq_odd)
  with snoc show ?thesis by (simp add: into_encoded_new)
qed

end
