(* ===== verification/Tpu_Sender.thy ===== *)
theory Tpu_Sender
  imports Metrics Tpu_Payload
begin

text \<open>
  The sending side of \<open>src/tpu_next_client.rs\<close>: \<open>TpuClientNextSender::send_transaction\<close> with
  its error accounting, the task that flushes the MEV buffer, the metrics reporter, and the
  start-up of the client. The channel behind \<open>TransactionSender\<close> belongs to the crate
  \<open>solana_tpu_client_next\<close>: its state has the type \<open>'c\<close>, and its \<open>try_send_transaction\<close> is
  the parameter \<open>ts\<close> of the definitions, of which nothing is assumed.
\<close>

section \<open>The channel and its errors\<close>

text \<open>The errors are those that \<open>record_send_err\<close> tells apart; what they carry is only logged.\<close>

datatype try_send_error = Closed | Full

datatype client_error =
    TrySendError try_send_error
  | ConnectionWorkersSchedulerError
  | FailedToUpdateIdentity
  | JoinError
  | SendError

type_synonym 'c try_send = "bytes \<Rightarrow> 'c \<Rightarrow> (client_error + unit) \<times> 'c"

record 'c sender_world = globals +
  chan :: 'c

section \<open>Sending\<close>

fun record_send_err :: "client_error \<Rightarrow> 'z globals_scheme \<Rightarrow> 'z globals_scheme" where
  "record_send_err (TrySendError Closed) g =
     emit (CounterInc ''iris_tx_try_send_error_channel_closed'' [] 1) g"
| "record_send_err (TrySendError Full) g =
     emit (CounterInc ''iris_tx_try_send_error_channel_full'' [] 1) g"
| "record_send_err ConnectionWorkersSchedulerError g =
     emit (CounterInc ''iris_connection_worker_scheduler_error'' [] 1) g"
| "record_send_err FailedToUpdateIdentity g =
     emit (CounterInc ''iris_tx_failed_to_update_identity'' [] 1) g"
| "record_send_err JoinError g =
     emit (CounterInc ''iris_tx_join_error'' [] 1) g"
| "record_send_err SendError g =
     emit (CounterInc ''iris_tx_send_error_channel_failed'' [] 1) g"

definition send_transaction ::
  "'c try_send \<Rightarrow> tpu_client_payload \<Rightarrow>
   ('c, 'z) sender_world_scheme \<Rightarrow> ('c, 'z) sender_world_scheme" where
  "send_transaction ts transaction w0 =
     (let w1 = emit (CounterInc ''iris_tx_send_to_tpu_client_next'' [] 1) w0;
          (res, c) = ts (into_encoded transaction) (chan w1);
          w2 = w1\<lparr>chan := c\<rparr>
      in case res of
           Inl error \<Rightarrow> record_send_err error (record_tpu_dropped w2)
         | Inr _ \<Rightarrow> emit (CounterInc ''iris_tx_send_to_tpu_client_success'' [] 1)
                          (record_tpu_enqueued w2))"

lemma record_send_err_emits: "\<exists>n. record_send_err e g = emit (CounterInc n [] 1) g"
  by (cases "(e, g)" rule: record_send_err.cases) auto

lemma counter_record_send_err [simp]: "counter k (record_send_err e g) = counter k g"
  using record_send_err_emits [of e g] by auto

lemma counter_chan [simp]: "counter k (w\<lparr>chan := c\<rparr>) = counter k w"
  by (cases k) (simp_all add: counter.simps)

lemma chan_record [simp]:
  "chan (emit m w) = chan w" "chan (emits ms w) = chan w"
  "chan (record_tpu_dropped w) = chan w" "chan (record_tpu_enqueued w) = chan w"
  "chan (record_quic_received w) = chan w" "chan (record_quic_invalid w) = chan w"
  "chan (record_quic_mev_protected b w) = chan w"
  "chan (record_json_rpc_received b w) = chan w" "chan (record_json_rpc_invalid w) = chan w"
  by (simp_all add: emit_def emits_def record_defs)

lemma chan_record_send_err [simp]: "chan (record_send_err e w) = chan w"
  using record_send_err_emits [of e w] by auto

text \<open>The channel sees exactly the encoded payload, whatever comes of it.\<close>

lemma chan_send_transaction [simp]:
  "chan (send_transaction ts p w) = snd (ts (into_encoded p) (chan w))"
  by (auto simp: send_transaction_def Let_def split: prod.splits sum.splits)

section \<open>The contract of the sink\<close>

text \<open>
  What the two front ends rely on when they hand a payload over: one of the two outcome
  counters goes up by one, the other counters stay. The invariants of the handlers are proved
  against this contract.
\<close>

locale tpu_sink =
  fixes rd :: "stat_key \<Rightarrow> 's \<Rightarrow> u64"
    and send :: "'p \<Rightarrow> 's \<Rightarrow> 's"
    and accepts :: "'p \<Rightarrow> 's \<Rightarrow> bool"
  assumes counts:
    "rd k (send p s) = rd k s + only (if accepts p s then TpuEnqueued else TpuDropped) 1 k"
begin

lemma outcome_total:
  "rd TpuEnqueued (send p s) + rd TpuDropped (send p s) =
   rd TpuEnqueued s + rd TpuDropped s + 1"
  by (simp add: counts only_def)

lemma frame:
  "k \<noteq> TpuEnqueued \<Longrightarrow> k \<noteq> TpuDropped \<Longrightarrow> rd k (send p s) = rd k s"
  by (simp add: counts only_def)

lemma outcome_total_run:
  "rd TpuEnqueued (fold send ps s) + rd TpuDropped (fold send ps s) =
   rd TpuEnqueued s + rd TpuDropped s + of_nat (length ps)"
  by (induction ps arbitrary: s) (simp_all add: outcome_total)

end

definition channel_accepts ::
  "'c try_send \<Rightarrow> tpu_client_payload \<Rightarrow> ('c, 'z) sender_world_scheme \<Rightarrow> bool" where
  "channel_accepts ts p w = (case fst (ts (into_encoded p) (chan w)) of Inl _ \<Rightarrow> False | Inr _ \<Rightarrow> True)"

lemma channel_accepts_frame:
  "chan w' = chan w \<Longrightarrow> channel_accepts ts p w' = channel_accepts ts p w"
  by (simp add: channel_accepts_def)

lemma channel_accepts_record [simp]:
  "channel_accepts ts p (emit m w) = channel_accepts ts p w"
  "channel_accepts ts p (record_quic_received w) = channel_accepts ts p w"
  "channel_accepts ts p (record_quic_mev_protected b w) = channel_accepts ts p w"
  "channel_accepts ts p (record_json_rpc_received b w) = channel_accepts ts p w"
  by (rule channel_accepts_frame, simp)+

interpretation sink: tpu_sink counter "send_transaction ts" "channel_accepts ts" for ts
  by unfold_locales
     (auto simp: send_transaction_def channel_accepts_def Let_def split: prod.splits sum.splits)

section \<open>The flush task\<close>

text \<open>
  Every 400 ms an empty message is sent through the same channel; its outcome is dropped and
  nothing is counted. Between two ticks the rest of the program moves the world on, so the
  task is its step.
\<close>

definition MEV_PROTECT_FLUSH_INTERVAL_ms :: nat where
  "MEV_PROTECT_FLUSH_INTERVAL_ms = 400"

datatype flush_event = FlushCancelled | FlushTick

definition flush_tick ::
  "'c try_send \<Rightarrow> ('c, 'z) sender_world_scheme \<Rightarrow> ('c, 'z) sender_world_scheme" where
  "flush_tick ts w = w\<lparr>chan := snd (ts [] (chan w))\<rparr>"

fun flush_loop ::
  "'c try_send \<Rightarrow> flush_event list \<Rightarrow> ('c, 'z) sender_world_scheme \<Rightarrow>
   ('c, 'z) sender_world_scheme \<times> loop_exit" where
  "flush_loop ts [] w = (w, StillRunning)"
| "flush_loop ts (FlushCancelled # es) w = (w, Stopped)"
| "flush_loop ts (FlushTick # es) w = flush_loop ts es (flush_tick ts w)"

lemma flush_tick_frame [simp]:
  "counter k (flush_tick ts w) = counter k w" "metrics (flush_tick ts w) = metrics w"
  by (simp_all add: flush_tick_def)

lemma flush_loop_counts_nothing:
  "counter k (fst (flush_loop ts es w)) = counter k w \<and>
   metrics (fst (flush_loop ts es w)) = metrics w"
  by (induction ts es w rule: flush_loop.induct) simp_all

section \<open>The metrics reporter\<close>

text \<open>The counters of the client crate that the reporter copies into gauges.\<close>

record send_transaction_stats =
  successfully_sent :: u64
  connect_error_cids_exhausted :: u64
  connect_error_invalid_remote_address :: u64
  connect_error_other :: u64
  connection_error_application_closed :: u64
  connection_error_cids_exhausted :: u64
  connection_error_connection_closed :: u64
  connection_error_locally_closed :: u64
  connection_error_reset :: u64
  connection_error_timed_out :: u64
  connection_error_transport_error :: u64
  connection_error_version_mismatch :: u64
  transport_congestion_events :: u64
  write_error_closed_stream :: u64
  write_error_connection_lost :: u64
  write_error_stopped :: u64
  write_error_zero_rtt_rejected :: u64

definition metrics_round :: "send_transaction_stats \<Rightarrow> 'z globals_scheme \<Rightarrow> 'z globals_scheme" where
  "metrics_round st = emits
     [GaugeSet ''iris_tpu_client_next_successfully_sent'' (unat (successfully_sent st)),
      GaugeSet ''iris_tpu_client_next_connect_error_cids_exhausted''
        (unat (connect_error_cids_exhausted st)),
      GaugeSet ''iris_tpu_client_next_connect_error_invalid_remote_address''
        (unat (connect_error_invalid_remote_address st)),
      GaugeSet ''iris_tpu_client_next_connect_error_other'' (unat (connect_error_other st)),
      GaugeSet ''iris_tpu_client_next_connection_error_application_closed''
        (unat (connection_error_application_closed st)),
      GaugeSet ''iris_tpu_client_next_connection_error_cids_exhausted''
        (unat (connection_error_cids_exhausted st)),
      GaugeSet ''iris_tpu_client_next_connection_error_connection_closed''
        (unat (connection_error_connection_closed st)),
      GaugeSet ''iris_tpu_client_next_connection_error_locally_closed''
        (unat (connection_error_locally_closed st)),
      GaugeSet ''iris_tpu_client_next_connection_error_reset'' (unat (connection_error_reset st)),
      GaugeSet ''iris_tpu_client_next_connection_error_timed_out''
        (unat (connection_error_timed_out st)),
      GaugeSet ''iris_tpu_client_next_connection_error_transport_error''
        (unat (connection_error_transport_error st)),
      GaugeSet ''iris_tpu_client_next_connection_error_version_mismatch''
        (unat (connection_error_version_mismatch st)),
      GaugeSet ''iris_tpu_client_next_transport_congestion_events''
        (unat (transport_congestion_events st)),
      GaugeSet ''iris_tpu_client_next_write_error_closed_stream''
        (unat (write_error_closed_stream st)),
      GaugeSet ''iris_tpu_client_next_write_error_connection_lost''
        (unat (write_error_connection_lost st)),
      GaugeSet ''iris_tpu_client_next_write_error_stopped'' (unat (write_error_stopped st)),
      GaugeSet ''iris_tpu_client_next_write_error_zero_rtt_rejected''
        (unat (write_error_zero_rtt_rejected st))]"

text \<open>
  The loop tests the token before it waits for its tick: each round is the answer of
  \<open>is_cancelled\<close> and the statistics as the round finds them after the tick.
\<close>

fun send_metrics_stats ::
  "(bool \<times> send_transaction_stats) list \<Rightarrow> 'z globals_scheme \<Rightarrow> 'z globals_scheme \<times> loop_exit" where
  "send_metrics_stats [] g = (g, StillRunning)"
| "send_metrics_stats ((cancelled, st) # rounds) g =
     (if cancelled then (g, Stopped) else send_metrics_stats rounds (metrics_round st g))"

section \<open>Starting the client\<close>

text \<open>
  The operating system, the address service and the builder of the client crate answer with a
  value or with an error, given as a chain of messages, the outermost context first. What the
  start-up does, in order, is its list of effects: the two tasks and the client run from then on.
\<close>

record 'id client_config =
  cfg_identity :: 'id
  cfg_sender_channel_size :: usize
  cfg_worker_channel_size :: usize
  cfg_max_reconnect_attempts :: usize
  cfg_leader_send_fanout :: usize
  cfg_max_cache_size :: usize

datatype 'id spawn_effect =
  BoundUdpSocket | StartedAddressService | BuiltClient "'id client_config" | SpawnedFlushTask

definition spawn_tpu_client_next ::
  "string list + 'sock \<Rightarrow> string list + 'updater \<Rightarrow>
   ('id client_config \<Rightarrow> string list + 'client) \<Rightarrow>
   usize \<Rightarrow> usize \<Rightarrow> 'id \<Rightarrow> usize \<Rightarrow> usize \<Rightarrow> usize \<Rightarrow>
   (string list, 'client) rust_result \<times> 'id spawn_effect list" where
  "spawn_tpu_client_next udp service build leader_fan_out num_connections
     validator_identity sender_channel_size worker_channel_size max_reconnect_attempts =
     (case udp of
        Inl e \<Rightarrow> (Err (''cannot bind tpu client endpoint'' # e), [])
      | Inr _ \<Rightarrow>
          if num_connections = 0
          then (Err [''num_connections must be greater than zero''], [BoundUdpSocket])
          else (case service of
             Inl e \<Rightarrow> (Err (''cannot create leader updater'' # e), [BoundUdpSocket])
           | Inr _ \<Rightarrow>
               let cfg = \<lparr>cfg_identity = validator_identity,
                          cfg_sender_channel_size = sender_channel_size,
                          cfg_worker_channel_size = worker_channel_size,
                          cfg_max_reconnect_attempts = max_reconnect_attempts,
                          cfg_leader_send_fanout = leader_fan_out,
                          cfg_max_cache_size = num_connections\<rparr>
               in (case build cfg of
                     Inl e \<Rightarrow> (Err e, [BoundUdpSocket, StartedAddressService])
                   | Inr client \<Rightarrow>
                       (Ok client, [BoundUdpSocket, StartedAddressService, BuiltClient cfg,
                                    SpawnedFlushTask]))))"

section \<open>Properties\<close>

text \<open>What the channel answers to a series of sends, each from the channel the last one left.\<close>

fun send_outcomes ::
  "'c try_send \<Rightarrow> tpu_client_payload list \<Rightarrow> 'c \<Rightarrow> (client_error + unit) list" where
  "send_outcomes ts [] c = []"
| "send_outcomes ts (p # ps) c =
     fst (ts (into_encoded p) c) # send_outcomes ts ps (snd (ts (into_encoded p) c))"

lemma length_send_outcomes [simp]: "length (send_outcomes ts ps c) = length ps"
  by (induction ps arbitrary: c) simp_all

definition outcome_name :: "client_error + unit \<Rightarrow> string" where
  "outcome_name r =
     (case r of
        Inr _ \<Rightarrow> ''iris_tx_send_to_tpu_client_success''
      | Inl (TrySendError Closed) \<Rightarrow> ''iris_tx_try_send_error_channel_closed''
      | Inl (TrySendError Full) \<Rightarrow> ''iris_tx_try_send_error_channel_full''
      | Inl ConnectionWorkersSchedulerError \<Rightarrow> ''iris_connection_worker_scheduler_error''
      | Inl FailedToUpdateIdentity \<Rightarrow> ''iris_tx_failed_to_update_identity''
      | Inl JoinError \<Rightarrow> ''iris_tx_join_error''
      | Inl SendError \<Rightarrow> ''iris_tx_send_error_channel_failed'')"

lemma outcome_name_iff:
  "outcome_name r = ''iris_tx_send_to_tpu_client_success'' \<longleftrightarrow> r = Inr ()"
  "outcome_name r = ''iris_tx_try_send_error_channel_closed'' \<longleftrightarrow> r = Inl (TrySendError Closed)"
  "outcome_name r = ''iris_tx_try_send_error_channel_full'' \<longleftrightarrow> r = Inl (TrySendError Full)"
  "outcome_name r = ''iris_connection_worker_scheduler_error'' \<longleftrightarrow>
     r = Inl ConnectionWorkersSchedulerError"
  "outcome_name r = ''iris_tx_failed_to_update_identity'' \<longleftrightarrow> r = Inl FailedToUpdateIdentity"
  "outcome_name r = ''iris_tx_join_error'' \<longleftrightarrow> r = Inl JoinError"
  "outcome_name r = ''iris_tx_send_error_channel_failed'' \<longleftrightarrow> r = Inl SendError"
  "outcome_name r \<noteq> ''iris_tx_send_to_tpu_client_next''"
  by (auto simp: outcome_name_def split: sum.split client_error.split try_send_error.split)

lemma record_send_err_name: "record_send_err e g = emit (CounterInc (outcome_name (Inl e)) [] 1) g"
  by (cases "(e, g)" rule: record_send_err.cases) (simp_all add: outcome_name_def)

lemma send_transaction_metrics:
  "metrics (send_transaction ts p w) = metrics w @
     [CounterInc ''iris_tx_send_to_tpu_client_next'' [] 1,
      CounterInc (outcome_name (fst (ts (into_encoded p) (chan w)))) [] 1]"
  by (auto simp: send_transaction_def Let_def record_send_err_name outcome_name_iff(1) [THEN iffD2, OF refl] record_defs
      split: prod.split sum.split)

lemma sends_metrics:
  "counter_total n (metrics (fold (send_transaction ts) ps w)) = counter_total n (metrics w) +
     (if n = ''iris_tx_send_to_tpu_client_next'' then length ps else 0) +
     length (filter (\<lambda>r. outcome_name r = n) (send_outcomes ts ps (chan w)))"
  by (induction ps arbitrary: w)
     (auto simp: send_transaction_metrics outcome_name_iff(8) simp flip: outcome_name_iff)

lemma sends_counters:
  "counter k (fold (send_transaction ts) ps w) = counter k w +
     only TpuEnqueued (of_nat (length (filter (\<lambda>r. r = Inr ()) (send_outcomes ts ps (chan w))))) k +
     only TpuDropped (of_nat (length (filter isl (send_outcomes ts ps (chan w))))) k"
  by (induction ps arbitrary: w)
     (auto simp: sink.counts channel_accepts_def only_def split: sum.splits)

text \<open>
  C18: every payload handed to the TPU client is accounted for exactly once, by what the
  channel answered to it. After any sequence of sends, \<open>TPU_ENQUEUED\<close> went up by the number of
  payloads the channel took, \<open>TPU_DROPPED\<close> by the number it refused, and no other counter moved;
  the Prometheus counter of attempts went up by the number of sends, the one of successes by the
  payloads taken, and each of the six error counters by the refusals with its error.
\<close>

theorem sends_accounted:
  "let w' = fold (send_transaction ts) ps w;
       answers = send_outcomes ts ps (chan w);
       answered = (\<lambda>r. length (filter (\<lambda>a. a = r) answers))
   in (\<forall>k. counter k w' = counter k w + only TpuEnqueued (of_nat (answered (Inr ()))) k +
         only TpuDropped (of_nat (length ps - answered (Inr ()))) k) \<and>
      list_all (\<lambda>(name, n). counter_total name (metrics w') = counter_total name (metrics w) + n)
        [(''iris_tx_send_to_tpu_client_next'', length ps),
         (''iris_tx_send_to_tpu_client_success'', answered (Inr ())),
         (''iris_tx_try_send_error_channel_closed'', answered (Inl (TrySendError Closed))),
         (''iris_tx_try_send_error_channel_full'', answered (Inl (TrySendError Full))),
         (''iris_connection_worker_scheduler_error'',
            answered (Inl ConnectionWorkersSchedulerError)),
         (''iris_tx_failed_to_update_identity'', answered (Inl FailedToUpdateIdentity)),
         (''iris_tx_join_error'', answered (Inl JoinError)),
         (''iris_tx_send_error_channel_failed'', answered (Inl SendError))]"
proof -
  let ?rs = "send_outcomes ts ps (chan w)"
  have "(\<lambda>r. \<not> r = Inr ()) = (isl :: client_error + unit \<Rightarrow> bool)"
    by (auto simp: fun_eq_iff isl_def) (metis old.unit.exhaust sum.exhaust)
  then have "length ps - length (filter (\<lambda>a. a = Inr ()) ?rs) = length (filter isl ?rs)"
    using sum_length_filter_compl [of "\<lambda>a. a = Inr ()" ?rs] by simp
  then show ?thesis
    by (simp add: Let_def sends_counters sends_metrics outcome_name_iff)
qed

text \<open>
  The flush task is invisible in the statistics: over any number of ticks it changes no
  counter and emits no metric, and it stops exactly when it is cancelled.
\<close>

lemma flush_loop_silent:
  "counter k (fst (flush_loop ts es w)) = counter k w \<and>
   metrics (fst (flush_loop ts es w)) = metrics w \<and>
   snd (flush_loop ts es w) = (if FlushCancelled \<in> set es then Stopped else StillRunning)"
proof -
  have "snd (flush_loop ts es w) = (if FlushCancelled \<in> set es then Stopped else StillRunning)"
    by (induction ts es w rule: flush_loop.induct) simp_all
  then show ?thesis by (simp add: flush_loop_counts_nothing)
qed

end
