(* ===== verification/Rpc_Error.thy ===== *)
theory Rpc_Error
  imports Iris_Prelude
begin

text \<open>
  The error object of the JSON-RPC layer, and \<open>invalid_request\<close> of \<open>src/rpc_server.rs\<close>, the only
  way the handlers build one. \<open>INVALID_PARAMS_CODE\<close> is a constant of the \<open>jsonrpsee\<close> crate and
  stays symbolic.
\<close>

datatype error_code = INVALID_PARAMS_CODE

record rpc_error =
  error_code :: error_code
  error_message :: string
  error_data :: "string option"

definition invalid_request :: "string \<Rightarrow> rpc_error" where
  "invalid_request reason =
     \<lparr>error_code = INVALID_PARAMS_CODE, error_message = ''Invalid Request: '' @ reason,
      error_data = None\<rparr>"

lemma invalid_request_inject [simp]: "invalid_request a = invalid_request b \<longleftrightarrow> a = b"
  by (simp add: invalid_request_def)

end
