(* ===== verification/Solana_Rpc.thy ===== *)
theory Solana_Rpc
  imports Rpc_Error
begin

text \<open>
  \<open>src/vendor/solana_rpc.rs\<close>: decoding the text of a submitted transaction, with a bound on
  the encoded and on the decoded size. A \<open>String\<close> is the list of its UTF-8 bytes, which is
  what \<open>len\<close> and \<open>as_bytes\<close> see. The decoders of the crates \<open>bs58\<close> and \<open>base64\<close> are
  parameters (an error is its \<open>Debug\<close> text), and so are the two size constants of the Solana
  crates.
\<close>

section \<open>The decoder\<close>

datatype transaction_binary_encoding = Base58 | Base64

record codec_deps =
  bs58_decode :: "bytes \<Rightarrow> string + bytes"
  base64_decode :: "bytes \<Rightarrow> string + bytes"
  PACKET_DATA_SIZE :: nat
  MAX_TRANSACTION_SIZE :: nat

definition MAX_BASE58_SIZE :: nat where
  "MAX_BASE58_SIZE = 1683"

definition MAX_BASE64_SIZE :: nat where
  "MAX_BASE64_SIZE = 5464"

definition MAX_BASE64_LEGACY_SIZE :: nat where
  "MAX_BASE64_LEGACY_SIZE = 1644"

text \<open>\<open>b"gQ"\<close>\<close>

definition V1_BASE64_PREFIX_LOWER_BOUND :: bytes where
  "V1_BASE64_PREFIX_LOWER_BOUND = [103, 81]"

text \<open>\<open>>=\<close> on byte slices: lexicographic.\<close>

fun slice_ge :: "bytes \<Rightarrow> bytes \<Rightarrow> bool" where
  "slice_ge xs [] = True"
| "slice_ge [] (y # ys) = False"
| "slice_ge (x # xs) (y # ys) = (y < x \<or> (x = y \<and> slice_ge xs ys))"

definition v1_prefixed :: "bytes \<Rightarrow> bool" where
  "v1_prefixed txt = (2 \<le> length txt \<and> slice_ge (take 2 txt) V1_BASE64_PREFIX_LOWER_BOUND)"

definition decode_transaction ::
  "codec_deps \<Rightarrow> bytes \<Rightarrow> transaction_binary_encoding \<Rightarrow> rpc_error + bytes" where
  "decode_transaction d txt encoding =
     (case
        (case encoding of
           Base58 \<Rightarrow>
             if MAX_BASE58_SIZE < length txt
             then Inl (invalid_request
                    (''base58 encoded transaction too large: bytes (max: encoded/raw '' @
                     show_nat MAX_BASE58_SIZE @ ''/'' @ show_nat (PACKET_DATA_SIZE d) @ '')''))
             else (case bs58_decode d txt of
                     Inl e \<Rightarrow> Inl (invalid_request (''invalid base58 encoding: '' @ e))
                   | Inr b \<Rightarrow> Inr (b, PACKET_DATA_SIZE d))
         | Base64 \<Rightarrow>
             (let (max_encoded_size, max_raw_size) =
                    (if v1_prefixed txt then (MAX_BASE64_SIZE, MAX_TRANSACTION_SIZE d)
                     else (MAX_BASE64_LEGACY_SIZE, PACKET_DATA_SIZE d))
              in if max_encoded_size < length txt
                 then Inl (invalid_request
                        (''base64 encoded transaction too large: bytes (max: encoded/raw '' @
                         show_nat max_encoded_size @ ''/'' @ show_nat max_raw_size @ '')''))
                 else (case base64_decode d txt of
                         Inl e \<Rightarrow> Inl (invalid_request (''invalid base64 encoding: '' @ e))
                       | Inr b \<Rightarrow> Inr (b, max_raw_size)))) of
        Inl e \<Rightarrow> Inl e
      | Inr (wire_output, max_raw_size) \<Rightarrow>
          if max_raw_size < length wire_output
          then Inl (invalid_request (''decoded transaction too large: '' @
                 show_nat (length wire_output) @ '' bytes (max: '' @ show_nat max_raw_size @
                 '' bytes)''))
          else Inr wire_output)"

text \<open>Acceptance on each branch.\<close>

lemma decode_base58_Inr:
  "decode_transaction d txt Base58 = Inr w \<longleftrightarrow>
     length txt \<le> MAX_BASE58_SIZE \<and> bs58_decode d txt = Inr w \<and> length w \<le> PACKET_DATA_SIZE d"
  by (auto simp: decode_transaction_def split: sum.splits)

lemma decode_base64_Inr:
  "decode_transaction d txt Base64 = Inr w \<longleftrightarrow>
     length txt \<le> (if v1_prefixed txt then MAX_BASE64_SIZE else MAX_BASE64_LEGACY_SIZE) \<and>
     base64_decode d txt = Inr w \<and>
     length w \<le> (if v1_prefixed txt then MAX_TRANSACTION_SIZE d else PACKET_DATA_SIZE d)"
  by (auto simp: decode_transaction_def split: sum.splits)

lemma decode_within:
  "decode_transaction d txt enc = Inr w \<Longrightarrow>
     length w \<le> max (PACKET_DATA_SIZE d) (MAX_TRANSACTION_SIZE d)"
  by (cases enc) (auto simp: decode_base58_Inr decode_base64_Inr split: if_splits)

section \<open>Standard base64\<close>

text \<open>
  RFC 4648: the alphabet in its order, three bytes as four characters, the last group padded
  with \<open>=\<close>. The code relies on \<open>BASE64_STANDARD.decode\<close> inverting it.
\<close>

definition base64_alphabet :: bytes where
  "base64_alphabet =
     [65, 66, 67, 68, 69, 70, 71, 72, 73, 74, 75, 76, 77, 78, 79, 80, 81, 82, 83, 84, 85, 86,
      87, 88, 89, 90, 97, 98, 99, 100, 101, 102, 103, 104, 105, 106, 107, 108, 109, 110, 111,
      112, 113, 114, 115, 116, 117, 118, 119, 120, 121, 122, 48, 49, 50, 51, 52, 53, 54, 55,
      56, 57, 43, 47]"

definition base64_char :: "nat \<Rightarrow> u8" where
  "base64_char n = base64_alphabet ! n"

fun base64_encode :: "bytes \<Rightarrow> bytes" where
  "base64_encode [] = []"
| "base64_encode [a] =
     [base64_char (unat a div 4), base64_char (unat a mod 4 * 16), 61, 61]"
| "base64_encode [a, b] =
     [base64_char (unat a div 4), base64_char (unat a mod 4 * 16 + unat b div 16),
      base64_char (unat b mod 16 * 4), 61]"
| "base64_encode (a # b # c # rest) =
     [base64_char (unat a div 4), base64_char (unat a mod 4 * 16 + unat b div 16),
      base64_char (unat b mod 16 * 4 + unat c div 64), base64_char (unat c mod 64)] @
     base64_encode rest"

definition base64_standard :: "codec_deps \<Rightarrow> bool" where
  "base64_standard d \<longleftrightarrow> (\<forall>bs. base64_decode d (base64_encode bs) = Inr bs)"

definition solana_sizes :: "codec_deps \<Rightarrow> bool" where
  "solana_sizes d \<longleftrightarrow> PACKET_DATA_SIZE d = 1232 \<and> MAX_TRANSACTION_SIZE d = 4096"

lemma length_base64_encode: "length (base64_encode bs) = 4 * ((length bs + 2) div 3)"
proof (induction bs rule: base64_encode.induct)
  case (4 a b c rest)
  have "(length (a # b # c # rest) + 2) div 3 = Suc ((length rest + 2) div 3)"
    by simp
  then show ?case using "4.IH" by (simp del: One_nat_def)
qed simp_all

lemma unat_u8_bound: "unat (a :: u8) < 256"
  using unsigned_less [of a] by simp

lemma unat_u8_nibble [simp]: "unat (a :: u8) div 16 < 16"
  using unat_u8_bound [of a] by simp

text \<open>Where the characters of the alphabet lie relative to \<open>gQ\<close>.\<close>

lemma base64_char_table:
  "list_all (\<lambda>n. base64_char n < 103) [0..<32]"
  "base64_char 32 = 103"
  "list_all (\<lambda>n. 81 \<le> base64_char n) [16..<32]"
  by code_simp+

lemma v1_prefixed_encode:
  assumes "bs \<noteq> []"
  shows "unat (hd bs) < 128 \<Longrightarrow> \<not> v1_prefixed (base64_encode bs)"
    and "hd bs = 129 \<Longrightarrow> v1_prefixed (base64_encode bs)"
proof -
  obtain n rest where enc: "base64_encode bs =
      base64_char (unat (hd bs) div 4) # base64_char (unat (hd bs) mod 4 * 16 + n) # rest" "n < 16"
  proof (cases bs rule: base64_encode.cases)
    case (2 a)
    with that [of 0] show thesis by simp
  next
    case (3 a b)
    with that [of "unat b div 16"] show thesis by simp
  next
    case (4 a b c rest)
    with that [of "unat b div 16"] show thesis by simp
  qed (use assms in simp)
  have low: "base64_char k < 103" if "k < 32" for k
    using list_all_uptD [OF base64_char_table(1)] that by blast
  have high: "81 \<le> base64_char (16 + n)"
    by (rule list_all_uptD [OF base64_char_table(3)]) (use enc(2) in simp_all)
  show "\<not> v1_prefixed (base64_encode bs)" if "unat (hd bs) < 128"
  proof -
    have "base64_char (unat (hd bs) div 4) < 103" using that by (intro low) simp
    then show ?thesis
      by (auto simp: v1_prefixed_def V1_BASE64_PREFIX_LOWER_BOUND_def enc(1))
  qed
  show "v1_prefixed (base64_encode bs)" if "hd bs = 129"
    using high base64_char_table(2) that
    by (auto simp: v1_prefixed_def V1_BASE64_PREFIX_LOWER_BOUND_def enc(1))
qed

section \<open>A decoder that meets the contract\<close>

text \<open>
  A concrete inverse of \<open>base64_encode\<close>, so that the hypothesis \<open>base64_standard\<close> can be seen
  to hold of something. It is used in witnesses only.
\<close>

fun index_of :: "u8 \<Rightarrow> bytes \<Rightarrow> nat" where
  "index_of c [] = 0"
| "index_of c (d # ds) = (if c = d then 0 else Suc (index_of c ds))"

definition base64_value :: "u8 \<Rightarrow> nat" where
  "base64_value c = index_of c base64_alphabet"

fun base64_invert :: "bytes \<Rightarrow> string + bytes" where
  "base64_invert [] = Inr []"
| "base64_invert (w # x # y # z # rest) =
     (let p = base64_value w; q = base64_value x; r = base64_value y; s = base64_value z;
          a = of_nat (p * 4 + q div 16);
          b = of_nat (q mod 16 * 16 + r div 4);
          c = of_nat (r mod 4 * 64 + s)
      in if z = 61 then Inr (if y = 61 then [a] else [a, b])
         else map_sum id (\<lambda>bs. a # b # c # bs) (base64_invert rest))"
| "base64_invert _ = Inl ''InvalidLength''"

lemma base64_value_table:
  "list_all (\<lambda>n. base64_value (base64_char n) = n \<and> base64_char n \<noteq> 61) [0..<64]"
  by code_simp

lemma base64_value_char [simp]:
  "n < 64 \<Longrightarrow> base64_value (base64_char n) = n" "n < 64 \<Longrightarrow> base64_char n \<noteq> 61"
  using list_all_uptD [OF base64_value_table, of n] by simp_all

lemma join_digit [simp]:
  "(n::nat) < m \<Longrightarrow> (k * m + n) div m = k" "n < m \<Longrightarrow> (k * m + n) mod m = n"
  by simp_all

lemma base64_groups:
  fixes a b c :: u8
  shows "unat a div 4 < 64" "unat a mod 4 * 16 < 64" "unat a mod 4 * 16 + unat b div 16 < 64"
    "unat a mod 16 * 4 < 64" "unat a mod 16 * 4 + unat b div 64 < 64" "unat a mod 64 < 64"
    "unat b div 64 < 4"
  using unat_u8_bound [of a] unat_u8_bound [of b] by linarith+

lemma word_digits:
  "word_of_nat (unat a div m) * word_of_nat m + word_of_nat (unat a mod m) = (a :: u8)"
proof -
  have "word_of_nat (unat a div m * m + unat a mod m) = a"
    by (simp only: div_mult_mod_eq) simp
  then show ?thesis by (simp only: of_nat_add of_nat_mult)
qed

lemma base64_invert_encode: "base64_invert (base64_encode bs) = Inr bs"
  using word_digits [where m = 4] word_digits [where m = 16] word_digits [where m = 64]
  by (induction bs rule: base64_encode.induct) (simp_all add: Let_def base64_groups)

text \<open>The codec of a Solana node, with this decoder and no base58.\<close>

definition sample_codec :: codec_deps where
  "sample_codec = \<lparr>bs58_decode = (\<lambda>_. Inl ''unsupported''), base64_decode = base64_invert,
                   PACKET_DATA_SIZE = 1232, MAX_TRANSACTION_SIZE = 4096\<rparr>"

lemma sample_codec_laws: "base64_standard sample_codec" "solana_sizes sample_codec"
  by (simp_all add: sample_codec_def base64_standard_def solana_sizes_def base64_invert_encode)

section \<open>Properties\<close>

text \<open>
  C20: whatever the decoders do, an accepted transaction is within the bounds of its encoding,
  and so is the text it came from: base58 at most 1683 characters and a packet; base64 at most
  5464 characters and the maximum transaction size if its first two characters are at least
  \<open>gQ\<close>, otherwise at most 1644 characters and a packet.
\<close>

theorem decode_transaction_bounds:
  assumes "decode_transaction d txt enc = Inr w"
  shows "case enc of
      Base58 \<Rightarrow> length txt \<le> 1683 \<and> length w \<le> PACKET_DATA_SIZE d
    | Base64 \<Rightarrow>
        if v1_prefixed txt then length txt \<le> 5464 \<and> length w \<le> MAX_TRANSACTION_SIZE d
        else length txt \<le> 1644 \<and> length w \<le> PACKET_DATA_SIZE d"
  using assms
  by (cases enc)
     (auto simp: decode_base58_Inr decode_base64_Inr MAX_BASE58_SIZE_def MAX_BASE64_SIZE_def
       MAX_BASE64_LEGACY_SIZE_def split: if_splits)

theorem decode_transaction_bounds_witness:
  "decode_transaction sample_codec (base64_encode [129, 7]) Base64 = Inr [129, 7] \<and>
   length (base64_encode [129, 7]) \<le> 5464 \<and>
   length [129, 7 :: u8] \<le> MAX_TRANSACTION_SIZE sample_codec"
proof -
  have v: "v1_prefixed (base64_encode [129, 7])"
    by (rule v1_prefixed_encode(2)) simp_all
  then have d: "decode_transaction sample_codec (base64_encode [129, 7]) Base64 = Inr [129, 7]"
    by (simp add: decode_base64_Inr sample_codec_def base64_invert_encode length_base64_encode
        MAX_BASE64_SIZE_def del: base64_encode.simps)
  from decode_transaction_bounds [OF d] d v show ?thesis by simp
qed

lemma decode_encoded:
  assumes "base64_standard d" "solana_sizes d"
  shows "decode_transaction d (base64_encode bs) Base64 = Inr bs \<longleftrightarrow>
    length bs \<le> (if v1_prefixed (base64_encode bs) then 4096 else 1232)"
proof -
  have "4 * ((length bs + 2) div 3) \<le> 5464" if "length bs \<le> 4096"
    using div_le_mono [of "length bs + 2" 4098 3] that by simp
  moreover have "4 * ((length bs + 2) div 3) \<le> 1644" if "length bs \<le> 1232"
    using div_le_mono [of "length bs + 2" 1234 3] that by simp
  ultimately show ?thesis
    using assms
    by (auto simp: decode_base64_Inr base64_standard_def solana_sizes_def length_base64_encode
        MAX_BASE64_SIZE_def MAX_BASE64_LEGACY_SIZE_def)
qed

text \<open>
  Which transactions have a text that passes the prefix test: the alphabet is not in the order
  of its characters (the digits, \<open>+\<close> and \<open>/\<close> come before the letters), so the test has an upper
  end as well.
\<close>

definition v1_range :: "bytes \<Rightarrow> bool" where
  "v1_range bs =
     (case bs of
        [] \<Rightarrow> False
      | b # rest \<Rightarrow>
          b = 129 \<or> b = 130 \<or> (132 \<le> b \<and> b < 208) \<or>
          (b = 131 \<and> (case rest of [] \<Rightarrow> True | c # _ \<Rightarrow> c < 64)))"

lemma base64_char_order:
  "list_all (\<lambda>n. base64_char n < 103) [0..<32]"
  "list_all (\<lambda>n. 103 < base64_char n) [33..<52]"
  "list_all (\<lambda>n. base64_char n < 103) [52..<64]"
  "list_all (\<lambda>n. base64_char n < 81) [0..<16]"
  "list_all (\<lambda>n. 81 \<le> base64_char n) [16..<52]"
  "list_all (\<lambda>n. base64_char n < 81) [52..<64]"
  by code_simp+

text \<open>The test on the first two characters, by their positions in the alphabet.\<close>

lemma v1_prefixed_positions:
  assumes "i < 64" "j < 64"
  shows "v1_prefixed (base64_char i # base64_char j # rest) \<longleftrightarrow>
    (33 \<le> i \<and> i < 52) \<or> (i = 32 \<and> 16 \<le> j \<and> j < 52)"
proof -
  have i: "103 < base64_char i \<longleftrightarrow> 33 \<le> i \<and> i < 52" "base64_char i = 103 \<longleftrightarrow> i = 32"
  proof -
    consider "i < 32" | "i = 32" | "33 \<le> i" "i < 52" | "52 \<le> i" by linarith
    then have "(103 < base64_char i \<longleftrightarrow> 33 \<le> i \<and> i < 52) \<and> (base64_char i = 103 \<longleftrightarrow> i = 32)"
    proof cases
      case 1
      then have "base64_char i < 103"
        using list_all_uptD [OF base64_char_order(1), of i] by simp
      with 1 show ?thesis by auto
    next
      case 2
      then show ?thesis using base64_char_table(2) by simp
    next
      case 3
      then have "103 < base64_char i"
        using list_all_uptD [OF base64_char_order(2), of i] by simp
      with 3 show ?thesis by auto
    next
      case 4
      then have "base64_char i < 103"
        using list_all_uptD [OF base64_char_order(3), of i] assms(1) by simp
      with 4 show ?thesis by auto
    qed
    then show "103 < base64_char i \<longleftrightarrow> 33 \<le> i \<and> i < 52" "base64_char i = 103 \<longleftrightarrow> i = 32" by simp_all
  qed
  have j: "81 \<le> base64_char j \<longleftrightarrow> 16 \<le> j \<and> j < 52"
  proof -
    consider "j < 16" | "16 \<le> j" "j < 52" | "52 \<le> j" by linarith
    then show ?thesis
    proof cases
      case 1
      then have "base64_char j < 81"
        using list_all_uptD [OF base64_char_order(4), of j] by simp
      with 1 show ?thesis by auto
    next
      case 2
      then show ?thesis using list_all_uptD [OF base64_char_order(5), of j] by simp
    next
      case 3
      then have "base64_char j < 81"
        using list_all_uptD [OF base64_char_order(6), of j] assms(2) by simp
      with 3 show ?thesis by auto
    qed
  qed
  have "v1_prefixed (base64_char i # base64_char j # rest) \<longleftrightarrow>
      103 < base64_char i \<or> (base64_char i = 103 \<and> 81 \<le> base64_char j)"
    by (auto simp: v1_prefixed_def V1_BASE64_PREFIX_LOWER_BOUND_def)
  then show ?thesis using i j by auto
qed

lemma v1_positions_bytes:
  fixes m n :: nat
  assumes "n < 16"
  shows "(33 \<le> m div 4 \<and> m div 4 < 52) \<or>
      (m div 4 = 32 \<and> 16 \<le> m mod 4 * 16 + n \<and> m mod 4 * 16 + n < 52) \<longleftrightarrow>
    m = 129 \<or> m = 130 \<or> (132 \<le> m \<and> m < 208) \<or> (m = 131 \<and> n < 4)"
proof -
  define q r where "q = m div 4" and "r = m mod 4"
  have m: "m = 4 * q + r" by (simp add: q_def r_def)
  have "r < 4" by (simp add: r_def)
  then consider "r = 0" | "r = 1" | "r = 2" | "r = 3" by linarith
  then show ?thesis
    unfolding q_def [symmetric] r_def [symmetric] m using assms by cases (auto, presburger+)
qed

lemma v1_prefixed_iff_range: "v1_prefixed (base64_encode bs) \<longleftrightarrow> v1_range bs"
proof (cases bs)
  case Nil
  then show ?thesis by (simp add: v1_prefixed_def v1_range_def)
next
  case (Cons b rest)
  define n where "n = (case rest of [] \<Rightarrow> 0 | c # _ \<Rightarrow> unat c div 16)"
  have n: "n < 16" by (simp add: n_def split: list.split)
  have n4: "n < 4 \<longleftrightarrow> (case rest of [] \<Rightarrow> True | c # _ \<Rightarrow> unat c < 64)"
    by (simp add: n_def div_less_iff_less_mult split: list.split)
  obtain tl where enc: "base64_encode bs =
      base64_char (unat b div 4) # base64_char (unat b mod 4 * 16 + n) # tl"
    by (cases bs rule: base64_encode.cases) (auto simp: Cons n_def)
  define m where "m = unat b"
  have m: "m < 256" unfolding m_def by (rule unat_u8_bound)
  have "v1_prefixed (base64_encode bs) \<longleftrightarrow>
      (33 \<le> m div 4 \<and> m div 4 < 52) \<or>
      (m div 4 = 32 \<and> 16 \<le> m mod 4 * 16 + n \<and> m mod 4 * 16 + n < 52)"
    unfolding enc m_def [symmetric] by (rule v1_prefixed_positions) (use n m in presburger)+
  also have "\<dots> \<longleftrightarrow> m = 129 \<or> m = 130 \<or> (132 \<le> m \<and> m < 208) \<or> (m = 131 \<and> n < 4)"
    using v1_positions_bytes [OF n, of m] .
  also have "\<dots> \<longleftrightarrow> v1_range bs"
    unfolding n4 m_def Cons v1_range_def
    by (simp add: word_le_nat_alt word_less_nat_alt word_unat_eq_iff split: list.split)
  finally show ?thesis .
qed

text \<open>
  C19: under the base64 contract and with the sizes of Solana, the limits on the text are limits
  on the transaction in disguise, and these are exactly what the code accepts: up to 4096 bytes
  if the transaction starts with 0x81 (the V1 prefix), 0x82, a byte from 0x84 to 0xCF, or 0x83
  that no byte of 0x40 or more follows; up to 1232 bytes in every other case.
\<close>

theorem base64_size_limits_exact:
  assumes "base64_standard d" "solana_sizes d"
  shows "decode_transaction d (base64_encode bs) Base64 = Inr bs \<longleftrightarrow>
    length bs \<le>
      (case bs of
         [] \<Rightarrow> 1232
       | b # rest \<Rightarrow>
           if b = 129 \<or> b = 130 \<or> (132 \<le> b \<and> b < 208) \<or>
              (b = 131 \<and> (case rest of [] \<Rightarrow> True | c # _ \<Rightarrow> c < 64))
           then 4096 else 1232)"
  unfolding decode_encoded [OF assms] v1_prefixed_iff_range v1_range_def
  by (cases bs) simp_all

theorem base64_size_limits_exact_witness:
  "decode_transaction sample_codec (base64_encode (129 # replicate 4095 0)) Base64 =
     Inr (129 # replicate 4095 0) \<and>
   decode_transaction sample_codec (base64_encode (1 # replicate 1232 0)) Base64 \<noteq>
     Inr (1 # replicate 1232 0) \<and>
   decode_transaction sample_codec (base64_encode (208 # replicate 1232 0)) Base64 \<noteq>
     Inr (208 # replicate 1232 0)"
  using base64_size_limits_exact [OF sample_codec_laws, of "129 # replicate 4095 0"]
    base64_size_limits_exact [OF sample_codec_laws, of "1 # replicate 1232 0"]
    base64_size_limits_exact [OF sample_codec_laws, of "208 # replicate 1232 0"]
  by (simp add: word_le_nat_alt)

end
