(* ===== verification/Rpc_Server.thy ===== *)
theory Rpc_Server
  imports Tpu_Sender Solana_Rpc
begin

text \<open>
  \<open>src/rpc_server.rs\<close>: the JSON-RPC front end. \<open>rpc_send_transaction\<close> is the handler of
  \<open>sendTransaction\<close> (the suffix-free name is the sender's). The parser of transactions, the
  encodings a client may name and the text of a signature belong to other crates and are the
  parameter \<open>d\<close>; the channel is \<open>ts\<close>, as in the sender.
\<close>

section \<open>The handler\<close>

text \<open>
  \<open>tx_signatures\<close> is \<open>TransactionView::try_new_unsanitized\<close> followed by \<open>signatures()\<close>: an
  error, or the signatures of the transaction. \<open>'enc\<close> is the type \<open>UiTransactionEncoding\<close>.
\<close>

record ('enc, 'sig) rpc_deps =
  rpc_codec :: codec_deps
  encoding_Base64 :: 'enc
  into_binary_encoding :: "'enc \<Rightarrow> transaction_binary_encoding option"
  encoding_to_string :: "'enc \<Rightarrow> string"
  tx_signatures :: "bytes \<Rightarrow> string + 'sig list"
  signature_to_string :: "'sig \<Rightarrow> string"

text \<open>The one field of \<open>RpcSendTransactionConfig\<close> that the code reads.\<close>

record 'enc send_config =
  config_encoding :: "'enc option"

definition health :: "string \<Rightarrow> string" where
  "health pkg_version = ''Ok('' @ pkg_version @ '')''"

definition rpc_send_transaction ::
  "('enc, 'sig) rpc_deps \<Rightarrow> 'c try_send \<Rightarrow> bytes \<Rightarrow> 'enc send_config option \<Rightarrow> bool option \<Rightarrow>
   ('c, 'z) sender_world_scheme \<Rightarrow> (rpc_error + string) \<times> ('c, 'z) sender_world_scheme" where
  "rpc_send_transaction d ts txn params mev_protect w0 =
     (let w1 = emit (CounterInc ''iris_txn_total_transactions'' [] 1) w0;
          mev_protect = (case mev_protect of None \<Rightarrow> False | Some b \<Rightarrow> b);
          w2 = record_json_rpc_received mev_protect w1;
          encoding = (case Option.bind params config_encoding of
                        None \<Rightarrow> encoding_Base64 d | Some e \<Rightarrow> e)
      in case into_binary_encoding d encoding of
           None \<Rightarrow>
             (Inl (invalid_request (''unsupported encoding: '' @ encoding_to_string d encoding @
                     ''. Supported encodings: base58, base64'')),
              emit (CounterInc ''iris_error'' [(''type'', ''invalid_encoding'')] 1)
                   (record_json_rpc_invalid w2))
         | Some binary_encoding \<Rightarrow>
             (case decode_transaction (rpc_codec d) txn binary_encoding of
                Inl e \<Rightarrow>
                  (Inl e,
                   emit (CounterInc ''iris_error'' [(''type'', ''cannot_decode_transaction'')] 1)
                        (record_json_rpc_invalid w2))
              | Inr wire_tx \<Rightarrow>
                  (case tx_signatures d wire_tx of
                     Inl e \<Rightarrow>
                       (Inl (invalid_request ''cannot deserialize transaction''),
                        emit (CounterInc ''iris_error''
                                [(''type'', ''cannot_deserialize_transaction'')] 1)
                             (record_json_rpc_invalid w2))
                   | Inr [] \<Rightarrow>
                       (Inl (invalid_request ''transaction has no signatures''),
                        record_json_rpc_invalid w2)
                   | Inr (signature # _) \<Rightarrow>
                       (Inr (signature_to_string d signature),
                        send_transaction ts (TpuClientPayload_new wire_tx mev_protect) w2))))"

section \<open>The interface\<close>

text \<open>
  \<open>src/rpc.rs\<close>: the methods of the trait \<open>IrisRpc\<close>, the names they are called by and the
  handlers of \<open>IrisRpcServerImpl\<close> that jsonrpsee dispatches them to.
\<close>

datatype 'enc iris_rpc =
    Health
  | SendTransaction bytes "'enc send_config option" "bool option"

fun iris_rpc_method :: "'enc iris_rpc \<Rightarrow> string" where
  "iris_rpc_method Health = ''health''"
| "iris_rpc_method (SendTransaction _ _ _) = ''sendTransaction''"

fun iris_rpc_handle ::
  "string \<Rightarrow> ('enc, 'sig) rpc_deps \<Rightarrow> 'c try_send \<Rightarrow> 'enc iris_rpc \<Rightarrow>
   ('c, 'z) sender_world_scheme \<Rightarrow> (rpc_error + string) \<times> ('c, 'z) sender_world_scheme" where
  "iris_rpc_handle pkg_version d ts Health w = (Inr (health pkg_version), w)"
| "iris_rpc_handle pkg_version d ts (SendTransaction txn params mev_protect) w =
     rpc_send_transaction d ts txn params mev_protect w"

text \<open>Health checks leave no trace in the state, wherever they come in a series of calls.\<close>

lemma health_calls_invisible:
  "fold (\<lambda>r w. snd (iris_rpc_handle v d ts r w)) rs w =
     fold (\<lambda>r w. snd (iris_rpc_handle v d ts r w))
       (filter (\<lambda>r. iris_rpc_method r = ''sendTransaction'') rs) w"
proof (induction rs arbitrary: w)
  case (Cons r rs)
  then show ?case by (cases r) simp_all
qed simp

section \<open>What a request amounts to\<close>

text \<open>
  The verdict on a request, which depends on the request alone: the error to answer with, or
  the transaction to forward, its protection and the signature to answer with.
\<close>

definition requested_encoding :: "('enc, 'sig) rpc_deps \<Rightarrow> 'enc send_config option \<Rightarrow> 'enc" where
  "requested_encoding d params =
     (case Option.bind params config_encoding of None \<Rightarrow> encoding_Base64 d | Some e \<Rightarrow> e)"

definition well_formed_request ::
  "('enc, 'sig) rpc_deps \<Rightarrow> bytes \<Rightarrow> 'enc send_config option \<Rightarrow> bytes \<Rightarrow> 'sig \<Rightarrow> bool" where
  "well_formed_request d txn params wire signature \<longleftrightarrow>
     (\<exists>be sigs. into_binary_encoding d (requested_encoding d params) = Some be \<and>
        decode_transaction (rpc_codec d) txn be = Inr wire \<and>
        tx_signatures d wire = Inr (signature # sigs))"

lemma rpc_send_transaction_accepts:
  assumes "well_formed_request d txn params wire signature"
  shows "rpc_send_transaction d ts txn params mev w =
    (Inr (signature_to_string d signature),
     send_transaction ts (TpuClientPayload_new wire (mev = Some True))
       (record_json_rpc_received (mev = Some True)
         (emit (CounterInc ''iris_txn_total_transactions'' [] 1) w)))"
proof -
  have "(case mev of None \<Rightarrow> False | Some b \<Rightarrow> b) = (mev = Some True)"
    by (cases mev) auto
  with assms show ?thesis
    by (auto simp: well_formed_request_def requested_encoding_def rpc_send_transaction_def Let_def)
qed

lemma rpc_send_transaction_rejects:
  assumes "\<nexists>wire signature. well_formed_request d txn params wire signature"
  obtains e w' where "rpc_send_transaction d ts txn params mev w = (Inl e, w')"
    "chan w' = chan w"
    "\<And>k. counter k w' = counter k w + only JsonReceived 1 k + only JsonInvalid 1 k +
       only MevReceived (of_bool (mev = Some True)) k"
proof -
  have mev: "(case mev of None \<Rightarrow> False | Some b \<Rightarrow> b) = (mev = Some True)"
    by (cases mev) auto
  have "\<exists>e w'. rpc_send_transaction d ts txn params mev w = (Inl e, w') \<and> chan w' = chan w \<and>
    (\<forall>k. counter k w' = counter k w + only JsonReceived 1 k + only JsonInvalid 1 k +
       only MevReceived (of_bool (mev = Some True)) k)"
    using assms unfolding well_formed_request_def requested_encoding_def
    by (auto simp: rpc_send_transaction_def Let_def mev algebra_simps
        split: option.splits sum.splits list.splits)
  with that show thesis by blast
qed

section \<open>Properties\<close>

text \<open>
  C17: the JSON-RPC front end forwards exactly the well-formed requests. A request is answered
  with a signature if and only if its encoding is binary, its text decodes within the limits
  and parses to a transaction with a first signature; then the answer is that signature and
  the channel is offered exactly that transaction, with the protection asked for (none by
  default). Otherwise the answer is an error and the channel is untouched. In neither case
  does the answer depend on whether the channel took the transaction.
\<close>

theorem rpc_forwards_exactly_well_formed:
  "case rpc_send_transaction d ts txn params mev w of (res, w') \<Rightarrow>
     (\<exists>wire signature. well_formed_request d txn params wire signature \<and>
        res = Inr (signature_to_string d signature) \<and>
        chan w' = snd (ts (encode_payload wire (mev = Some True)) (chan w)) \<and>
        res = fst (rpc_send_transaction d ts' txn params mev w)) \<or>
     ((\<nexists>wire signature. well_formed_request d txn params wire signature) \<and>
        (\<exists>e. res = Inl e) \<and> chan w' = chan w)"
proof (cases "\<exists>wire signature. well_formed_request d txn params wire signature")
  case True
  then obtain wire signature where wf: "well_formed_request d txn params wire signature" by blast
  note acc = rpc_send_transaction_accepts [OF wf]
  show ?thesis
    unfolding acc prod.case
    by (rule disjI1, rule exI [of _ wire], rule exI [of _ signature])
       (simp add: wf encode_payload_def)
next
  case False
  then obtain e w' where "rpc_send_transaction d ts txn params mev w = (Inl e, w')"
    "chan w' = chan w"
    by (rule rpc_send_transaction_rejects)
  with False show ?thesis by auto
qed

end
