(* ===== verification/Quic_Server.thy ===== *)
theory Quic_Server
  imports Tpu_Sender
begin

text \<open>
  \<open>src/quic_server.rs\<close> and \<open>src/types.rs\<close>: the QUIC front end. A stream carries one packet, in
  the format that \<open>wincode\<close> derives for \<open>TransactionPacket\<close>: that decoder is the parameter
  \<open>wd\<close>. Connections and streams of the \<open>quinn\<close> crate appear as the events its futures
  complete with.
\<close>

section \<open>Packets and streams\<close>

record transaction_packet =
  packet_wire_transaction :: bytes
  packet_mev_protect :: bool
  packet_max_retry :: "u16 option"

definition QUIC_MAX_SIZE :: "nat \<Rightarrow> nat" where
  "QUIC_MAX_SIZE max_transaction_size = max_transaction_size + 64"

definition READ_TIMEOUT_secs :: nat where
  "READ_TIMEOUT_secs = 2"

text \<open>How \<open>timeout(READ_TIMEOUT, stream.read_to_end(QUIC_MAX_SIZE))\<close> completes.\<close>

datatype read_outcome = ReadOk bytes | ReadErr string | ReadTimedOut

text \<open>
  \<open>micros\<close> and \<open>latency\<close> are the two durations the handler measures; they only reach the
  histograms.
\<close>

definition handle_uni_stream ::
  "(bytes \<Rightarrow> string + transaction_packet) \<Rightarrow> 'c try_send \<Rightarrow> int \<Rightarrow> int \<Rightarrow> read_outcome \<Rightarrow>
   ('c, 'z) sender_world_scheme \<Rightarrow> ('c, 'z) sender_world_scheme" where
  "handle_uni_stream wd ts micros latency outcome w =
     (case outcome of
        ReadErr e \<Rightarrow> emit (CounterInc ''quic_stream_read_error'' [(''error'', e)] 1) w
      | ReadTimedOut \<Rightarrow> emit (CounterInc ''quic_stream_timed_out'' [] 1) w
      | ReadOk data \<Rightarrow>
          (let w1 = record_quic_received
                      (emit (HistogramRecord ''quic_packet_data_size'' [] (int (length data))) w)
           in case wd data of
                Inl err \<Rightarrow>
                  emit (CounterInc ''quic_txn_decode_error'' [] 1) (record_quic_invalid w1)
              | Inr packet \<Rightarrow>
                  (let w2 = record_quic_mev_protected (packet_mev_protect packet)
                              (emit (HistogramRecord ''wincode_deserialize_micros'' [] micros) w1);
                       w3 = send_transaction ts
                              (TpuClientPayload_new (packet_wire_transaction packet)
                                 (packet_mev_protect packet)) w2
                   in emit (HistogramRecord ''handle_uni_stream_latency'' [] latency)
                        (emit (CounterInc ''txn_quic_count'' [] 1) w3))))"

section \<open>Connections\<close>

text \<open>The errors of a connection that the accept loop tells apart.\<close>

datatype connection_error = ApplicationClosed | OtherConnectionError string

text \<open>
  One connection: how its handshake completes, then the streams and the error its
  \<open>accept_uni\<close> yields. The result is the streams a handler was spawned for.
\<close>

fun accept_streams ::
  "('stream + connection_error) list \<Rightarrow> 'z globals_scheme \<Rightarrow>
   'stream list \<times> 'z globals_scheme \<times> loop_exit" where
  "accept_streams [] g = ([], g, StillRunning)"
| "accept_streams (Inl s # es) g =
     (let (ss, g', x) = accept_streams es g in (s # ss, g', x))"
| "accept_streams (Inr ApplicationClosed # es) g = ([], g, Stopped)"
| "accept_streams (Inr (OtherConnectionError e) # es) g =
     ([], emit (CounterInc ''quic_server_incoming_err'' [(''error'', e)] 1) g, Stopped)"

definition handle_connection ::
  "string + ('stream + connection_error) list \<Rightarrow> 'z globals_scheme \<Rightarrow>
   'stream list \<times> 'z globals_scheme \<times> loop_exit" where
  "handle_connection connecting g =
     (case connecting of
        Inl e \<Rightarrow> ([], g, Stopped)
      | Inr events \<Rightarrow> accept_streams events g)"

text \<open>
  The endpoint: a round finds the token cancelled, no incoming connection (\<open>accept\<close> returned
  \<open>None\<close>), or one whose \<open>accept\<close> fails or yields a connection to spawn a handler for.
\<close>

datatype 'conn endpoint_event =
  EndpointCancelled | NoIncoming | Incoming "string + 'conn"

fun quic_server_loop ::
  "'conn endpoint_event list \<Rightarrow> 'z globals_scheme \<Rightarrow> 'conn list \<times> 'z globals_scheme \<times> loop_exit" where
  "quic_server_loop [] g = ([], g, StillRunning)"
| "quic_server_loop (EndpointCancelled # es) g = ([], g, Stopped)"
| "quic_server_loop (NoIncoming # es) g = quic_server_loop es g"
| "quic_server_loop (Incoming (Inl err) # es) g =
     quic_server_loop es (emit (CounterInc ''quic_server_incoming_err'' [(''error'', err)] 1) g)"
| "quic_server_loop (Incoming (Inr c) # es) g =
     (let (cs, g', x) = quic_server_loop es g in (c # cs, g', x))"

section \<open>Lemmas\<close>

lemma handle_uni_stream_chan:
  "chan (handle_uni_stream wd ts m l out w) =
     (case out of
        ReadOk data \<Rightarrow>
          (case wd data of
             Inl _ \<Rightarrow> chan w
           | Inr p \<Rightarrow>
               snd (ts (encode_payload (packet_wire_transaction p) (packet_mev_protect p)) (chan w)))
      | _ \<Rightarrow> chan w)"
  by (auto simp: handle_uni_stream_def Let_def encode_payload_def split: read_outcome.splits sum.splits)

lemma handle_uni_stream_unread [simp]:
  "(\<nexists>data. out = ReadOk data) \<Longrightarrow> counter k (handle_uni_stream wd ts m l out w) = counter k w"
  by (auto simp: handle_uni_stream_def split: read_outcome.splits)

lemma handle_uni_stream_invalid:
  "wd data = Inl e \<Longrightarrow> counter k (handle_uni_stream wd ts m l (ReadOk data) w) =
     counter k w + only QuicReceived 1 k + only QuicInvalid 1 k"
  by (simp add: handle_uni_stream_def Let_def)

text \<open>The payload a decoded packet is sent as.\<close>

definition packet_payload :: "transaction_packet \<Rightarrow> tpu_client_payload" where
  "packet_payload p = TpuClientPayload_new (packet_wire_transaction p) (packet_mev_protect p)"

lemma handle_uni_stream_valid:
  "wd data = Inr p \<Longrightarrow> counter k (handle_uni_stream wd ts m l (ReadOk data) w) =
     counter k w + only QuicReceived 1 k + only MevReceived (of_bool (packet_mev_protect p)) k +
     only (if channel_accepts ts (packet_payload p) w then TpuEnqueued else TpuDropped) 1 k"
  by (simp add: handle_uni_stream_def Let_def packet_payload_def sink.counts)

section \<open>Properties\<close>

text \<open>
  Every outcome of a QUIC stream. A packet that was read and decodes is counted as
  received, as MEV-protected if its flag says so, and as enqueued or dropped, and the channel
  is offered its transaction with its flag (\<open>max_retry\<close> plays no part). An undecodable one is
  counted as received and invalid. A failed or late read counts nothing. In the last two cases
  the channel is untouched.
\<close>

lemma quic_stream_outcomes:
  "let w' = handle_uni_stream wd ts micros latency out w in
     case out of
       ReadOk data \<Rightarrow>
         (case wd data of
            Inl _ \<Rightarrow> chan w' = chan w \<and>
              (\<forall>k. counter k w' = counter k w + only QuicReceived 1 k + only QuicInvalid 1 k)
          | Inr p \<Rightarrow>
              chan w' = snd (ts (encode_payload (packet_wire_transaction p)
                                   (packet_mev_protect p)) (chan w)) \<and>
              (\<forall>k. counter k w' = counter k w + only QuicReceived 1 k +
                 only MevReceived (of_bool (packet_mev_protect p)) k +
                 only (if channel_accepts ts (packet_payload p) w
                       then TpuEnqueued else TpuDropped) 1 k))
     | _ \<Rightarrow> chan w' = chan w \<and> (\<forall>k. counter k w' = counter k w)"
  by (auto simp: handle_uni_stream_chan handle_uni_stream_invalid handle_uni_stream_valid
      split: read_outcome.splits sum.splits)

text \<open>
  A handler is spawned for every stream a connection yields before its first error and
  for no other; an error ends the loop of that connection, and it is counted unless the peer
  closed the connection itself. A connection whose handshake fails spawns nothing.
\<close>

lemma connection_serves_streams_until_error:
  "handle_connection (Inr (map Inl ss @ Inr err # rest)) g =
     (ss, (case err of
             ApplicationClosed \<Rightarrow> g
           | OtherConnectionError e \<Rightarrow>
               emit (CounterInc ''quic_server_incoming_err'' [(''error'', e)] 1) g), Stopped) \<and>
   handle_connection (Inr (map Inl ss)) g = (ss, g, StillRunning) \<and>
   handle_connection (Inl e) g = (([] :: 'stream list), g, Stopped)"
proof -
  have "accept_streams (map Inl ss @ Inr err # rest) g =
     (ss, (case err of
             ApplicationClosed \<Rightarrow> g
           | OtherConnectionError e \<Rightarrow>
               emit (CounterInc ''quic_server_incoming_err'' [(''error'', e)] 1) g), Stopped)"
    by (induction ss) (simp_all split: connection_error.splits)
  moreover have "accept_streams (map Inl ss) g = (ss, g, StillRunning)"
    by (induction ss) simp_all
  ultimately show ?thesis by (simp add: handle_connection_def)
qed

fun accepted_conn :: "'conn endpoint_event \<Rightarrow> 'conn option" where
  "accepted_conn (Incoming (Inr c)) = Some c"
| "accepted_conn _ = None"

text \<open>
  C35: the endpoint loop serves every accepted connection until it is cancelled, and only the
  cancellation ends it: failed connections and a missing one are skipped, and each failure is
  counted once.
\<close>

theorem endpoint_serves_until_cancelled:
  "case quic_server_loop es g of (cs, g', x) \<Rightarrow>
     cs = List.map_filter accepted_conn (takeWhile (\<lambda>e. e \<noteq> EndpointCancelled) es) \<and>
     x = (if EndpointCancelled \<in> set es then Stopped else StillRunning) \<and>
     counter_total ''quic_server_incoming_err'' (metrics g') =
       counter_total ''quic_server_incoming_err'' (metrics g) +
       length (filter (\<lambda>e. \<exists>err. e = Incoming (Inl err)) (takeWhile (\<lambda>e. e \<noteq> EndpointCancelled) es))"
  by (induction es g rule: quic_server_loop.induct)
     (simp_all add: List.map_filter_simps case_prod_unfold Let_def)

end
