(* ===== verification/Http_Middleware.thy ===== *)
theory Http_Middleware
  imports Metrics
begin

text \<open>
  \<open>src/http_middleware.rs\<close>: the middleware in front of the JSON-RPC server that measures how
  long a request was under way. Header values, the parser of timestamps and the clock belong
  to other crates and are the parameter \<open>h\<close>; the inner service is a function of the request
  and of the state that all services share.
\<close>

text \<open>\<open>'t\<close> are instants and \<open>'d\<close> durations; \<open>header_get\<close> is the first value of a header, whose
  name is compared without regard to case.\<close>

record ('req, 't, 'd) http_deps =
  header_get :: "'req \<Rightarrow> string \<Rightarrow> bytes option"
  value_to_str :: "bytes \<Rightarrow> string option"
  parse_from_rfc3339 :: "string \<Rightarrow> 't option"
  signed_duration_since :: "'t \<Rightarrow> 't \<Rightarrow> 'd"
  num_microseconds :: "'d \<Rightarrow> int option"

definition request_timestamp :: "('req, 't, 'd) http_deps \<Rightarrow> 'req \<Rightarrow> 't option" where
  "request_timestamp h req =
     Option.bind (Option.bind (header_get h req ''X-Transaction-Timestamp'') (value_to_str h))
       (parse_from_rfc3339 h)"

definition request_origin :: "('req, 't, 'd) http_deps \<Rightarrow> 'req \<Rightarrow> string" where
  "request_origin h req =
     (case Option.bind (header_get h req ''X-Client-IP'') (value_to_str h) of
        None \<Rightarrow> ''unknown'' | Some s \<Rightarrow> s)"

text \<open>\<open>now\<close> is the reading of the clock, which the code takes only when there is a timestamp.\<close>

definition http_call ::
  "('req, 't, 'd) http_deps \<Rightarrow> 't \<Rightarrow> ('req \<Rightarrow> 'z globals_scheme \<Rightarrow> 'resp \<times> 'z globals_scheme) \<Rightarrow>
   'req \<Rightarrow> 'z globals_scheme \<Rightarrow> 'resp \<times> 'z globals_scheme" where
  "http_call h now inner req g =
     (let timestamp = request_timestamp h req;
          origin_header = request_origin h req;
          g1 = (case timestamp of
                  Some ts \<Rightarrow>
                    (let latency = signed_duration_since h now ts
                     in case num_microseconds h latency of
                          Some latency_us \<Rightarrow>
                            emit (HistogramRecord ''iris_http_request_receive_latency_us''
                                    [(''origin'', origin_header)] latency_us) g
                        | None \<Rightarrow>
                            emit (CounterInc ''iris_http_request_timestamp_invalid''
                                    [(''origin'', origin_header)] 1) g)
                | None \<Rightarrow>
                    emit (CounterInc ''iris_http_request_timestamp_missing''
                            [(''origin'', origin_header)] 1) g)
      in inner req g1)"

datatype 'r http_poll = Pending | Ready 'r

definition http_poll_ready ::
  "('z globals_scheme \<Rightarrow> 'r http_poll \<times> 'z globals_scheme) \<Rightarrow> 'z globals_scheme \<Rightarrow>
   'r http_poll \<times> 'z globals_scheme" where
  "http_poll_ready inner_poll g = inner_poll g"

section \<open>Properties\<close>

text \<open>The measurement of one request, read off its headers.\<close>

definition request_metric :: "('req, 't, 'd) http_deps \<Rightarrow> 't \<Rightarrow> 'req \<Rightarrow> metric" where
  "request_metric h now req =
     (let origin = [(''origin'', request_origin h req)]
      in case request_timestamp h req of
           None \<Rightarrow> CounterInc ''iris_http_request_timestamp_missing'' origin 1
         | Some ts \<Rightarrow>
             (case num_microseconds h (signed_duration_since h now ts) of
                None \<Rightarrow> CounterInc ''iris_http_request_timestamp_invalid'' origin 1
              | Some us \<Rightarrow> HistogramRecord ''iris_http_request_receive_latency_us'' origin us))"

lemma http_call_emits: "http_call h now inner req g = inner req (emit (request_metric h now req) g)"
  by (simp add: http_call_def request_metric_def Let_def split: option.split)

text \<open>A server behind the middleware: requests with the readings of the clock, one by one.\<close>

fun serve_requests ::
  "('t \<Rightarrow> 'req \<Rightarrow> 'z globals_scheme \<Rightarrow> 'resp \<times> 'z globals_scheme) \<Rightarrow>
   ('t \<times> 'req) list \<Rightarrow> 'z globals_scheme \<Rightarrow> 'resp list \<times> 'z globals_scheme" where
  "serve_requests call [] g = ([], g)"
| "serve_requests call ((now, req) # rs) g =
     (let (a, g1) = call now req g; (as, g2) = serve_requests call rs g1 in (a # as, g2))"

text \<open>
  What the rest of the state looks like without the recorded metrics, and a service that never
  lets them influence its answer: handlers only append to them.
\<close>

definition unmetered :: "'z globals_scheme \<Rightarrow> 'z globals_scheme" where
  "unmetered g = g\<lparr>metrics := []\<rparr>"

definition metrics_oblivious ::
  "('req \<Rightarrow> 'z globals_scheme \<Rightarrow> 'resp \<times> 'z globals_scheme) \<Rightarrow> bool" where
  "metrics_oblivious inner \<longleftrightarrow>
     (\<forall>req g g'. unmetered g = unmetered g' \<longrightarrow>
        fst (inner req g) = fst (inner req g') \<and>
        unmetered (snd (inner req g)) = unmetered (snd (inner req g')))"

fun is_http_metric :: "metric \<Rightarrow> bool" where
  "is_http_metric (CounterInc n ls v) \<longleftrightarrow>
     n = ''iris_http_request_timestamp_missing'' \<or> n = ''iris_http_request_timestamp_invalid''"
| "is_http_metric (HistogramRecord n ls v) \<longleftrightarrow> n = ''iris_http_request_receive_latency_us''"
| "is_http_metric (GaugeSet n v) \<longleftrightarrow> False"

definition http_measurements :: "metric list \<Rightarrow> metric list" where
  "http_measurements ms = filter is_http_metric ms"

lemma unmetered_emit [simp]: "unmetered (emit m g) = unmetered g"
  by (simp add: unmetered_def emit_def)

lemma request_metric_is_http [simp]: "is_http_metric (request_metric h now req)"
  by (simp add: request_metric_def Let_def split: option.split)

lemma serve_requests_Cons:
  "serve_requests call ((now, req) # rs) g =
     (let out = call now req g; rest = serve_requests call rs (snd out)
      in (fst out # fst rest, snd rest))"
  by (simp add: case_prod_unfold Let_def)

lemma serve_requests_transparent:
  assumes "metrics_oblivious inner" "unmetered g = unmetered g'"
  shows "fst (serve_requests (\<lambda>now. http_call h now inner) rs g) =
      fst (serve_requests (\<lambda>_. inner) rs g') \<and>
    unmetered (snd (serve_requests (\<lambda>now. http_call h now inner) rs g)) =
      unmetered (snd (serve_requests (\<lambda>_. inner) rs g'))"
  using assms(2)
proof (induction rs arbitrary: g g')
  case (Cons r rs)
  obtain now req where r: "r = (now, req)" by (cases r)
  let ?g = "emit (request_metric h now req) g"
  have "fst (inner req ?g) = fst (inner req g')" "unmetered (snd (inner req ?g)) = unmetered (snd (inner req g'))"
    using assms(1) Cons.prems unfolding metrics_oblivious_def by (metis unmetered_emit)+
  with Cons.IH [of "snd (inner req ?g)" "snd (inner req g')"] show ?case
    by (simp add: r serve_requests_Cons Let_def http_call_emits del: serve_requests.simps(2))
qed simp

lemma serve_requests_measured:
  assumes "\<And>req g. http_measurements (metrics (snd (inner req g))) = http_measurements (metrics g)"
  shows "http_measurements (metrics (snd (serve_requests (\<lambda>now. http_call h now inner) rs g))) =
    http_measurements (metrics g) @ map (\<lambda>(now, req). request_metric h now req) rs"
proof (induction rs arbitrary: g)
  case (Cons r rs)
  obtain now req where r: "r = (now, req)" by (cases r)
  have "http_measurements (metrics g @ [request_metric h now req]) =
      http_measurements (metrics g) @ [request_metric h now req]"
    by (simp add: http_measurements_def)
  with Cons.IH show ?case
    by (simp add: r serve_requests_Cons Let_def http_call_emits assms del: serve_requests.simps(2))
qed simp

text \<open>
  C40: the middleware measures and does nothing else. In front of a service that does not read
  the recorded metrics and records no measurement of its own, it changes no answer and nothing
  of the state but the metrics; and the measurements of a run are exactly one per request, in
  order: the latency when the request carries a usable timestamp, else one of the two counters,
  labelled with the origin of the request.
\<close>

theorem http_middleware_transparent:
  assumes "metrics_oblivious inner"
    and "\<And>req g. http_measurements (metrics (snd (inner req g))) = http_measurements (metrics g)"
  shows "case serve_requests (\<lambda>now. http_call h now inner) rs g of (answers, g') \<Rightarrow>
    answers = fst (serve_requests (\<lambda>_. inner) rs g) \<and>
    unmetered g' = unmetered (snd (serve_requests (\<lambda>_. inner) rs g)) \<and>
    http_measurements (metrics g') =
      http_measurements (metrics g) @ map (\<lambda>(now, req). request_metric h now req) rs"
  using serve_requests_transparent [OF assms(1) refl, of h rs g]
    serve_requests_measured [of inner h rs g, OF assms(2)]
  by (simp add: case_prod_unfold)

definition sample_http :: "(int option, int, int) http_deps" where
  "sample_http =
     \<lparr>header_get = (\<lambda>req name. if name = ''X-Transaction-Timestamp'' then map_option (\<lambda>_. []) req else None),
      value_to_str = (\<lambda>_. Some []), parse_from_rfc3339 = (\<lambda>_. Some 40),
      signed_duration_since = (\<lambda>now ts. now - ts), num_microseconds = Some\<rparr>"

theorem http_middleware_transparent_witness:
  "let out = serve_requests (\<lambda>now. http_call sample_http now (\<lambda>req g. (req, record_quic_received g)))
     [(50, Some 1), (60, None)] globals_init in
   fst out = [Some 1, None] \<and>
   http_measurements (metrics (snd out)) =
     [HistogramRecord ''iris_http_request_receive_latency_us'' [(''origin'', ''unknown'')] 10,
      CounterInc ''iris_http_request_timestamp_missing'' [(''origin'', ''unknown'')] 1]"
proof -
  let ?inner = "\<lambda>(req :: int option) (g :: globals). (req, record_quic_received g)"
  have "record_quic_received (unmetered g) = unmetered (record_quic_received g)" for g :: globals
    by (simp add: unmetered_def record_defs)
  then have "metrics_oblivious ?inner"
    unfolding metrics_oblivious_def by (metis fst_conv snd_conv)
  moreover have "http_measurements (metrics (snd (?inner req g))) = http_measurements (metrics g)" for req g
    by (simp add: record_defs)
  ultimately show ?thesis
    using http_middleware_transparent [where inner = ?inner and h = sample_http and rs = "[(50, Some 1), (60, None)]" and g = globals_init]
    by (simp add: request_metric_def request_timestamp_def request_origin_def sample_http_def
        globals_init_def globals.defs statics.defs http_measurements_def split: prod.splits)
qed

end
