(* ===== verification/Ingress.thy ===== *)
theory Ingress
  imports Rpc_Server Quic_Server Http_Middleware
begin

text \<open>
  The two front ends and the flush task at work on the same statistics and the same channel:
  any sequence of JSON-RPC requests, QUIC streams and flush ticks. Here a handler is one step;
  the theory \<open>Interleaving\<close> takes handlers apart.
\<close>

section \<open>Events\<close>

datatype 'enc ingress_event =
    JsonRequest bytes "'enc send_config option" "bool option"
  | QuicStream int int read_outcome
  | FlushMessage

definition ingress_step ::
  "('enc, 'sig) rpc_deps \<Rightarrow> (bytes \<Rightarrow> string + transaction_packet) \<Rightarrow> 'c try_send \<Rightarrow>
   'enc ingress_event \<Rightarrow> ('c, 'z) sender_world_scheme \<Rightarrow> ('c, 'z) sender_world_scheme" where
  "ingress_step d wd ts e w =
     (case e of
        JsonRequest txn params mev \<Rightarrow> snd (rpc_send_transaction d ts txn params mev w)
      | QuicStream micros latency outcome \<Rightarrow> handle_uni_stream wd ts micros latency outcome w
      | FlushMessage \<Rightarrow> flush_tick ts w)"

text \<open>The submission an event comes down to, if it is well formed: a transaction and its protection.\<close>

definition submission ::
  "('enc, 'sig) rpc_deps \<Rightarrow> (bytes \<Rightarrow> string + transaction_packet) \<Rightarrow> 'enc ingress_event \<Rightarrow>
   (bytes \<times> bool) option" where
  "submission d wd e =
     (case e of
        JsonRequest txn params mev \<Rightarrow>
          (case into_binary_encoding d (requested_encoding d params) of
             None \<Rightarrow> None
           | Some be \<Rightarrow>
               (case decode_transaction (rpc_codec d) txn be of
                  Inl _ \<Rightarrow> None
                | Inr wire \<Rightarrow>
                    (case tx_signatures d wire of
                       Inr (_ # _) \<Rightarrow> Some (wire, mev = Some True)
                     | _ \<Rightarrow> None)))
      | QuicStream _ _ (ReadOk data) \<Rightarrow>
          (case wd data of
             Inl _ \<Rightarrow> None
           | Inr p \<Rightarrow> Some (packet_wire_transaction p, packet_mev_protect p))
      | _ \<Rightarrow> None)"

lemma submission_well_formed:
  "(\<exists>s. well_formed_request d txn params wire s) \<longleftrightarrow>
     submission d wd (JsonRequest txn params mev) = Some (wire, mev = Some True)"
  by (auto simp: well_formed_request_def submission_def
      split: option.splits sum.splits list.splits)

section \<open>One step\<close>

text \<open>
  The messages the channel is offered by an event: the encoded transaction of a well-formed
  submission, or the empty message of the flush task.
\<close>

definition offered ::
  "('enc, 'sig) rpc_deps \<Rightarrow> (bytes \<Rightarrow> string + transaction_packet) \<Rightarrow> 'enc ingress_event \<Rightarrow>
   bytes option" where
  "offered d wd e =
     (case e of
        FlushMessage \<Rightarrow> Some []
      | _ \<Rightarrow> map_option (\<lambda>(wire, mev). encode_payload wire mev) (submission d wd e))"

lemma json_not_well_formed:
  assumes "submission d wd (JsonRequest txn params mev) = None"
  shows "\<nexists>wire s. well_formed_request d txn params wire s"
  using submission_well_formed [of d txn params _ wd mev] assms by fastforce

lemma ingress_step_chan:
  "chan (ingress_step d wd ts e w) =
     (case offered d wd e of None \<Rightarrow> chan w | Some m \<Rightarrow> snd (ts m (chan w)))"
proof (cases e)
  case (JsonRequest txn params mev)
  show ?thesis
  proof (cases "submission d wd e")
    case None
    then obtain x w' where "rpc_send_transaction d ts txn params mev w = (Inl x, w')" "chan w' = chan w"
      using rpc_send_transaction_rejects [of d txn params ts mev w] json_not_well_formed JsonRequest
      by metis
    with None JsonRequest show ?thesis by (simp add: ingress_step_def offered_def)
  next
    case (Some s)
    obtain wire b where s: "s = (wire, b)" by (cases s)
    have b: "b = (mev = Some True)"
      using Some JsonRequest s by (auto simp: submission_def split: option.splits sum.splits list.splits)
    with Some s JsonRequest obtain sg where wf: "well_formed_request d txn params wire sg"
      using submission_well_formed [of d txn params wire wd mev] by auto
    show ?thesis
      using Some s b JsonRequest rpc_send_transaction_accepts [OF wf, of ts mev w]
      by (simp add: ingress_step_def offered_def encode_payload_def)
  qed
next
  case (QuicStream m l out)
  then show ?thesis
    by (auto simp: ingress_step_def handle_uni_stream_chan offered_def submission_def
        split: read_outcome.splits sum.splits)
next
  case FlushMessage
  then show ?thesis by (simp add: ingress_step_def flush_tick_def offered_def)
qed

text \<open>
  What an event adds to the counters apart from the outcome of its submission, which is the
  business of the channel.
\<close>

fun is_json :: "'enc ingress_event \<Rightarrow> bool" where
  "is_json (JsonRequest _ _ _) = True" | "is_json _ = False"

fun is_read_stream :: "'enc ingress_event \<Rightarrow> bool" where
  "is_read_stream (QuicStream _ _ (ReadOk _)) = True" | "is_read_stream _ = False"

text \<open>A JSON request counts as protected by its flag even when it is rejected; a packet must decode.\<close>

definition asks_protection ::
  "('enc, 'sig) rpc_deps \<Rightarrow> (bytes \<Rightarrow> string + transaction_packet) \<Rightarrow> 'enc ingress_event \<Rightarrow> bool" where
  "asks_protection d wd e =
     (case e of
        JsonRequest _ _ mev \<Rightarrow> mev = Some True
      | _ \<Rightarrow> (case submission d wd e of None \<Rightarrow> False | Some (_, mev) \<Rightarrow> mev))"

definition event_count ::
  "('enc, 'sig) rpc_deps \<Rightarrow> (bytes \<Rightarrow> string + transaction_packet) \<Rightarrow> 'enc ingress_event \<Rightarrow>
   stat_key \<Rightarrow> nat" where
  "event_count d wd e k =
     (case k of
        JsonReceived \<Rightarrow> of_bool (is_json e)
      | QuicReceived \<Rightarrow> of_bool (is_read_stream e)
      | JsonInvalid \<Rightarrow> of_bool (is_json e \<and> submission d wd e = None)
      | QuicInvalid \<Rightarrow> of_bool (is_read_stream e \<and> submission d wd e = None)
      | MevReceived \<Rightarrow> of_bool (asks_protection d wd e)
      | _ \<Rightarrow> 0)"

definition outcome_count ::
  "'c try_send \<Rightarrow> (bytes \<times> bool) option \<Rightarrow> ('c, 'z) sender_world_scheme \<Rightarrow> stat_key \<Rightarrow> u64" where
  "outcome_count ts sub w k =
     (case sub of
        None \<Rightarrow> 0
      | Some (wire, mev) \<Rightarrow>
          only (if channel_accepts ts (TpuClientPayload_new wire mev) w
                then TpuEnqueued else TpuDropped) 1 k)"

lemma ingress_step_counter:
  "counter k (ingress_step d wd ts e w) =
     counter k w + of_nat (event_count d wd e k) + outcome_count ts (submission d wd e) w k"
proof (cases e)
  case (JsonRequest txn params mev)
  show ?thesis
  proof (cases "submission d wd e")
    case None
    then obtain x w' where r: "rpc_send_transaction d ts txn params mev w = (Inl x, w')"
      "\<And>k. counter k w' = counter k w + only JsonReceived 1 k + only JsonInvalid 1 k +
         only MevReceived (of_bool (mev = Some True)) k"
      using rpc_send_transaction_rejects [of d txn params ts mev w] json_not_well_formed JsonRequest
      by metis
    show ?thesis
      using None JsonRequest r(1)
      by (cases k) (simp_all add: ingress_step_def r(2) event_count_def outcome_count_def only_def
          asks_protection_def)
  next
    case (Some s)
    obtain wire b where s: "s = (wire, b)" by (cases s)
    have b: "b = (mev = Some True)"
      using Some JsonRequest s by (auto simp: submission_def split: option.splits sum.splits list.splits)
    with Some s JsonRequest obtain sg where wf: "well_formed_request d txn params wire sg"
      using submission_well_formed [of d txn params wire wd mev] by auto
    show ?thesis
      using Some s b JsonRequest rpc_send_transaction_accepts [OF wf, of ts mev w]
      by (cases k) (simp_all add: ingress_step_def event_count_def outcome_count_def only_def
          asks_protection_def sink.counts)
  qed
next
  case (QuicStream m l out)
  show ?thesis
  proof (cases "\<exists>data. out = ReadOk data")
    case False
    with QuicStream have "submission d wd e = None" "\<not> is_read_stream e" "\<not> is_json e"
      by (cases out; simp add: submission_def)+
    with False QuicStream show ?thesis
      by (cases k) (simp_all add: ingress_step_def event_count_def outcome_count_def asks_protection_def)
  next
    case True
    then obtain data where out: "out = ReadOk data" by blast
    show ?thesis
    proof (cases "wd data")
      case (Inl x)
      with out QuicStream have "submission d wd e = None" by (simp add: submission_def)
      with Inl out QuicStream show ?thesis
        by (cases k) (simp_all add: ingress_step_def handle_uni_stream_invalid event_count_def
            outcome_count_def only_def asks_protection_def)
    next
      case (Inr p)
      with out QuicStream
      have "submission d wd e = Some (packet_wire_transaction p, packet_mev_protect p)"
        by (simp add: submission_def)
      with Inr out QuicStream show ?thesis
        by (cases k) (simp_all add: ingress_step_def handle_uni_stream_valid event_count_def
            outcome_count_def only_def asks_protection_def packet_payload_def)
    qed
  qed
next
  case FlushMessage
  then show ?thesis
    by (cases k) (simp_all add: ingress_step_def event_count_def outcome_count_def submission_def
        asks_protection_def)
qed

text \<open>The outcomes of a history, and what is conserved.\<close>

definition submissions ::
  "('enc, 'sig) rpc_deps \<Rightarrow> (bytes \<Rightarrow> string + transaction_packet) \<Rightarrow> 'enc ingress_event list \<Rightarrow>
   (bytes \<times> bool) list" where
  "submissions d wd es = List.map_filter (submission d wd) es"

definition accounted :: "('c, 'z) sender_world_scheme \<Rightarrow> ('c, 'z) sender_world_scheme \<Rightarrow> bool" where
  "accounted w0 w \<longleftrightarrow>
     (let moved = \<lambda>k. counter k w - counter k w0
      in moved JsonReceived + moved QuicReceived =
         moved JsonInvalid + moved QuicInvalid + moved TpuEnqueued + moved TpuDropped)"

lemma received_is_invalid_or_submitted:
  "event_count d wd e JsonReceived + event_count d wd e QuicReceived =
     event_count d wd e JsonInvalid + event_count d wd e QuicInvalid +
     of_bool (submission d wd e \<noteq> None)"
  by (cases "submission d wd e"; cases e rule: is_read_stream.cases)
     (auto simp: event_count_def submission_def)

lemma accounted_step:
  assumes acc: "accounted w0 w"
  shows "accounted w0 (ingress_step d wd ts e w)"
proof -
  let ?n = "\<lambda>k. of_nat (event_count d wd e k) :: u64"
  have "?n JsonReceived + ?n QuicReceived =
      ?n JsonInvalid + ?n QuicInvalid + of_bool (submission d wd e \<noteq> None)"
    using arg_cong [OF received_is_invalid_or_submitted [of d wd e], of "of_nat :: nat \<Rightarrow> u64"]
    by simp
  moreover have "outcome_count ts (submission d wd e) w TpuEnqueued +
      outcome_count ts (submission d wd e) w TpuDropped = of_bool (submission d wd e \<noteq> None)"
    by (auto simp: outcome_count_def only_def split: option.splits)
  moreover have "outcome_count ts (submission d wd e) w k = 0"
    if "k \<noteq> TpuEnqueued" "k \<noteq> TpuDropped" for k
    using that by (auto simp: outcome_count_def only_def split: option.splits)
  moreover have "?n TpuEnqueued = 0" "?n TpuDropped = 0" by (simp_all add: event_count_def)
  ultimately show ?thesis
    using acc by (simp add: accounted_def ingress_step_counter algebra_simps)
qed

interpretation ingress: event_machine "ingress_step d wd ts" "accounted w0" for d wd ts w0
  by unfold_locales (rule accounted_step)

section \<open>Properties\<close>

text \<open>The counters the front ends feed.\<close>

definition ingress_keys :: "stat_key list" where
  "ingress_keys = [JsonReceived, QuicReceived, JsonInvalid, QuicInvalid, MevReceived]"

text \<open>
  C9: what the statistics of a run say is exactly what happened at the front ends. After any
  sequence of JSON-RPC requests, QUIC streams and flush ticks, each of the five ingress
  counters has gone up by the number of its events: requests and readable streams received,
  those of them without a submission as invalid, those that asked for protection; the outcomes
  of the TPU client add up to the submissions; and everything received is accounted for as
  invalid, enqueued or dropped.
\<close>

theorem ingress_statistics_exact:
  "let w' = fold (ingress_step d wd ts) es w in
     map (\<lambda>k. counter k w') ingress_keys =
       map (\<lambda>k. counter k w + of_nat (sum_list (map (\<lambda>e. event_count d wd e k) es)))
         ingress_keys \<and>
     counter TpuEnqueued w' + counter TpuDropped w' =
       counter TpuEnqueued w + counter TpuDropped w + of_nat (length (submissions d wd es)) \<and>
     accounted w w'"
proof -
  have frame: "outcome_count ts sub w k = 0" if "k \<noteq> TpuEnqueued" "k \<noteq> TpuDropped"
    for sub k and w :: "('a, 'b) sender_world_scheme"
    using that by (auto simp: outcome_count_def only_def split: option.splits)
  have "counter k (fold (ingress_step d wd ts) es w) =
      counter k w + of_nat (sum_list (map (\<lambda>e. event_count d wd e k) es))"
    if "k \<noteq> TpuEnqueued" "k \<noteq> TpuDropped" for k
    using that by (induction es arbitrary: w) (simp_all add: ingress_step_counter frame)
  moreover have "counter TpuEnqueued (fold (ingress_step d wd ts) es w) +
      counter TpuDropped (fold (ingress_step d wd ts) es w) =
      counter TpuEnqueued w + counter TpuDropped w + of_nat (length (submissions d wd es))"
  proof (induction es arbitrary: w)
    case (Cons e es)
    have "counter TpuEnqueued (ingress_step d wd ts e w) + counter TpuDropped (ingress_step d wd ts e w) =
        counter TpuEnqueued w + counter TpuDropped w + of_bool (submission d wd e \<noteq> None)"
      by (auto simp: ingress_step_counter event_count_def outcome_count_def only_def
          split: option.splits)
    with Cons show ?case
      by (auto simp: submissions_def List.map_filter_simps split: option.splits)
  qed (simp add: submissions_def List.map_filter_simps)
  moreover have "accounted w (fold (ingress_step d wd ts) es w)"
    by (rule ingress.inv_run) (simp add: accounted_def)
  ultimately show ?thesis by (simp add: Let_def ingress_keys_def)
qed

text \<open>
  C11: the channel of the TPU client is offered, in order, exactly the encoded transactions of
  the well-formed submissions of both front ends, each with the protection asked for, and the
  empty messages of the flush task; nothing else reaches it, and no invalid request does.
\<close>

theorem channel_sees_exactly_submissions:
  "chan (fold (ingress_step d wd ts) es w) =
     fold (\<lambda>m c. snd (ts m c)) (List.map_filter (offered d wd) es) (chan w)"
  by (induction es arbitrary: w)
     (simp_all add: List.map_filter_simps ingress_step_chan split: option.split)

section \<open>Sample instances\<close>

text \<open>A bounded channel, a packet format in which only the packet 7 is protected, and a parser.\<close>

definition sample_send :: "(bytes list) try_send" where
  "sample_send m c = (if length c < 256 then (Inr (), c @ [m]) else (Inl (TrySendError Full), c))"

fun sample_recv :: "bytes list \<Rightarrow> (bytes \<times> bytes list) option" where
  "sample_recv [] = None"
| "sample_recv (m # c) = Some (m, c)"

definition sample_packet :: "bytes \<Rightarrow> string + transaction_packet" where
  "sample_packet data = Inr \<lparr>packet_wire_transaction = data, packet_mev_protect = (data = [7]),
                            packet_max_retry = None\<rparr>"

definition sample_rpc :: "(unit, bytes) rpc_deps" where
  "sample_rpc = \<lparr>rpc_codec = sample_codec, encoding_Base64 = (),
     into_binary_encoding = (\<lambda>_. Some Base64), encoding_to_string = (\<lambda>_. ''base64''),
     tx_signatures = (\<lambda>tx. Inr [take 64 tx]), signature_to_string = (\<lambda>_. [])\<rparr>"

definition empty_world :: "bytes list sender_world" where
  "empty_world = globals.extend globals_init \<lparr>chan = []\<rparr>"

end
