(* ===== verification/Interleaving.thy ===== *)
theory Interleaving
  imports Ingress
begin

text \<open>
  The handlers of the front ends taken apart. They run as tasks on several threads, and what
  one task does between two of its atomic operations (a \<open>fetch_add\<close> on a statistic, a call
  of the metrics recorder, a \<open>try_send\<close> on the channel) is invisible to the others. A handler
  is the list of its atomic actions, the tasks move one action at a time in any order, and new
  tasks arrive at any time. The sequential handlers are what a task does when it runs alone.
\<close>

section \<open>Atomic actions\<close>

text \<open>The two calls of \<open>try_send\<close>: the one of \<open>send_transaction\<close>, and the one of the flush task.\<close>

datatype atomic_action =
    EmitMetric metric
  | AddStat stat_key u64
  | TrySendPayload bytes
  | TrySendSilent bytes

fun add_stat :: "stat_key \<Rightarrow> u64 \<Rightarrow> 'z statics_scheme \<Rightarrow> 'z statics_scheme" where
  "add_stat QuicReceived n s = s\<lparr>QUIC_RECEIVED := QUIC_RECEIVED s + n\<rparr>"
| "add_stat QuicInvalid n s = s\<lparr>QUIC_INVALID := QUIC_INVALID s + n\<rparr>"
| "add_stat JsonReceived n s = s\<lparr>JSON_RPC_RECEIVED := JSON_RPC_RECEIVED s + n\<rparr>"
| "add_stat JsonInvalid n s = s\<lparr>JSON_RPC_INVALID := JSON_RPC_INVALID s + n\<rparr>"
| "add_stat MevReceived n s = s\<lparr>MEV_PROTECTED_RECEIVED := MEV_PROTECTED_RECEIVED s + n\<rparr>"
| "add_stat TpuEnqueued n s = s\<lparr>TPU_ENQUEUED := TPU_ENQUEUED s + n\<rparr>"
| "add_stat TpuDropped n s = s\<lparr>TPU_DROPPED := TPU_DROPPED s + n\<rparr>"
| "add_stat MevBuffered n s = s\<lparr>MEV_BUFFERED := MEV_BUFFERED s + n\<rparr>"
| "add_stat MevReleased n s = s\<lparr>MEV_RELEASED := MEV_RELEASED s + n\<rparr>"

definition send_err_metric :: "client_error \<Rightarrow> metric" where
  "send_err_metric e =
     CounterInc
       (case e of
          TrySendError Closed \<Rightarrow> ''iris_tx_try_send_error_channel_closed''
        | TrySendError Full \<Rightarrow> ''iris_tx_try_send_error_channel_full''
        | ConnectionWorkersSchedulerError \<Rightarrow> ''iris_connection_worker_scheduler_error''
        | FailedToUpdateIdentity \<Rightarrow> ''iris_tx_failed_to_update_identity''
        | JoinError \<Rightarrow> ''iris_tx_join_error''
        | SendError \<Rightarrow> ''iris_tx_send_error_channel_failed'') [] 1"

text \<open>An action changes the world and may leave further actions to the task.\<close>

fun exec_action ::
  "'c try_send \<Rightarrow> atomic_action \<Rightarrow> ('c, 'z) sender_world_scheme \<Rightarrow>
   atomic_action list \<times> ('c, 'z) sender_world_scheme" where
  "exec_action ts (EmitMetric m) w = ([], emit m w)"
| "exec_action ts (AddStat k n) w = ([], add_stat k n w)"
| "exec_action ts (TrySendPayload m) w =
     (let (res, c) = ts m (chan w)
      in (case res of
            Inl e \<Rightarrow> [AddStat TpuDropped 1, EmitMetric (send_err_metric e)]
          | Inr _ \<Rightarrow> [AddStat TpuEnqueued 1,
                      EmitMetric (CounterInc ''iris_tx_send_to_tpu_client_success'' [] 1)],
          w\<lparr>chan := c\<rparr>))"
| "exec_action ts (TrySendSilent m) w = ([], w\<lparr>chan := snd (ts m (chan w))\<rparr>)"

fun action_weight :: "atomic_action \<Rightarrow> nat" where
  "action_weight (TrySendPayload m) = 3"
| "action_weight _ = 1"

lemma exec_action_weight:
  "sum_list (map action_weight (fst (exec_action ts a w))) < action_weight a"
  by (cases "(ts, a, w)" rule: exec_action.cases)
     (auto simp: Let_def split: prod.splits sum.splits)

section \<open>Tasks\<close>

text \<open>A task that runs alone, to its end.\<close>

function run_task ::
  "'c try_send \<Rightarrow> atomic_action list \<Rightarrow> ('c, 'z) sender_world_scheme \<Rightarrow>
   ('c, 'z) sender_world_scheme" where
  "run_task ts [] w = w"
| "run_task ts (a # as) w =
     run_task ts (fst (exec_action ts a w) @ as) (snd (exec_action ts a w))"
  by pat_completeness auto
termination
proof (relation "measure (\<lambda>(ts, as, w). sum_list (map action_weight as))", goal_cases)
  case (2 ts a as w)
  then show ?case using exec_action_weight [of ts a w] by simp
qed simp

definition send_actions :: "tpu_client_payload \<Rightarrow> atomic_action list" where
  "send_actions p =
     [EmitMetric (CounterInc ''iris_tx_send_to_tpu_client_next'' [] 1),
      TrySendPayload (into_encoded p)]"

definition mev_actions :: "bool \<Rightarrow> atomic_action list" where
  "mev_actions b = (if b then [AddStat MevReceived 1] else [])"

text \<open>The handler of \<open>sendTransaction\<close>; what it computes in between is a function of the request.\<close>

definition json_actions ::
  "('enc, 'sig) rpc_deps \<Rightarrow> bytes \<Rightarrow> 'enc send_config option \<Rightarrow> bool option \<Rightarrow>
   atomic_action list" where
  "json_actions d txn params mev =
     [EmitMetric (CounterInc ''iris_txn_total_transactions'' [] 1), AddStat JsonReceived 1] @
     mev_actions (mev = Some True) @
     (case into_binary_encoding d (requested_encoding d params) of
        None \<Rightarrow>
          [AddStat JsonInvalid 1,
           EmitMetric (CounterInc ''iris_error'' [(''type'', ''invalid_encoding'')] 1)]
      | Some be \<Rightarrow>
          (case decode_transaction (rpc_codec d) txn be of
             Inl _ \<Rightarrow>
               [AddStat JsonInvalid 1,
                EmitMetric (CounterInc ''iris_error'' [(''type'', ''cannot_decode_transaction'')] 1)]
           | Inr wire \<Rightarrow>
               (case tx_signatures d wire of
                  Inl _ \<Rightarrow>
                    [AddStat JsonInvalid 1,
                     EmitMetric (CounterInc ''iris_error''
                       [(''type'', ''cannot_deserialize_transaction'')] 1)]
                | Inr [] \<Rightarrow> [AddStat JsonInvalid 1]
                | Inr (_ # _) \<Rightarrow> send_actions (TpuClientPayload_new wire (mev = Some True)))))"

definition quic_actions ::
  "(bytes \<Rightarrow> string + transaction_packet) \<Rightarrow> int \<Rightarrow> int \<Rightarrow> read_outcome \<Rightarrow> atomic_action list" where
  "quic_actions wd micros latency outcome =
     (case outcome of
        ReadErr e \<Rightarrow> [EmitMetric (CounterInc ''quic_stream_read_error'' [(''error'', e)] 1)]
      | ReadTimedOut \<Rightarrow> [EmitMetric (CounterInc ''quic_stream_timed_out'' [] 1)]
      | ReadOk data \<Rightarrow>
          [EmitMetric (HistogramRecord ''quic_packet_data_size'' [] (int (length data))),
           AddStat QuicReceived 1] @
          (case wd data of
             Inl _ \<Rightarrow>
               [AddStat QuicInvalid 1, EmitMetric (CounterInc ''quic_txn_decode_error'' [] 1)]
           | Inr p \<Rightarrow>
               [EmitMetric (HistogramRecord ''wincode_deserialize_micros'' [] micros)] @
               mev_actions (packet_mev_protect p) @ send_actions (packet_payload p) @
               [EmitMetric (CounterInc ''txn_quic_count'' [] 1),
                EmitMetric (HistogramRecord ''handle_uni_stream_latency'' [] latency)]))"

definition handler_actions ::
  "('enc, 'sig) rpc_deps \<Rightarrow> (bytes \<Rightarrow> string + transaction_packet) \<Rightarrow> 'enc ingress_event \<Rightarrow>
   atomic_action list" where
  "handler_actions d wd e =
     (case e of
        JsonRequest txn params mev \<Rightarrow> json_actions d txn params mev
      | QuicStream micros latency outcome \<Rightarrow> quic_actions wd micros latency outcome
      | FlushMessage \<Rightarrow> [TrySendSilent []])"

section \<open>A task alone is the handler\<close>

lemma run_task_append: "run_task ts (as @ bs) w = run_task ts bs (run_task ts as w)"
  by (induction ts as w rule: run_task.induct) simp_all

lemma record_is_add:
  "record_quic_received = add_stat QuicReceived 1" "record_quic_invalid = add_stat QuicInvalid 1"
  "record_json_rpc_invalid = add_stat JsonInvalid 1"
  "record_tpu_enqueued = add_stat TpuEnqueued 1" "record_tpu_dropped = add_stat TpuDropped 1"
  by (simp_all add: fun_eq_iff record_defs)

lemma record_send_err_is_emit: "record_send_err e w = emit (send_err_metric e) w"
  by (cases "(e, w)" rule: record_send_err.cases) (simp_all add: send_err_metric_def)

lemma run_send_actions: "run_task ts (send_actions p @ as) w = run_task ts as (send_transaction ts p w)"
  by (auto simp: send_actions_def send_transaction_def Let_def record_is_add record_send_err_is_emit
      split: prod.splits sum.splits)

lemma run_mev_actions [simp]:
  "run_task ts (mev_actions b @ as) w = run_task ts as (record_mev_protected b w)"
  by (simp add: mev_actions_def record_mev_protected_def)

lemma record_json_is_add:
  "record_json_rpc_received b w = record_mev_protected b (add_stat JsonReceived 1 w)"
  "record_quic_mev_protected b w = record_mev_protected b w"
  by (simp_all add: record_json_rpc_received_def record_quic_mev_protected_def)

lemma run_handler:
  "run_task ts (handler_actions d wd e) w = ingress_step d wd ts e w"
proof (cases e)
  case (JsonRequest txn params mev)
  have m: "(case mev of None \<Rightarrow> False | Some b \<Rightarrow> b) = (mev = Some True)" by (cases mev) auto
  note send = run_send_actions [where as = "[]", simplified]
  show ?thesis
    using JsonRequest
    by (simp add: handler_actions_def json_actions_def ingress_step_def rpc_send_transaction_def m
        requested_encoding_def Let_def record_is_add record_json_is_add send
        split: option.split sum.split list.split)
next
  case (QuicStream m l out)
  then show ?thesis
    by (simp add: handler_actions_def quic_actions_def ingress_step_def handle_uni_stream_def Let_def
        record_is_add record_json_is_add run_send_actions packet_payload_def
        split: read_outcome.split sum.split)
next
  case FlushMessage
  then show ?thesis by (simp add: handler_actions_def ingress_step_def flush_tick_def)
qed

section \<open>Many tasks\<close>

text \<open>
  A state is the events that have arrived so far, what is left of each of their tasks, and the
  shared world. A step starts the task of a new event, or lets one task do its next action.
\<close>

type_synonym ('enc, 'c) tasks_state =
  "'enc ingress_event list \<times> atomic_action list list \<times> 'c sender_world"

inductive task_move ::
  "'c try_send \<Rightarrow> atomic_action list list \<times> 'c sender_world \<Rightarrow>
   atomic_action list list \<times> 'c sender_world \<Rightarrow> bool"
  for ts where
  move: "i < length tk \<Longrightarrow> tk ! i = a # as \<Longrightarrow>
    task_move ts (tk, w) (tk[i := fst (exec_action ts a w) @ as], snd (exec_action ts a w))"

inductive task_step ::
  "('enc, 'sig) rpc_deps \<Rightarrow> (bytes \<Rightarrow> string + transaction_packet) \<Rightarrow> 'c try_send \<Rightarrow>
   ('enc, 'c) tasks_state \<Rightarrow> ('enc, 'c) tasks_state \<Rightarrow> bool"
  for d wd ts where
  arrive: "task_step d wd ts (es, tk, w) (es @ [e], tk @ [handler_actions d wd e], w)"
| run: "task_move ts (tk, w) (tk', w') \<Longrightarrow> task_step d wd ts (es, tk, w) (es, tk', w')"

inductive_cases task_moveE: "task_move ts (tk, w) (tk', w')"

abbreviation tasks_reach ::
  "('enc, 'sig) rpc_deps \<Rightarrow> (bytes \<Rightarrow> string + transaction_packet) \<Rightarrow> 'c try_send \<Rightarrow>
   'c sender_world \<Rightarrow> ('enc, 'c) tasks_state \<Rightarrow> bool" where
  "tasks_reach d wd ts w0 s \<equiv> (task_step d wd ts)\<^sup>*\<^sup>* ([], [], w0) s"

section \<open>What tasks owe\<close>

text \<open>
  A measure of the world to which every action adds a fixed gain, be it at once or through the
  actions it leaves to its task: then the measure together with what all tasks still owe does
  not move when a task does.
\<close>

definition owed :: "(atomic_action \<Rightarrow> u64) \<Rightarrow> atomic_action list list \<Rightarrow> u64" where
  "owed g tk = sum_list (map (\<lambda>as. sum_list (map g as)) tk)"

lemma owed_append [simp]: "owed g (tk @ tk') = owed g tk + owed g tk'"
  by (simp add: owed_def)

lemma owed_Nil [simp]: "owed g [] = 0" "owed g [as] = sum_list (map g as)"
  by (simp_all add: owed_def)

lemma sum_list_update:
  "i < length xs \<Longrightarrow> sum_list (xs[i := x]) + xs ! i = sum_list xs + (x :: u64)"
proof (induction xs arbitrary: i)
  case (Cons y ys)
  then show ?case by (cases i) (simp_all add: algebra_simps)
qed simp

locale task_measure =
  fixes rd :: "'w \<Rightarrow> u64"
    and exec :: "atomic_action \<Rightarrow> 'w \<Rightarrow> atomic_action list \<times> 'w"
    and g :: "atomic_action \<Rightarrow> u64"
  assumes conserved: "rd (snd (exec a w)) + sum_list (map g (fst (exec a w))) = rd w + g a"
begin

lemma move:
  assumes "i < length tk" "tk ! i = a # as"
  shows "rd (snd (exec a w)) + owed g (tk[i := fst (exec a w) @ as]) = rd w + owed g tk"
proof -
  let ?f = "\<lambda>as. sum_list (map g as)"
  have "sum_list ((map ?f tk)[i := ?f (fst (exec a w) @ as)]) + (g a + ?f as) =
      sum_list (map ?f tk) + (?f (fst (exec a w)) + ?f as)"
    using sum_list_update [of i "map ?f tk" "?f (fst (exec a w) @ as)"] assms by simp
  then have "owed g (tk[i := fst (exec a w) @ as]) + g a = owed g tk + ?f (fst (exec a w))"
    by (simp add: owed_def map_update algebra_simps)
  then have "(owed g (tk[i := fst (exec a w) @ as]) + g a) +
        (rd (snd (exec a w)) + ?f (fst (exec a w))) =
      (owed g tk + ?f (fst (exec a w))) + (rd w + g a)"
    using conserved [of a w] by simp
  then show ?thesis by (simp add: algebra_simps)
qed

end

text \<open>
  The statistics, with the two outcomes of the TPU client taken as one: which of them a
  \<open>try_send\<close> leads to depends on the channel, that it leads to one does not.
\<close>

definition is_outcome :: "stat_key \<Rightarrow> bool" where
  "is_outcome k \<longleftrightarrow> k = TpuEnqueued \<or> k = TpuDropped"

definition merged_counter :: "stat_key \<Rightarrow> 'z statics_scheme \<Rightarrow> u64" where
  "merged_counter k w =
     (if is_outcome k then counter TpuEnqueued w + counter TpuDropped w else counter k w)"

fun gain :: "stat_key \<Rightarrow> atomic_action \<Rightarrow> u64" where
  "gain k (AddStat k' n) = (if k' = k \<or> (is_outcome k \<and> is_outcome k') then n else 0)"
| "gain k (TrySendPayload m) = (if is_outcome k then 1 else 0)"
| "gain k _ = 0"

lemma counter_add_stat [simp]: "counter k (add_stat k' n s) = counter k s + only k' n k"
  by (cases k; cases k') (simp_all add: counter.simps only_def)

interpretation tasks: task_measure "merged_counter k" "exec_action ts" "gain k" for k ts
proof
  fix a and w :: "('a, 'b) sender_world_scheme"
  show "merged_counter k (snd (exec_action ts a w)) +
      sum_list (map (gain k) (fst (exec_action ts a w))) = merged_counter k w + gain k a"
    by (cases "(ts, a, w)" rule: exec_action.cases)
       (auto simp: merged_counter_def only_def is_outcome_def Let_def split: prod.splits sum.splits)
qed

definition merged_count ::
  "('enc, 'sig) rpc_deps \<Rightarrow> (bytes \<Rightarrow> string + transaction_packet) \<Rightarrow> stat_key \<Rightarrow>
   'enc ingress_event \<Rightarrow> nat" where
  "merged_count d wd k e =
     (if is_outcome k then of_bool (submission d wd e \<noteq> None) else event_count d wd e k)"

lemma gain_mev [simp]:
  "sum_list (map (gain k) (mev_actions b)) = of_bool (k = MevReceived \<and> b)"
  by (auto simp: mev_actions_def is_outcome_def)

lemma gain_send [simp]: "sum_list (map (gain k) (send_actions p)) = of_bool (is_outcome k)"
  by (simp add: send_actions_def)

lemma gain_handler:
  "sum_list (map (gain k) (handler_actions d wd e)) = of_nat (merged_count d wd k e)"
proof (cases e)
  case (JsonRequest txn params mev)
  then show ?thesis
    by (cases k) (auto simp: handler_actions_def json_actions_def merged_count_def event_count_def
        submission_def asks_protection_def is_outcome_def split: option.split sum.split list.split)
next
  case (QuicStream m l out)
  then show ?thesis
    by (cases k; cases out) (auto simp: handler_actions_def quic_actions_def merged_count_def
        event_count_def submission_def asks_protection_def is_outcome_def split: sum.split)
next
  case FlushMessage
  then show ?thesis
    by (cases k) (simp_all add: handler_actions_def merged_count_def event_count_def
        submission_def asks_protection_def is_outcome_def)
qed

lemma tasks_reach_owed:
  assumes "tasks_reach d wd ts w0 s"
  shows "case s of (es, tk, w) \<Rightarrow> merged_counter k w + owed (gain k) tk =
    merged_counter k w0 + of_nat (sum_list (map (merged_count d wd k) es))"
  using assms
proof (induction rule: rtranclp_induct)
  case (step s s')
  from step.hyps(2) show ?case
  proof cases
    case (arrive es tk w e)
    with step.IH show ?thesis by (simp add: gain_handler algebra_simps)
  next
    case (run tk w tk' w' es)
    from run(3) obtain i a as where m: "i < length tk" "tk ! i = a # as"
      "tk' = tk[i := fst (exec_action ts a w) @ as]" "w' = snd (exec_action ts a w)"
      by (rule task_moveE)
    with step.IH run(1,2) tasks.move [OF m(1,2), of k ts w] show ?thesis by simp
  qed
qed simp

section \<open>The phases of a task\<close>

text \<open>
  A task that counts a request as received goes on to exactly one conclusion: it counts it as
  invalid, or it hands it to the channel and counts the outcome. What is left of a task is
  therefore before both, between them, or past both.
\<close>

fun arrives :: "atomic_action \<Rightarrow> bool" where
  "arrives (AddStat k n) = (n = 1 \<and> (k = JsonReceived \<or> k = QuicReceived))"
| "arrives _ = False"

fun concludes :: "atomic_action \<Rightarrow> bool" where
  "concludes (AddStat k n) = (n = 1 \<and> (k = JsonInvalid \<or> k = QuicInvalid \<or> is_outcome k))"
| "concludes (TrySendPayload m) = True"
| "concludes _ = False"

fun quiet :: "atomic_action \<Rightarrow> bool" where
  "quiet (AddStat k n) = (k = MevReceived)"
| "quiet (TrySendPayload m) = False"
| "quiet _ = True"

fun between :: "atomic_action list \<Rightarrow> bool" where
  "between [] = False"
| "between (a # as) = (if concludes a then list_all quiet as else quiet a \<and> between as)"

fun before :: "atomic_action list \<Rightarrow> bool" where
  "before [] = False"
| "before (a # as) = (if arrives a then between as else quiet a \<and> before as)"

definition phased :: "atomic_action list \<Rightarrow> bool" where
  "phased as \<longleftrightarrow> before as \<or> between as \<or> list_all quiet as"

lemma between_quiet_append: "list_all quiet as \<Longrightarrow> between bs \<Longrightarrow> between (as @ bs)"
proof (induction as)
  case (Cons a as)
  then have "\<not> concludes a" by (cases a rule: quiet.cases) (auto simp: is_outcome_def)
  with Cons show ?case by simp
qed simp

lemma before_not_quiet: "before as \<Longrightarrow> \<not> list_all quiet as \<and> \<not> between as"
proof (induction as)
  case (Cons a as)
  then show ?case
    by (cases a rule: quiet.cases) (auto simp: is_outcome_def split: if_splits)
qed simp

lemma between_not_quiet: "between as \<Longrightarrow> \<not> list_all quiet as"
  by (induction as) (auto split: if_splits elim: quiet.elims concludes.elims simp: is_outcome_def)

lemma quiet_mev [simp]: "list_all quiet (mev_actions b)"
  by (simp add: mev_actions_def)

lemma between_send: "list_all quiet as \<Longrightarrow> between (send_actions p @ as)"
  by (simp add: send_actions_def)

lemma handler_phased: "phased (handler_actions d wd e)"
proof (cases e)
  case (JsonRequest txn params mev)
  let ?rest = "drop 2 (json_actions d txn params mev)"
  have "between ?rest"
    unfolding json_actions_def
    using between_send [of "[]"]
    by (auto intro!: between_quiet_append simp: is_outcome_def split: option.split sum.split list.split)
  then have "before (json_actions d txn params mev)"
    by (simp add: json_actions_def)
  with JsonRequest show ?thesis by (simp add: handler_actions_def phased_def)
next
  case (QuicStream m l out)
  show ?thesis
  proof (cases "\<exists>data. out = ReadOk data")
    case False
    with QuicStream show ?thesis
      by (cases out) (simp_all add: handler_actions_def quic_actions_def phased_def)
  next
    case True
    then obtain data where out: "out = ReadOk data" by blast
    have "before (quic_actions wd m l out)"
      by (auto simp: quic_actions_def out is_outcome_def split: sum.split
          intro!: between_quiet_append between_send)
    with QuicStream show ?thesis by (simp add: handler_actions_def phased_def)
  qed
next
  case FlushMessage
  then show ?thesis by (simp add: handler_actions_def phased_def)
qed

lemma quiet_exec: "quiet a \<Longrightarrow> fst (exec_action ts a w) = []"
  by (cases a rule: quiet.cases) simp_all

lemma phased_move:
  assumes "phased (a # as)"
  shows "phased (fst (exec_action ts a w) @ as)"
proof (cases "quiet a")
  case True
  with assms have "phased as"
    by (cases a rule: quiet.cases) (auto simp: phased_def is_outcome_def split: if_splits)
  with True show ?thesis by (simp add: quiet_exec)
next
  case False
  with assms consider "arrives a" "between as" | "concludes a" "list_all quiet as"
    by (auto simp: phased_def split: if_splits)
  then show ?thesis
  proof cases
    case 1
    then show ?thesis by (cases a rule: arrives.cases) (auto simp: phased_def)
  next
    case 2
    then show ?thesis
      by (cases a rule: concludes.cases)
         (auto simp: phased_def is_outcome_def Let_def split: prod.split sum.split)
  qed
qed

lemma tasks_phased:
  assumes "tasks_reach d wd ts w0 s"
  shows "case s of (es, tk, w) \<Rightarrow> list_all phased tk"
  using assms
proof (induction rule: rtranclp_induct)
  case (step s s')
  from step.hyps(2) show ?case
  proof cases
    case (arrive es tk w e)
    with step.IH show ?thesis by (simp add: handler_phased)
  next
    case (run tk w tk' w' es)
    from run(3) obtain i a as where m: "i < length tk" "tk ! i = a # as"
      "tk' = tk[i := fst (exec_action ts a w) @ as]"
      by (rule task_moveE)
    have all: "\<forall>as \<in> set tk. phased as" using step.IH run(1) by (simp add: list_all_iff)
    have "phased (a # as)" using all m(1,2) by (metis nth_mem)
    with all show ?thesis
      using set_update_subset_insert [of tk i "fst (exec_action ts a w) @ as"] phased_move [of a as ts w]
      by (auto simp: run(2) m(3) list_all_iff)
  qed
qed simp

lemma quiet_gain:
  assumes "list_all quiet as" "k \<noteq> MevReceived"
  shows "sum_list (map (gain k) as) = 0"
  using assms
proof (induction as)
  case (Cons a as)
  then show ?case by (cases a rule: quiet.cases) (auto simp: is_outcome_def)
qed simp

text \<open>What a phase owes to the two sides of the balance.\<close>

lemma between_gain:
  "between as \<Longrightarrow> sum_list (map (gain JsonReceived) as) = 0 \<and> sum_list (map (gain QuicReceived) as) = 0 \<and>
     sum_list (map (gain JsonInvalid) as) + sum_list (map (gain QuicInvalid) as) +
     sum_list (map (gain TpuEnqueued) as) = 1"
proof (induction as)
  case (Cons a as)
  show ?case
  proof (cases "concludes a")
    case True
    with Cons.prems show ?thesis
      by (cases a rule: concludes.cases) (auto simp: is_outcome_def quiet_gain)
  next
    case False
    with Cons show ?thesis by (cases a rule: quiet.cases) (auto simp: is_outcome_def)
  qed
qed simp

lemma before_gain:
  "before as \<Longrightarrow> sum_list (map (gain JsonReceived) as) + sum_list (map (gain QuicReceived) as) = 1 \<and>
     sum_list (map (gain JsonInvalid) as) + sum_list (map (gain QuicInvalid) as) +
     sum_list (map (gain TpuEnqueued) as) = 1"
proof (induction as)
  case (Cons a as)
  show ?case
  proof (cases "arrives a")
    case True
    with Cons.prems show ?thesis
      using between_gain [of as] by (cases a rule: arrives.cases) (auto simp: is_outcome_def)
  next
    case False
    with Cons show ?thesis by (cases a rule: quiet.cases) (auto simp: is_outcome_def)
  qed
qed simp

lemma phased_balance:
  "list_all phased tk \<Longrightarrow>
     owed (gain JsonInvalid) tk + owed (gain QuicInvalid) tk + owed (gain TpuEnqueued) tk =
     owed (gain JsonReceived) tk + owed (gain QuicReceived) tk + of_nat (length (filter between tk))"
proof (induction tk)
  case (Cons as tk)
  let ?s = "\<lambda>k. sum_list (map (gain k) as)"
  have "?s JsonInvalid + ?s QuicInvalid + ?s TpuEnqueued =
      ?s JsonReceived + ?s QuicReceived + of_bool (between as)"
  proof -
    from Cons.prems consider "before as" | "between as" | "list_all quiet as"
      by (auto simp: phased_def)
    then show ?thesis
    proof cases
      case 1
      with before_gain [OF 1] before_not_quiet [OF 1] show ?thesis by simp
    next
      case 2
      with between_gain [OF 2] show ?thesis by simp
    next
      case 3
      then have "\<not> between as" using between_not_quiet by blast
      with 3 show ?thesis by (simp add: quiet_gain)
    qed
  qed
  with Cons show ?case by (simp add: owed_def algebra_simps)
qed (simp add: owed_def)

section \<open>Draining\<close>

definition work :: "atomic_action list list \<Rightarrow> nat" where
  "work tk = sum_list (map (\<lambda>as. sum_list (map action_weight as)) tk)"

lemma work_update:
  fixes f :: "'a \<Rightarrow> nat"
  shows "i < length xs \<Longrightarrow> sum_list (map f (xs[i := x])) + f (xs ! i) = sum_list (map f xs) + f x"
proof (induction xs arbitrary: i)
  case (Cons y ys)
  then show ?case by (cases i) (simp_all add: algebra_simps)
qed simp

lemma task_move_work: "task_move ts (tk, w) (tk', w') \<Longrightarrow> work tk' < work tk"
proof (erule task_moveE)
  fix i a as
  assume m: "i < length tk" "tk ! i = a # as" "tk' = tk[i := fst (exec_action ts a w) @ as]"
  show "work tk' < work tk"
    using work_update [OF m(1), of "\<lambda>as. sum_list (map action_weight as)" "fst (exec_action ts a w) @ as"]
      exec_action_weight [of ts a w]
    by (simp add: work_def m(2,3))
qed

lemma task_moves_work: "(task_move ts ^^ n) (tk, w) (tk', w') \<Longrightarrow> n + work tk' \<le> work tk"
proof (induction n arbitrary: tk' w')
  case (Suc n)
  then obtain tk1 w1 where "(task_move ts ^^ n) (tk, w) (tk1, w1)" "task_move ts (tk1, w1) (tk', w')"
    by (auto elim!: relpowp_Suc_E)
  with Suc.IH [of tk1 w1] task_move_work [of ts tk1 w1 tk' w'] show ?case by simp
qed simp

text \<open>The tasks are stuck only when all have ended.\<close>

lemma task_move_progress:
  "(\<exists>s. task_move ts (tk, w) s) \<longleftrightarrow> (\<exists>as \<in> set tk. as \<noteq> [])"
proof
  assume "\<exists>as \<in> set tk. as \<noteq> []"
  then obtain i a as where "i < length tk" "tk ! i = a # as"
    by (auto simp: in_set_conv_nth neq_Nil_conv)
  then show "\<exists>s. task_move ts (tk, w) s" by (blast intro: task_move.move)
next
  assume "\<exists>s. task_move ts (tk, w) s"
  then obtain tk' w' where "task_move ts (tk, w) (tk', w')" by force
  then show "\<exists>as \<in> set tk. as \<noteq> []"
    by (rule task_moveE) (metis list.distinct(1) nth_mem)
qed

lemma tasks_drain_exists:
  "\<exists>tk' w'. (task_move ts)\<^sup>*\<^sup>* (tk, w) (tk', w') \<and> (\<forall>as \<in> set tk'. as = [])"
proof (induction "work tk" arbitrary: tk w rule: less_induct)
  case less
  show ?case
  proof (cases "\<exists>as \<in> set tk. as \<noteq> []")
    case True
    then obtain tk1 w1 where m: "task_move ts (tk, w) (tk1, w1)"
      using task_move_progress [of ts tk w] by force
    from less [OF task_move_work [OF m], of w1] m show ?thesis
      by (meson converse_rtranclp_into_rtranclp)
  qed blast
qed

lemma task_moves_steps:
  "(task_move ts)\<^sup>*\<^sup>* (tk, w) (tk', w') \<Longrightarrow>
     (task_step d wd ts)\<^sup>*\<^sup>* (es, tk, w) (es, tk', w')"
proof (induction rule: rtranclp_induct2)
  case (step tk1 w1 tk2 w2)
  then show ?case by (meson rtranclp.rtrancl_into_rtrancl task_step.run)
qed simp

section \<open>Properties\<close>

lemma balance_minus_owed:
  fixes a b c d e f oa ob oc od oe :: u64
  assumes "a + b = c + d + e" "oc + od + oe = oa + ob + f"
  shows "(a - oa) + (b - ob) = (c - oc) + (d - od) + (e - oe) + f"
proof -
  have "(a - oa) + (b - ob) = (a + b) - (oa + ob)" by simp
  also have "\<dots> = (c + d + e) - (oc + od + oe) + f" by (simp add: assms)
  also have "\<dots> = (c - oc) + (d - od) + (e - oe) + f" by simp
  finally show ?thesis .
qed

text \<open>
  C10: at every moment, however the tasks interleave, the statistics are off by exactly the
  requests in flight: the requests received exceed those concluded (invalid, enqueued or
  dropped), each relative to the start, by the number of tasks that have counted their
  request as received and not yet concluded it.
\<close>

theorem statistics_off_by_requests_in_flight:
  assumes "tasks_reach d wd ts w0 (es, tk, w)"
  shows "let moved = \<lambda>k. counter k w - counter k w0
    in moved JsonReceived + moved QuicReceived =
       moved JsonInvalid + moved QuicInvalid + moved TpuEnqueued + moved TpuDropped +
       of_nat (length (filter between tk))"
proof -
  let ?n = "\<lambda>k. of_nat (sum_list (map (merged_count d wd k) es)) :: u64"
  have owe: "merged_counter k w + owed (gain k) tk = merged_counter k w0 + ?n k" for k
    using tasks_reach_owed [OF assms, of k] by simp
  have "sum_list (map (merged_count d wd JsonReceived) es) + sum_list (map (merged_count d wd QuicReceived) es) =
      sum_list (map (merged_count d wd JsonInvalid) es) + sum_list (map (merged_count d wd QuicInvalid) es) +
      sum_list (map (merged_count d wd TpuEnqueued) es)"
  proof (induction es)
    case (Cons e es)
    then show ?case
      using received_is_invalid_or_submitted [of d wd e]
      by (simp add: merged_count_def is_outcome_def)
  qed simp
  from arg_cong [OF this, of "of_nat :: nat \<Rightarrow> u64"]
  have n: "?n JsonReceived + ?n QuicReceived = ?n JsonInvalid + ?n QuicInvalid + ?n TpuEnqueued" by simp
  have tk: "list_all phased tk" using tasks_phased [OF assms] by simp
  have c: "counter k w - counter k w0 = ?n k - owed (gain k) tk" if "\<not> is_outcome k" for k
    using owe [of k] that by (simp add: merged_counter_def algebra_simps)
  have o: "counter TpuEnqueued w - counter TpuEnqueued w0 + (counter TpuDropped w - counter TpuDropped w0) =
      ?n TpuEnqueued - owed (gain TpuEnqueued) tk"
    using owe [of TpuEnqueued] by (simp add: merged_counter_def is_outcome_def algebra_simps)
  from balance_minus_owed [OF n phased_balance [OF tk], folded o] show ?thesis
    by (simp add: Let_def c is_outcome_def algebra_simps)
qed

lemma one_request_in_flight:
  "tasks_reach sample_rpc sample_packet sample_send empty_world
     ([QuicStream 1 1 (ReadOk [7])],
      [drop 2 (handler_actions sample_rpc sample_packet (QuicStream 1 1 (ReadOk [7])))],
      add_stat QuicReceived 1
        (emit (HistogramRecord ''quic_packet_data_size'' [] 1) empty_world))"
proof -
  let ?e = "QuicStream 1 1 (ReadOk [7]) :: unit ingress_event"
  let ?as = "handler_actions sample_rpc sample_packet ?e"
  let ?m = "HistogramRecord ''quic_packet_data_size'' [] 1"
  have as: "?as = EmitMetric ?m # AddStat QuicReceived 1 # drop 2 ?as"
    by (simp add: handler_actions_def quic_actions_def)
  have "task_step sample_rpc sample_packet sample_send ([], [], empty_world) ([?e], [?as], empty_world)"
    using task_step.arrive [of sample_rpc sample_packet sample_send "[]" "[]" empty_world ?e] by simp
  moreover have "task_move sample_send ([?as], empty_world)
      ([AddStat QuicReceived 1 # drop 2 ?as], emit ?m empty_world)"
    using task_move.move [of 0 "[?as]" "EmitMetric ?m" "AddStat QuicReceived 1 # drop 2 ?as"
      sample_send empty_world] as by simp
  moreover have "task_move sample_send ([AddStat QuicReceived 1 # drop 2 ?as], emit ?m empty_world)
      ([drop 2 ?as], add_stat QuicReceived 1 (emit ?m empty_world))"
    using task_move.move [of 0 "[AddStat QuicReceived 1 # drop 2 ?as]" "AddStat QuicReceived 1"
      "drop 2 ?as" sample_send "emit ?m empty_world"] by simp
  ultimately show ?thesis
    by (meson r_into_rtranclp rtranclp.rtrancl_into_rtrancl task_step.run)
qed

theorem statistics_off_by_requests_in_flight_witness:
  "let w = add_stat QuicReceived 1 (emit (HistogramRecord ''quic_packet_data_size'' [] 1) empty_world)
   in counter QuicReceived w - counter QuicReceived empty_world = 1 \<and>
      length (filter between
        [drop 2 (handler_actions sample_rpc sample_packet (QuicStream 1 1 (ReadOk [7])))]) = 1"
proof -
  have "between (drop 2 (handler_actions sample_rpc sample_packet
      (QuicStream 1 1 (ReadOk [7]) :: unit ingress_event)))"
    by (simp add: handler_actions_def quic_actions_def sample_packet_def mev_actions_def
        send_actions_def is_outcome_def)
  with statistics_off_by_requests_in_flight [OF one_request_in_flight] show ?thesis
    by (simp add: only_def Let_def del: add_stat.simps)
qed

end
