(* ===== verification/Broadcaster.thy ===== *)
theory Broadcaster
  imports Tpu_Sender
begin

text \<open>
  \<open>src/broadcaster.rs\<close>: the broadcaster the TPU client calls with each message of its channel
  and the addresses of the current leader window. It holds back MEV-protected transactions
  while an address of the window belongs to a blocked leader, and releases them, oldest first,
  in front of the next message that finds the window clear. The cache of connection workers
  belongs to the crate \<open>solana_tpu_client_next\<close>: its state has the type \<open>'w\<close>, its workers the
  type \<open>'k\<close>, and its two operations are the parameter \<open>api\<close>, of which nothing is assumed.
\<close>

section \<open>State\<close>

text \<open>
  \<open>blocked_leaders\<close> is the set behind the \<open>ArcSwap\<close>, \<open>buffered_transactions\<close> the vector behind
  the mutex, which a panic of its holder would poison, and \<open>refresh_alive\<close> says that the thread
  that refreshes the set is still in its loop.
\<close>

record 'c broadcaster = "'c sender_world" +
  blocked_leaders :: "socket_addr set"
  buffered_transactions :: "bytes list"
  buffer_poisoned :: bool
  refresh_alive :: bool

definition has_blocked_send_target :: "socket_addr list \<Rightarrow> socket_addr set \<Rightarrow> bool" where
  "has_blocked_send_target leaders blocked = list_ex (\<lambda>leader. leader \<in> blocked) leaders"

text \<open>\<open>run\<close> starts with no blocked leader, an empty buffer and the refresh thread in its loop.\<close>

definition MevProtectedBroadcaster_run :: "'c sender_world \<Rightarrow> 'c broadcaster" where
  "MevProtectedBroadcaster_run w = sender_world.extend w
     \<lparr>blocked_leaders = {}, buffered_transactions = [], buffer_poisoned = False,
      refresh_alive = True\<rparr>"

lemma run_start [simp]:
  "blocked_leaders (MevProtectedBroadcaster_run w) = {}"
  "buffered_transactions (MevProtectedBroadcaster_run w) = []"
  "\<not> buffer_poisoned (MevProtectedBroadcaster_run w)"
  "refresh_alive (MevProtectedBroadcaster_run w)"
  "counter k (MevProtectedBroadcaster_run w) = counter k w"
  "chan (MevProtectedBroadcaster_run w) = chan w"
  by (cases k; simp add: MevProtectedBroadcaster_run_def sender_world.defs counter.simps)+

section \<open>Preparing a message\<close>

text \<open>\<open>None\<close> as first component is a panic; a panic while the lock is held poisons it.\<close>

definition prepare_transactions ::
  "bytes \<Rightarrow> bool \<Rightarrow> ('c, 'z) broadcaster_scheme \<Rightarrow>
   bytes list option \<times> ('c, 'z) broadcaster_scheme" where
  "prepare_transactions enc is_blocked_leader_slot b =
     (if buffer_poisoned b then (None, b)
      else case
        (case TpuClientPayload_decode enc of
           None \<Rightarrow> Some (buffered_transactions b, [], 0)
         | Some payload \<Rightarrow>
             (case wire_transaction payload of
                None \<Rightarrow> None
              | Some w \<Rightarrow>
                  if is_blocked_leader_slot \<and> is_mev_protected payload
                  then Some (buffered_transactions b @ [w], [], 1)
                  else Some (buffered_transactions b, [w], 0))) of
        None \<Rightarrow> (None, b\<lparr>buffer_poisoned := True\<rparr>)
      | Some (buffered, ready, newly_buffered) \<Rightarrow>
          let b1 = b\<lparr>buffered_transactions := buffered\<rparr>;
              b2 = (if (0::u64) < newly_buffered
                    then record_mev_buffered newly_buffered
                           (emit (CounterInc ''iris_mev_protected_buffered'' [] newly_buffered) b1)
                    else b1);
              (ready, b3) =
                (if \<not> is_blocked_leader_slot \<and> buffered \<noteq> []
                 then (buffered @ ready,
                       record_mev_released (of_nat (length buffered))
                         (emit (CounterInc ''iris_mev_protected_released'' []
                                  (of_nat (length buffered)))
                               (b2\<lparr>buffered_transactions := []\<rparr>)))
                 else (ready, b2));
              b4 = emit (GaugeSet ''iris_mev_protected_buffer_size''
                           (length (buffered_transactions b3))) b3
          in (Some ready, set_mev_buffer_size (of_nat (length (buffered_transactions b4))) b4))"

lemma broadcaster_frame [simp]:
  "blocked_leaders (emit m b) = blocked_leaders b"
  "buffered_transactions (emit m b) = buffered_transactions b"
  "buffer_poisoned (emit m b) = buffer_poisoned b"
  "refresh_alive (emit m b) = refresh_alive b"
  by (simp_all add: emit_def)

lemma broadcaster_record [simp]:
  "blocked_leaders (record_mev_buffered n b) = blocked_leaders b"
  "blocked_leaders (record_mev_released n b) = blocked_leaders b"
  "blocked_leaders (set_mev_buffer_size m b) = blocked_leaders b"
  "buffered_transactions (record_mev_buffered n b) = buffered_transactions b"
  "buffered_transactions (record_mev_released n b) = buffered_transactions b"
  "buffered_transactions (set_mev_buffer_size m b) = buffered_transactions b"
  "buffer_poisoned (record_mev_buffered n b) = buffer_poisoned b"
  "buffer_poisoned (record_mev_released n b) = buffer_poisoned b"
  "buffer_poisoned (set_mev_buffer_size m b) = buffer_poisoned b"
  "refresh_alive (record_mev_buffered n b) = refresh_alive b"
  "refresh_alive (record_mev_released n b) = refresh_alive b"
  "refresh_alive (set_mev_buffer_size m b) = refresh_alive b"
  "chan (record_mev_buffered n b) = chan b"
  "chan (record_mev_released n b) = chan b"
  "chan (set_mev_buffer_size m b) = chan b"
  "MEV_BUFFER_SIZE (set_mev_buffer_size m b) = m"
  by (simp_all add: record_defs)

lemma counter_broadcaster_updates [simp]:
  "counter k (b\<lparr>buffered_transactions := x\<rparr>) = counter k b"
  "counter k (b\<lparr>blocked_leaders := s\<rparr>) = counter k b"
  "counter k (b\<lparr>buffer_poisoned := p\<rparr>) = counter k b"
  "counter k (b\<lparr>refresh_alive := a\<rparr>) = counter k b"
  by (cases k; simp add: counter.simps)+

text \<open>
  What a call hands on and what it keeps, as a function of the decoded message: this is the
  abstract queue that the code implements with its mutex, its counters and its \<open>mem::take\<close>.
\<close>

fun queue_step ::
  "(bytes \<times> bool) option \<Rightarrow> bool \<Rightarrow> bytes list \<Rightarrow> bytes list \<times> bytes list" where
  "queue_step None blocked q = (if blocked then ([], q) else (q, []))"
| "queue_step (Some (w, protected)) blocked q =
     (if blocked then (if protected then ([], q @ [w]) else ([w], q)) else (q @ [w], []))"

lemma prepare_refines_queue:
  assumes "\<not> buffer_poisoned b"
  shows "fst (prepare_transactions enc blocked b) =
           Some (fst (queue_step (decode_payload enc) blocked (buffered_transactions b)))"
    and "buffered_transactions (snd (prepare_transactions enc blocked b)) =
           snd (queue_step (decode_payload enc) blocked (buffered_transactions b))"
  using assms
  by (cases enc rule: rev_cases;
      force simp: prepare_transactions_def Let_def)+

lemma prepare_frame:
  assumes "\<not> buffer_poisoned b"
  shows "\<not> buffer_poisoned (snd (prepare_transactions enc blocked b))"
    and "blocked_leaders (snd (prepare_transactions enc blocked b)) = blocked_leaders b"
    and "refresh_alive (snd (prepare_transactions enc blocked b)) = refresh_alive b"
    and "chan (snd (prepare_transactions enc blocked b)) = chan b"
  using assms
  by (cases enc rule: rev_cases; auto simp: prepare_transactions_def Let_def)+

lemma prepare_counters:
  assumes "\<not> buffer_poisoned b"
    and "prepare_transactions enc blocked b = (r, b')"
  shows "counter k b' = counter k b
      + only MevBuffered (of_nat (if blocked then length (buffered_transactions b') -
                                    length (buffered_transactions b) else 0)) k
      + only MevReleased (of_nat (if blocked then 0 else length (buffered_transactions b))) k"
    and "MEV_BUFFER_SIZE b' = of_nat (length (buffered_transactions b'))"
  using assms
  by (cases enc rule: rev_cases;
      auto simp: prepare_transactions_def Let_def only_def split: if_splits prod.splits)+

section \<open>Sending to the workers\<close>

text \<open>The errors of the worker cache that the code tells apart; any other one is only logged.\<close>

datatype workers_cache_error = ShutdownError | ReceiverDropped | OtherWorkersCacheError

record ('w, 'k) workers_api =
  try_send_transaction_to_address ::
    "socket_addr \<Rightarrow> bytes \<Rightarrow> 'w \<Rightarrow> (workers_cache_error + unit) \<times> 'w"
  pop_worker :: "socket_addr \<Rightarrow> 'w \<Rightarrow> 'k option \<times> 'w"

text \<open>The calls the broadcaster makes, in order.\<close>

datatype 'k worker_call = TrySend socket_addr bytes | PopWorker socket_addr | ShutdownWorker 'k

definition send_one ::
  "('w, 'k) workers_api \<Rightarrow> bytes \<Rightarrow> socket_addr \<Rightarrow> 'w \<Rightarrow> 'k worker_call list \<times> 'w" where
  "send_one api tx new_leader workers =
     (let (send_res, w1) = try_send_transaction_to_address api new_leader tx workers
      in case send_res of
           Inr _ \<Rightarrow> ([TrySend new_leader tx], w1)
         | Inl ShutdownError \<Rightarrow> ([TrySend new_leader tx], w1)
         | Inl ReceiverDropped \<Rightarrow>
             (let (popped, w2) = pop_worker api new_leader w1
              in case popped of
                   None \<Rightarrow> ([TrySend new_leader tx, PopWorker new_leader], w2)
                 | Some k \<Rightarrow>
                     ([TrySend new_leader tx, PopWorker new_leader, ShutdownWorker k], w2))
         | Inl OtherWorkersCacheError \<Rightarrow> ([TrySend new_leader tx], w1))"

fun send_to_leaders ::
  "('w, 'k) workers_api \<Rightarrow> bytes \<Rightarrow> socket_addr list \<Rightarrow> 'w \<Rightarrow> 'k worker_call list \<times> 'w" where
  "send_to_leaders api tx [] workers = ([], workers)"
| "send_to_leaders api tx (l # ls) workers =
     (let (c, w1) = send_one api tx l workers; (cs, w2) = send_to_leaders api tx ls w1
      in (c @ cs, w2))"

fun send_batch ::
  "('w, 'k) workers_api \<Rightarrow> socket_addr list \<Rightarrow> bytes list \<Rightarrow> 'w \<Rightarrow> 'k worker_call list \<times> 'w" where
  "send_batch api leaders [] workers = ([], workers)"
| "send_batch api leaders (tx # txs) workers =
     (let (c, w1) = send_to_leaders api tx leaders workers;
          (cs, w2) = send_batch api leaders txs w1
      in (c @ cs, w2))"

text \<open>
  The handler: the set of blocked leaders is loaded once, at the start. The result is the calls
  made, the cache, the broadcaster, and whether the call returned (it always returns \<open>Ok\<close>) or
  panicked.
\<close>

definition send_to_workers ::
  "('w, 'k) workers_api \<Rightarrow> socket_addr list \<Rightarrow> bytes \<Rightarrow> 'w \<Rightarrow> ('c, 'z) broadcaster_scheme \<Rightarrow>
   (unit, unit) rust_result \<times> 'k worker_call list \<times> 'w \<times> ('c, 'z) broadcaster_scheme" where
  "send_to_workers api leaders msg workers b =
     (let is_blocked_leader_slot = has_blocked_send_target leaders (blocked_leaders b);
          (transactions, b') = prepare_transactions msg is_blocked_leader_slot b
      in case transactions of
           None \<Rightarrow> (Panic, [], workers, b')
         | Some txs \<Rightarrow>
             if txs = [] then (Ok (), [], workers, b')
             else (let (calls, workers') = send_batch api leaders txs workers
                   in (Ok (), calls, workers', b')))"

text \<open>The transmissions among the calls.\<close>

fun sends_of :: "'k worker_call list \<Rightarrow> (socket_addr \<times> bytes) list" where
  "sends_of [] = []"
| "sends_of (TrySend a t # cs) = (a, t) # sends_of cs"
| "sends_of (_ # cs) = sends_of cs"

lemma sends_of_append [simp]: "sends_of (cs @ ds) = sends_of cs @ sends_of ds"
  by (induction cs rule: sends_of.induct) simp_all

lemma sends_of_send_one [simp]:
  "sends_of (fst (send_one api t a w)) = [(a, t)]"
  by (auto simp: send_one_def Let_def split: prod.splits sum.splits workers_cache_error.splits option.splits)

lemma sends_of_send_to_leaders [simp]:
  "sends_of (fst (send_to_leaders api t as w)) = map (\<lambda>a. (a, t)) as"
proof (induction as arbitrary: w)
  case (Cons a as)
  then show ?case
    using sends_of_send_one [of api t a w]
    by (auto simp: Let_def case_prod_unfold simp del: sends_of_send_one)
qed simp

text \<open>Every transaction of a batch is offered to every leader, in order, whatever the workers answer.\<close>

lemma sends_of_send_batch [simp]:
  "sends_of (fst (send_batch api as ts w)) = concat (map (\<lambda>t. map (\<lambda>a. (a, t)) as) ts)"
  by (induction ts arbitrary: w) (simp_all add: Let_def case_prod_unfold)

section \<open>Refreshing the blocked leaders\<close>

definition REFRESH_LIST_DURATION_secs :: nat where
  "REFRESH_LIST_DURATION_secs = 10 * 60"

definition FETCH_TIMEOUT_secs :: nat where
  "FETCH_TIMEOUT_secs = 10"

text \<open>
  What a round of the refresh thread finds: the cancellation, or a tick whose fetch ran into
  the time-out or completed. A fetch that panics ends the thread.
\<close>

datatype refresh_event =
    RefreshCancelled
  | RefreshTimeout
  | Refreshed "(string list, socket_addr list) rust_result"

definition refresh_step ::
  "refresh_event \<Rightarrow> ('c, 'z) broadcaster_scheme \<Rightarrow> ('c, 'z) broadcaster_scheme" where
  "refresh_step e b =
     (if \<not> refresh_alive b then b
      else case e of
        RefreshCancelled \<Rightarrow> b\<lparr>refresh_alive := False\<rparr>
      | RefreshTimeout \<Rightarrow> b
      | Refreshed (Ok ips) \<Rightarrow> b\<lparr>blocked_leaders := set ips\<rparr>
      | Refreshed (Err _) \<Rightarrow> b
      | Refreshed Panic \<Rightarrow> b\<lparr>refresh_alive := False\<rparr>)"

lemma refresh_frame [simp]:
  "buffered_transactions (refresh_step e b) = buffered_transactions b"
  "buffer_poisoned (refresh_step e b) = buffer_poisoned b"
  "counter k (refresh_step e b) = counter k b"
  "MEV_BUFFER_SIZE (refresh_step e b) = MEV_BUFFER_SIZE b"
  "chan (refresh_step e b) = chan b"
  by (auto simp: refresh_step_def split: refresh_event.splits rust_result.splits)

section \<open>Histories\<close>

text \<open>
  The broadcaster at work: messages arrive with a leader window, and the refresh thread moves
  in between. Each message leaves a record of what the handler saw and did.
\<close>

datatype broadcaster_event =
    Message "socket_addr list" bytes
  | Refresh refresh_event

record 'k send_record =
  sr_blocked :: "socket_addr set"
  sr_leaders :: "socket_addr list"
  sr_message :: bytes
  sr_result :: "(unit, unit) rust_result"
  sr_calls :: "'k worker_call list"

definition broadcaster_step ::
  "('w, 'k) workers_api \<Rightarrow> broadcaster_event \<Rightarrow>
   'k send_record list \<times> 'w \<times> ('c, 'z) broadcaster_scheme \<Rightarrow>
   'k send_record list \<times> 'w \<times> ('c, 'z) broadcaster_scheme" where
  "broadcaster_step api e s =
     (case s of (recs, w, b) \<Rightarrow>
        (case e of
           Message leaders msg \<Rightarrow>
             (let (res, calls, w', b') = send_to_workers api leaders msg w b
              in (recs @ [\<lparr>sr_blocked = blocked_leaders b, sr_leaders = leaders,
                           sr_message = msg, sr_result = res, sr_calls = calls\<rparr>], w', b'))
         | Refresh r \<Rightarrow> (recs, w, refresh_step r b)))"

definition broadcaster_run ::
  "('w, 'k) workers_api \<Rightarrow> broadcaster_event list \<Rightarrow> 'w \<Rightarrow> ('c, 'z) broadcaster_scheme \<Rightarrow>
   'k send_record list \<times> 'w \<times> ('c, 'z) broadcaster_scheme" where
  "broadcaster_run api es w b = fold (broadcaster_step api) es ([], w, b)"

section \<open>The abstract queue and its histories\<close>

text \<open>
  The specification of the broadcaster: a queue of protected transactions. Each input is a
  decoded message and whether its window is blocked; each output is a list of transactions,
  tagged with their protection. The tags exist in the specification only.
\<close>

type_synonym queue_input = "(bytes \<times> bool) option \<times> bool"

fun tagged_step :: "queue_input \<Rightarrow> bytes list \<Rightarrow> (bytes \<times> bool) list \<times> bytes list" where
  "tagged_step (None, blocked) q =
     (if blocked then ([], q) else (map (\<lambda>t. (t, True)) q, []))"
| "tagged_step (Some (w, protected), blocked) q =
     (if blocked then (if protected then ([], q @ [w]) else ([(w, False)], q))
      else (map (\<lambda>t. (t, True)) q @ [(w, protected)], []))"

fun tagged_run :: "queue_input list \<Rightarrow> bytes list \<Rightarrow> (bytes \<times> bool) list list \<times> bytes list" where
  "tagged_run [] q = ([], q)"
| "tagged_run (i # is) q =
     (let (out, q1) = tagged_step i q; (outs, q2) = tagged_run is q1 in (out # outs, q2))"

lemma queue_step_tagged:
  "queue_step m blocked q =
     (map fst (fst (tagged_step (m, blocked) q)), snd (tagged_step (m, blocked) q))"
  by (cases "(m, blocked, q)" rule: queue_step.cases) (simp_all add: comp_def)

lemma tagged_run_snoc:
  "tagged_run (is @ [i]) q =
     (let (outs, q1) = tagged_run is q; (out, q2) = tagged_step i q1 in (outs @ [out], q2))"
  by (induction "is" arbitrary: q) (simp_all add: Let_def case_prod_unfold)

lemma length_tagged_run [simp]: "length (fst (tagged_run is q)) = length is"
  by (induction "is" arbitrary: q) (simp_all add: Let_def case_prod_unfold)

text \<open>The wire transactions of the messages of one protection, in order of arrival.\<close>

definition arrivals :: "bool \<Rightarrow> queue_input list \<Rightarrow> bytes list" where
  "arrivals p is = map fst (filter (\<lambda>t. snd t = p) (List.map_filter fst is))"

definition departures :: "bool \<Rightarrow> (bytes \<times> bool) list list \<Rightarrow> bytes list" where
  "departures p outs = map fst (filter (\<lambda>t. snd t = p) (concat outs))"

lemma arrivals_simps [simp]:
  "arrivals p [] = []"
  "arrivals p ((None, bl) # is) = arrivals p is"
  "arrivals p ((Some (w, q), bl) # is) = (if q = p then w # arrivals p is else arrivals p is)"
  by (simp_all add: arrivals_def List.map_filter_simps)

lemma departures_simps [simp]:
  "departures p [] = []"
  "departures p (out # outs) = map fst (filter (\<lambda>t. snd t = p) out) @ departures p outs"
  by (simp_all add: departures_def)

lemma filter_tagged [simp]:
  "map fst (filter (\<lambda>t. snd t = p) (map (\<lambda>t. (t, b)) q)) = (if b = p then q else [])"
  by (induction q) auto

text \<open>First in, first out; nothing lost, nothing invented, nothing duplicated.\<close>

lemma tagged_run_fifo:
  "departures True (fst (tagged_run is q)) @ snd (tagged_run is q) = q @ arrivals True is \<and>
   departures False (fst (tagged_run is q)) = arrivals False is"
proof (induction "is" arbitrary: q)
  case (Cons i "is")
  obtain m bl where i: "i = (m, bl)" by force
  show ?case
    using Cons.IH unfolding i
    by (cases "((m, bl), q)" rule: tagged_step.cases)
       (auto simp: Let_def case_prod_unfold comp_def)
qed simp

text \<open>What a record of the handler amounts to at the level of the queue.\<close>

definition input_of :: "'k send_record \<Rightarrow> queue_input" where
  "input_of r = (decode_payload (sr_message r), has_blocked_send_target (sr_leaders r) (sr_blocked r))"

definition transmissions :: "socket_addr list \<Rightarrow> (bytes \<times> bool) list \<Rightarrow> (socket_addr \<times> bytes) list" where
  "transmissions leaders out = concat (map (\<lambda>t. map (\<lambda>a. (a, fst t)) leaders) out)"

lemma send_to_workers_queue:
  assumes "\<not> buffer_poisoned b"
    and "send_to_workers api leaders msg w b = (res, calls, w', b')"
  defines "i \<equiv> (decode_payload msg, has_blocked_send_target leaders (blocked_leaders b))"
  shows "res = Ok ()"
    and "sends_of calls = transmissions leaders (fst (tagged_step i (buffered_transactions b)))"
    and "buffered_transactions b' = snd (tagged_step i (buffered_transactions b))"
    and "b' = snd (prepare_transactions msg (snd i) b)"
proof -
  let ?out = "fst (tagged_step i (buffered_transactions b))"
  obtain b1 where p: "prepare_transactions msg (snd i) b = (Some (map fst ?out), b1)"
    and q: "buffered_transactions b1 = snd (tagged_step i (buffered_transactions b))"
    using prepare_refines_queue [OF assms(1), of msg "snd i"]
    by (simp add: prod_eq_iff queue_step_tagged i_def)
  have "sends_of calls = transmissions leaders ?out \<and> res = Ok () \<and> b' = b1"
    using assms(2) p sends_of_send_batch [of api leaders "map fst ?out" w]
    by (auto simp: send_to_workers_def Let_def i_def transmissions_def comp_def case_prod_unfold
        split: if_splits)
  with p q show "res = Ok ()"
    and "sends_of calls = transmissions leaders ?out"
    and "buffered_transactions b' = snd (tagged_step i (buffered_transactions b))"
    and "b' = snd (prepare_transactions msg (snd i) b)"
    by simp_all
qed

section \<open>The invariant of the broadcaster\<close>

text \<open>
  From a start state \<open>b0\<close>: the records so far are the abstract queue at work, no call has
  panicked, and the statistics agree with the buffer.
\<close>

definition stats_agree :: "('c, 'z) broadcaster_scheme \<Rightarrow> ('c, 'y) broadcaster_scheme \<Rightarrow> bool" where
  "stats_agree b0 b \<longleftrightarrow>
     counter MevBuffered b + counter MevReleased b0 + of_nat (length (buffered_transactions b0)) =
     counter MevBuffered b0 + counter MevReleased b + of_nat (length (buffered_transactions b))"

text \<open>
  The part of the invariant that does not concern the statistics: from a buffer \<open>q\<close>, the
  records are the abstract queue at work. It reads nothing of the state but the buffer.
\<close>

definition queue_inv ::
  "bytes list \<Rightarrow> 'k send_record list \<times> 'w \<times> ('c, 'z) broadcaster_scheme \<Rightarrow> bool" where
  "queue_inv q s \<longleftrightarrow>
     (case s of (recs, w, b) \<Rightarrow>
        \<not> buffer_poisoned b \<and>
        list_all (\<lambda>r. sr_result r = Ok ()) recs \<and>
        tagged_run (map input_of recs) q =
          (fst (tagged_run (map input_of recs) q), buffered_transactions b) \<and>
        map (\<lambda>r. sends_of (sr_calls r)) recs =
          map2 (\<lambda>r. transmissions (sr_leaders r)) recs (fst (tagged_run (map input_of recs) q)))"

lemma queue_inv_frame:
  "buffer_poisoned b' = buffer_poisoned b \<Longrightarrow> buffered_transactions b' = buffered_transactions b \<Longrightarrow>
     queue_inv q (recs, w, b) \<Longrightarrow> queue_inv q (recs, w, b')"
  by (simp add: queue_inv_def)

definition broadcaster_inv ::
  "('c, 'z) broadcaster_scheme \<Rightarrow> 'k send_record list \<times> 'w \<times> ('c, 'z) broadcaster_scheme \<Rightarrow> bool" where
  "broadcaster_inv b0 s \<longleftrightarrow>
     queue_inv (buffered_transactions b0) s \<and>
     (case s of (recs, w, b) \<Rightarrow>
        stats_agree b0 b \<and>
        (recs = [] \<or> MEV_BUFFER_SIZE b = of_nat (length (buffered_transactions b))) \<and>
        chan b = chan b0)"

lemma queue_inv_step:
  assumes "queue_inv q s"
  shows "queue_inv q (broadcaster_step api e s)"
proof -
  obtain recs w b where s: "s = (recs, w, b)" by (cases s)
  show ?thesis
  proof (cases e)
    case (Refresh r)
    with assms s show ?thesis by (simp add: broadcaster_step_def queue_inv_def)
  next
    case (Message leaders msg)
    obtain res calls w' b' where
      sw: "send_to_workers api leaders msg w b = (res, calls, w', b')" by (metis surj_pair)
    have np: "\<not> buffer_poisoned b" using assms s by (simp add: queue_inv_def)
    note q = send_to_workers_queue [OF np sw]
    have "\<not> buffer_poisoned b'"
      using prepare_frame(1) [OF np] q(4) by simp
    with assms q(1-3) show ?thesis
      by (simp add: s Message sw broadcaster_step_def queue_inv_def tagged_run_snoc Let_def
          case_prod_unfold input_of_def prod_eq_iff)
  qed
qed

lemma stats_agree_prepare:
  assumes "\<not> buffer_poisoned b" "stats_agree b0 b"
  shows "stats_agree b0 (snd (prepare_transactions msg blocked b))"
proof -
  obtain r b' where p: "prepare_transactions msg blocked b = (r, b')" by force
  have len: "length (buffered_transactions b') = (if blocked
      then length (buffered_transactions b) +
        (length (buffered_transactions b') - length (buffered_transactions b)) else 0)"
    using prepare_refines_queue(2) [OF assms(1), of msg blocked] p
    by (cases "(decode_payload msg, blocked, buffered_transactions b)" rule: queue_step.cases) auto
  have "of_nat (length (buffered_transactions b')) = (of_nat (if blocked
      then length (buffered_transactions b) +
        (length (buffered_transactions b') - length (buffered_transactions b)) else 0) :: u64)"
    using len by simp
  with assms(2) prepare_counters(1) [OF assms(1) p] show ?thesis
    by (simp add: p stats_agree_def only_def algebra_simps split: if_splits)
qed

lemma broadcaster_inv_step:
  assumes "broadcaster_inv b0 s"
  shows "broadcaster_inv b0 (broadcaster_step api e s)"
proof -
  obtain recs w b where s: "s = (recs, w, b)" by (cases s)
  have q: "queue_inv (buffered_transactions b0) (broadcaster_step api e s)"
    using assms by (simp add: broadcaster_inv_def queue_inv_step)
  show ?thesis
  proof (cases e)
    case (Refresh r)
    with assms q s show ?thesis
      by (simp add: broadcaster_step_def broadcaster_inv_def stats_agree_def)
  next
    case (Message leaders msg)
    obtain res calls w' b' where
      sw: "send_to_workers api leaders msg w b = (res, calls, w', b')" by (metis surj_pair)
    have np: "\<not> buffer_poisoned b" using assms s by (simp add: broadcaster_inv_def queue_inv_def)
    let ?bl = "has_blocked_send_target leaders (blocked_leaders b)"
    obtain r where p: "prepare_transactions msg ?bl b = (r, b')"
      using send_to_workers_queue(4) [OF np sw] by (simp add: prod_eq_iff)
    have b': "b' = snd (prepare_transactions msg ?bl b)" using p by simp
    have "stats_agree b0 b'"
      unfolding b' using assms s by (intro stats_agree_prepare [OF np]) (simp add: broadcaster_inv_def)
    moreover have "chan b' = chan b"
      unfolding b' by (rule prepare_frame [OF np])
    moreover have "MEV_BUFFER_SIZE b' = of_nat (length (buffered_transactions b'))"
      by (rule prepare_counters(2) [OF np p])
    ultimately show ?thesis using assms q
      by (simp add: s Message sw broadcaster_step_def broadcaster_inv_def Let_def)
  qed
qed

interpretation broadcasting: event_machine "broadcaster_step api" "broadcaster_inv b0" for api b0
  by unfold_locales (rule broadcaster_inv_step)

lemma broadcaster_run_inv:
  "broadcaster_inv (MevProtectedBroadcaster_run w0)
     (broadcaster_run api es w (MevProtectedBroadcaster_run w0))"
  unfolding broadcaster_run_def
  by (rule broadcasting.inv_run)
     (simp add: broadcaster_inv_def queue_inv_def stats_agree_def)

lemma sends_of_iff: "(a, t) \<in> set (sends_of cs) \<longleftrightarrow> TrySend a t \<in> set cs"
  by (induction cs rule: sends_of.induct) auto

lemma tagged_run_nth:
  "i < length is \<Longrightarrow> \<exists>q'. fst (tagged_run is q) ! i = fst (tagged_step (is ! i) q')"
  by (induction "is" arbitrary: q i)
     (auto simp: Let_def case_prod_unfold nth_Cons split: nat.splits)

lemma has_blocked_iff:
  "has_blocked_send_target leaders blocked \<longleftrightarrow> (\<exists>l \<in> set leaders. l \<in> blocked)"
  by (simp add: has_blocked_send_target_def list_ex_iff)

lemma tagged_step_blocked:
  "(t, p) \<in> set (fst (tagged_step (m, True) q)) \<Longrightarrow> m = Some (t, False)"
  by (cases "((m, True), q)" rule: tagged_step.cases) (auto split: if_splits)

lemma decode_payload_SomeD:
  assumes "decode_payload e = Some (w, b)"
  shows "\<exists>p. TpuClientPayload_decode e = Some p \<and> is_mev_protected p = b \<and> wire_transaction p = Some w"
  using assms by (auto simp: decode_payload_def split: option.splits)

lemma queue_inv_record:
  assumes "queue_inv q0 (recs, w, b)" and "r \<in> set recs"
  obtains q where "sends_of (sr_calls r) = transmissions (sr_leaders r) (fst (tagged_step (input_of r) q))"
proof -
  from assms(2) obtain i where i: "i < length recs" "r = recs ! i"
    by (auto simp: in_set_conv_nth)
  let ?outs = "fst (tagged_run (map input_of recs) q0)"
  have "map (\<lambda>r. sends_of (sr_calls r)) recs = map2 (\<lambda>r. transmissions (sr_leaders r)) recs ?outs"
    using assms(1) by (simp add: queue_inv_def)
  then have "sends_of (sr_calls r) = transmissions (sr_leaders r) (?outs ! i)"
    using i by (auto dest: arg_cong [where f = "\<lambda>xs. xs ! i"])
  with tagged_run_nth [of i "map input_of recs" q0] i that show thesis by auto
qed

lemma queue_inv_blocked:
  assumes "queue_inv q0 (recs, w, b)" and "r \<in> set recs"
    and "l \<in> set (sr_leaders r)" "l \<in> sr_blocked r"
    and "TrySend a t \<in> set (sr_calls r)"
  shows "\<exists>p. TpuClientPayload_decode (sr_message r) = Some p \<and>
    \<not> is_mev_protected p \<and> wire_transaction p = Some t"
proof -
  obtain q where q: "sends_of (sr_calls r) =
      transmissions (sr_leaders r) (fst (tagged_step (input_of r) q))"
    using queue_inv_record [OF assms(1,2)] by blast
  have "snd (input_of r)"
    using assms(3,4) by (auto simp: input_of_def has_blocked_iff)
  with assms(5) q obtain p where
    "(t, p) \<in> set (fst (tagged_step (decode_payload (sr_message r), True) q))"
    by (auto simp: transmissions_def input_of_def simp flip: sends_of_iff)
  then have "decode_payload (sr_message r) = Some (t, False)"
    by (rule tagged_step_blocked)
  then show ?thesis using decode_payload_SomeD by fastforce
qed

lemma broadcaster_run_queue_inv:
  "broadcaster_run api es w (MevProtectedBroadcaster_run w0) = s \<Longrightarrow> queue_inv [] s"
  using broadcaster_run_inv [of w0 api es w] by (auto simp: broadcaster_inv_def)

section \<open>Properties\<close>

text \<open>
  C1: MEV protection. In every history of the broadcaster, from its start, with any messages,
  any leader windows, any refreshes of the blocked set in between and any answers of the
  worker cache: a call that finds a blocked leader in its window transmits, to any address at
  all, only the wire transaction of its own message, and only if that message is not
  protected. A protected transaction, buffered or new, is never sent in such a call.
\<close>

theorem mev_protected_never_sent_to_blocked_window:
  assumes "broadcaster_run api es w (MevProtectedBroadcaster_run w0) = (recs, w', b')"
    and "r \<in> set recs"
    and "l \<in> set (sr_leaders r)" and "l \<in> sr_blocked r"
    and "TrySend a t \<in> set (sr_calls r)"
  shows "\<exists>p. TpuClientPayload_decode (sr_message r) = Some p \<and>
    \<not> is_mev_protected p \<and> wire_transaction p = Some t"
  by (rule queue_inv_blocked [OF broadcaster_run_queue_inv [OF assms(1)] assms(2-5)])

definition null_api :: "(unit, unit) workers_api" where
  "null_api = \<lparr>try_send_transaction_to_address = (\<lambda>_ _ _. (Inr (), ())),
               pop_worker = (\<lambda>_ _. (None, ()))\<rparr>"

definition world0 :: "unit sender_world" where
  "world0 = globals.extend globals_init \<lparr>chan = ()\<rparr>"

definition addr_n :: "u16 \<Rightarrow> socket_addr" where
  "addr_n n = SocketAddr (V4 127 0 0 1) n"

lemmas sample_defs = null_api_def world0_def addr_n_def globals_init_def statics_init_def
  globals.defs sender_world.defs statics.defs MevProtectedBroadcaster_run_def

lemmas broadcaster_eval =
  broadcaster_run_def broadcaster_step_def send_to_workers_def prepare_transactions_def
  refresh_step_def has_blocked_send_target_def send_one_def Let_def

theorem mev_protected_never_sent_to_blocked_window_witness:
  "\<exists>recs w' b' p. broadcaster_run null_api
      [Refresh (Refreshed (Ok [addr_n 2])), Message [addr_n 1, addr_n 2] [9, 0]] ()
      (MevProtectedBroadcaster_run world0) = (recs, w', b') \<and>
    TrySend (addr_n 1) [9] \<in> set (sr_calls (hd recs)) \<and>
    TpuClientPayload_decode (sr_message (hd recs)) = Some p \<and> \<not> is_mev_protected p"
proof -
  let ?run = "broadcaster_run null_api
      [Refresh (Refreshed (Ok [addr_n 2])), Message [addr_n 1, addr_n 2] [9, 0]] ()
      (MevProtectedBroadcaster_run world0)"
  obtain recs w' b' where run: "?run = (recs, w', b')" by (cases ?run)
  have d: "TpuClientPayload_decode [9, 0] = Some \<lparr>encoded = [9, 0]\<rparr>"
    "wire_transaction \<lparr>encoded = [9, 0]\<rparr> = Some [9]"
    "\<not> is_mev_protected \<lparr>encoded = [9, 0]\<rparr>"
    by (simp_all add: TpuClientPayload_decode_def wire_transaction_def is_mev_protected_def flag_defs)
  have r: "hd recs \<in> set recs" "addr_n 2 \<in> set (sr_leaders (hd recs))"
    "addr_n 2 \<in> sr_blocked (hd recs)" "TrySend (addr_n 1) [9] \<in> set (sr_calls (hd recs))"
    using run d by (auto simp: broadcaster_eval sample_defs)
  from mev_protected_never_sent_to_blocked_window [OF run r] r(4) run show ?thesis by blast
qed

text \<open>
  C2: the broadcaster implements a first-in first-out queue of protected transactions. Over
  any history from its start there are tagged outputs, one list per call, such that the calls
  transmit exactly these outputs, each transaction to every address of its window in order;
  the protected outputs followed by what is still buffered are the protected transactions in
  order of arrival (none lost, invented, duplicated or overtaken by another protected one);
  the unprotected outputs are all the unprotected transactions in order of arrival; and every
  call returned \<open>Ok\<close> without a panic.
\<close>

theorem broadcaster_implements_fifo:
  "case broadcaster_run api es w (MevProtectedBroadcaster_run w0) of (recs, w', b') \<Rightarrow>
     \<exists>outs. map (\<lambda>r. sends_of (sr_calls r)) recs =
              map2 (\<lambda>r. transmissions (sr_leaders r)) recs outs \<and>
       length outs = length recs \<and>
       departures True outs @ buffered_transactions b' = arrivals True (map input_of recs) \<and>
       departures False outs = arrivals False (map input_of recs) \<and>
       list_all (\<lambda>r. sr_result r = Ok ()) recs \<and> \<not> buffer_poisoned b'"
proof (cases "broadcaster_run api es w (MevProtectedBroadcaster_run w0)")
  case (fields recs w' b')
  have inv: "broadcaster_inv (MevProtectedBroadcaster_run w0) (recs, w', b')"
    using broadcaster_run_inv [of w0 api es w] fields by simp
  let ?run = "tagged_run (map input_of recs) []"
  have "snd ?run = buffered_transactions b'"
    using inv by (simp add: broadcaster_inv_def queue_inv_def prod_eq_iff)
  with inv tagged_run_fifo [of "map input_of recs" "[]"] show ?thesis
    unfolding fields prod.case by (intro exI [of _ "fst ?run"]) (simp add: broadcaster_inv_def queue_inv_def)
qed

text \<open>
  C12: the MEV statistics never drift from the buffer. After any history from the start, the
  transactions counted as buffered minus those counted as released (modulo the width of the
  counters, relative to the start) are the ones still in the buffer, and once a message has
  arrived the reported buffer size is its length.
\<close>

theorem mev_stats_agree_with_buffer:
  "case broadcaster_run api es w (MevProtectedBroadcaster_run w0) of (recs, w', b') \<Rightarrow>
     (counter MevBuffered b' - counter MevBuffered w0) -
     (counter MevReleased b' - counter MevReleased w0) =
       of_nat (length (buffered_transactions b')) \<and>
     (recs = [] \<or> MEV_BUFFER_SIZE b' = of_nat (length (buffered_transactions b')))"
proof (cases "broadcaster_run api es w (MevProtectedBroadcaster_run w0)")
  case (fields recs w' b')
  then show ?thesis
    using broadcaster_run_inv [of w0 api es w]
    by (simp add: broadcaster_inv_def queue_inv_def stats_agree_def algebra_simps)
qed

text \<open>
  C32: the periodic empty message is what releases a waiting buffer. With no blocked leader in
  the window, it sends every buffered transaction, oldest first, to every address of the
  window, leaves the buffer empty and counts the transactions as released; with a blocked
  leader in the window it makes no call, keeps the buffer as it is and counts nothing.
\<close>

theorem flush_releases_when_clear:
  assumes "\<not> buffer_poisoned b"
    and "send_to_workers api leaders [] w b = (res, calls, w', b')"
  shows "res = Ok () \<and>
    (if has_blocked_send_target leaders (blocked_leaders b)
     then calls = [] \<and> w' = w \<and> buffered_transactions b' = buffered_transactions b \<and>
          (\<forall>k. counter k b' = counter k b)
     else sends_of calls =
            concat (map (\<lambda>t. map (\<lambda>a. (a, t)) leaders) (buffered_transactions b)) \<and>
          buffered_transactions b' = [] \<and>
          (\<forall>k. counter k b' = counter k b +
             only MevReleased (of_nat (length (buffered_transactions b))) k))"
proof -
  note q = send_to_workers_queue [OF assms]
  let ?bl = "has_blocked_send_target leaders (blocked_leaders b)"
  have "calls = [] \<and> w' = w" if ?bl
    using assms that by (simp add: send_to_workers_def prepare_transactions_def Let_def)
  moreover have "counter k b' = counter k b
      + only MevBuffered (of_nat (if ?bl then length (buffered_transactions b') -
                                    length (buffered_transactions b) else 0)) k
      + only MevReleased (of_nat (if ?bl then 0 else length (buffered_transactions b))) k" for k
    using prepare_counters(1) [OF assms(1), of "[]" ?bl _ b' k] q(4) by (simp add: prod_eq_iff)
  ultimately show ?thesis
    using q(1-3) by (cases ?bl) (simp_all add: transmissions_def comp_def only_def)
qed

definition holding :: "bytes list \<Rightarrow> socket_addr set \<Rightarrow> unit broadcaster" where
  "holding q blocked = (MevProtectedBroadcaster_run world0)
     \<lparr>buffered_transactions := q, blocked_leaders := blocked\<rparr>"

lemma holding_simps [simp]:
  "\<not> buffer_poisoned (holding q bl)" "buffered_transactions (holding q bl) = q"
  "blocked_leaders (holding q bl) = bl"
  by (simp_all add: holding_def)

theorem flush_releases_when_clear_witness:
  "\<exists>res calls w' b'. send_to_workers null_api [addr_n 1] [] () (holding [[7], [8]] {addr_n 2}) =
     (res, calls, w', b') \<and> sends_of calls = [(addr_n 1, [7]), (addr_n 1, [8])] \<and>
     buffered_transactions b' = [] \<and> counter MevReleased b' = 2"
proof -
  let ?b = "holding [[7], [8]] {addr_n 2}"
  obtain res calls w' b' where
    s: "send_to_workers null_api [addr_n 1] [] () ?b = (res, calls, w', b')"
    by (cases "send_to_workers null_api [addr_n 1] [] () ?b")
  have "counter MevReleased ?b = 0"
    by (simp add: holding_def sample_defs counter.simps)
  with flush_releases_when_clear [OF _ s] s show ?thesis
    by (simp add: has_blocked_send_target_def addr_n_def only_def)
qed

text \<open>
  C31: an empty leader window counts as clear, so it loses the buffer: whatever is buffered is
  taken out, counted as released, and offered to no address at all.
\<close>

theorem empty_window_drops_buffer:
  assumes "\<not> buffer_poisoned b"
    and "send_to_workers api [] msg w b = (res, calls, w', b')"
  shows "calls = [] \<and> buffered_transactions b' = [] \<and>
    counter MevReleased b' = counter MevReleased b + of_nat (length (buffered_transactions b))"
proof -
  note q = send_to_workers_queue [OF assms]
  have b': "b' = snd (prepare_transactions msg False b)"
    using q(4) by (simp add: has_blocked_send_target_def)
  have calls: "snd (send_batch api [] ts w) = w \<and> fst (send_batch api [] ts w) = []" for ts w
    by (induction ts arbitrary: w) (simp_all add: Let_def case_prod_unfold)
  have "calls = []"
    using assms(2) calls
    by (auto simp: send_to_workers_def Let_def prod_eq_iff split: prod.splits option.splits if_splits)
  moreover have "buffered_transactions b' = []"
    unfolding b' prepare_refines_queue(2) [OF assms(1)]
    by (cases "(decode_payload msg, False, buffered_transactions b)" rule: queue_step.cases) simp_all
  ultimately show ?thesis
    using prepare_counters(1) [OF assms(1), of msg False _ b' MevReleased] b'
    by (simp add: prod_eq_iff)
qed

theorem empty_window_drops_buffer_witness:
  "\<exists>res calls w' b'. send_to_workers null_api [] [] () (holding [[7]] {}) = (res, calls, w', b') \<and>
     calls = [] \<and> buffered_transactions b' = [] \<and> counter MevReleased b' = 1"
proof -
  obtain res calls w' b' where
    s: "send_to_workers null_api [] [] () (holding [[7]] {}) = (res, calls, w', b')"
    by (cases "send_to_workers null_api [] [] () (holding [[7]] {})")
  have "counter MevReleased (holding [[7]] {}) = 0"
    by (simp add: holding_def sample_defs counter.simps)
  with empty_window_drops_buffer [OF _ s] s show ?thesis by simp
qed

definition stops_refresh :: "refresh_event \<Rightarrow> bool" where
  "stops_refresh e \<longleftrightarrow> e = RefreshCancelled \<or> e = Refreshed Panic"

fun fetched :: "refresh_event \<Rightarrow> socket_addr list option" where
  "fetched (Refreshed (Ok ips)) = Some ips"
| "fetched _ = None"

lemma refresh_dead: "\<not> refresh_alive b \<Longrightarrow> fold refresh_step es b = b"
  by (induction es) (simp_all add: refresh_step_def)

lemma refresh_step_live:
  "refresh_alive b \<Longrightarrow> \<not> stops_refresh e \<Longrightarrow>
     refresh_step e b = (case fetched e of None \<Rightarrow> b | Some ips \<Rightarrow> b\<lparr>blocked_leaders := set ips\<rparr>)"
  by (cases e rule: fetched.cases)
     (auto simp: refresh_step_def stops_refresh_def split: rust_result.splits)

lemma refresh_step_stop:
  "refresh_alive b \<Longrightarrow> stops_refresh e \<Longrightarrow> refresh_step e b = b\<lparr>refresh_alive := False\<rparr>"
  by (auto simp: refresh_step_def stops_refresh_def)

lemma refresh_run:
  "refresh_alive b \<Longrightarrow> blocked_leaders (fold refresh_step es b) =
     (case rev (List.map_filter fetched (takeWhile (\<lambda>e. \<not> stops_refresh e) es)) of
        [] \<Rightarrow> blocked_leaders b | ips # _ \<Rightarrow> set ips)"
proof (induction es arbitrary: b)
  case (Cons e es)
  show ?case
  proof (cases "stops_refresh e")
    case True
    with Cons.prems show ?thesis
      by (simp add: refresh_step_stop refresh_dead List.map_filter_simps)
  next
    case False
    let ?rest = "List.map_filter fetched (takeWhile (\<lambda>e. \<not> stops_refresh e) es)"
    have "refresh_alive (refresh_step e b)"
      using False Cons.prems by (simp add: refresh_step_live split: option.splits)
    then show ?thesis
      using Cons.IH [of "refresh_step e b"] False Cons.prems
      by (cases "rev ?rest") (auto simp: refresh_step_live List.map_filter_simps split: option.splits)
  qed
qed (simp add: List.map_filter_simps)

text \<open>
  C33: the blocked set is the last one that was fetched. Time-outs and failed fetches keep the
  previous set, a cancellation or a panic of a fetch freezes it for good, and before the
  first successful fetch it is empty.
\<close>

theorem refresh_keeps_last_fetched:
  "blocked_leaders (fold refresh_step es (MevProtectedBroadcaster_run w0)) =
     (case rev (List.map_filter fetched (takeWhile (\<lambda>e. \<not> stops_refresh e) es)) of
        [] \<Rightarrow> {} | ips # _ \<Rightarrow> set ips)"
  by (simp add: refresh_run split: list.split)

end
