(* ===== verification/Shield.thy ===== *)
theory Shield
  imports Iris_Prelude
begin

text \<open>
  \<open>src/shield.rs\<close>: reading a Yellowstone Shield policy account (two layouts) and turning the
  identities it lists into the TPU addresses to protect transactions from. The decoders that
  Borsh derives, the textual form of a public key and the answers of the RPC node are
  parameters; what the code relies on is stated as predicates on the decoders
  (\<open>borsh_policy\<close>, \<open>borsh_policy_v2\<close>, \<open>borsh_pubkey\<close>). An error is the chain of its messages,
  the outermost context first.
\<close>

section \<open>Data\<close>

datatype permission_strategy = Deny | Allow

definition PermissionStrategy_try_from :: "u8 \<Rightarrow> string + permission_strategy" where
  "PermissionStrategy_try_from v =
     (if v = 0 then Inr Deny else if v = 1 then Inr Allow else Inl ''Invalid permission strategy'')"

record policy =
  policy_kind :: u8
  policy_strategy :: u8
  policy_nonce :: u8
  policy_identities_len :: bytes

record 'pk policy_v2 =
  policy_v2_kind :: u8
  policy_v2_strategy :: u8
  policy_v2_nonce :: u8
  policy_v2_mint :: 'pk
  policy_v2_identities_len :: bytes

text \<open>The external functions, each on the bytes it is given: \<open>BorshDeserialize::deserialize\<close> of
  the two structs (which reads a prefix), \<open>Pubkey::try_from_slice(..).ok()\<close>, and
  \<open>Pubkey::to_string\<close>.\<close>

record 'pk shield_deps =
  policy_deserialize :: "bytes \<Rightarrow> string + policy"
  policy_v2_deserialize :: "bytes \<Rightarrow> string + 'pk policy_v2"
  pubkey_try_from_slice :: "bytes \<Rightarrow> 'pk option"
  pubkey_to_string :: "'pk \<Rightarrow> string"

definition Policy_LEN :: nat where
  "Policy_LEN = 7"

definition PolicyV2_LEN :: nat where
  "PolicyV2_LEN = 39"

section \<open>Reading a policy account\<close>

definition Policy_from_slice :: "'pk shield_deps \<Rightarrow> bytes \<Rightarrow> string + policy" where
  "Policy_from_slice d data = policy_deserialize d data"

definition Policy_try_strategy :: "policy \<Rightarrow> string + permission_strategy" where
  "Policy_try_strategy p = PermissionStrategy_try_from (policy_strategy p)"

text \<open>\<open>None\<close> is the panic of \<open>&data[LEN..]\<close> on data shorter than the header.\<close>

definition Policy_try_deserialize_identities :: "'pk shield_deps \<Rightarrow> bytes \<Rightarrow> 'pk list option" where
  "Policy_try_deserialize_identities d data =
     (if length data < Policy_LEN then None
      else let identities_data = drop Policy_LEN data
           in Some (List.map_filter (pubkey_try_from_slice d) (chunks_exact 32 identities_data)))"

definition PolicyV2_from_slice :: "'pk shield_deps \<Rightarrow> bytes \<Rightarrow> string + 'pk policy_v2" where
  "PolicyV2_from_slice d data = policy_v2_deserialize d data"

definition PolicyV2_try_strategy :: "'pk policy_v2 \<Rightarrow> string + permission_strategy" where
  "PolicyV2_try_strategy p = PermissionStrategy_try_from (policy_v2_strategy p)"

definition PolicyV2_try_deserialize_identities :: "'pk shield_deps \<Rightarrow> bytes \<Rightarrow> 'pk list option" where
  "PolicyV2_try_deserialize_identities d data =
     (if length data < PolicyV2_LEN then None
      else let identities_data = drop PolicyV2_LEN data
           in Some (List.map_filter (pubkey_try_from_slice d) (chunks_exact 32 identities_data)))"

text \<open>
  The match on the first byte: the strategy and the identities of the policy. The context of
  an error depends on the step that failed; the strategy of a V2 policy gets none.
\<close>

definition read_policy ::
  "'pk shield_deps \<Rightarrow> bytes \<Rightarrow> (string list, permission_strategy \<times> 'pk list) rust_result" where
  "read_policy d data =
     (case data of
        [] \<Rightarrow> Panic
      | tag # _ \<Rightarrow>
          if tag = 0 then
            (case Policy_from_slice d data of
               Inl e \<Rightarrow> Err [''cannot deserialize policy'', e]
             | Inr p \<Rightarrow>
                 (case Policy_try_strategy p of
                    Inl e \<Rightarrow> Err [''invalid permission strategy'', e]
                  | Inr strategy \<Rightarrow>
                      (case Policy_try_deserialize_identities d data of
                         None \<Rightarrow> Panic
                       | Some identities \<Rightarrow> Ok (strategy, identities))))
          else if tag = 1 then
            (case PolicyV2_from_slice d data of
               Inl e \<Rightarrow> Err [''cannot deserialize policy_v2'', e]
             | Inr p \<Rightarrow>
                 (case PolicyV2_try_strategy p of
                    Inl e \<Rightarrow> Err [e]
                  | Inr strategy \<Rightarrow>
                      (case PolicyV2_try_deserialize_identities d data of
                         None \<Rightarrow> Panic
                       | Some identities \<Rightarrow> Ok (strategy, identities))))
          else Err [''Unknown policy type''])"

definition get_blocked_identities ::
  "'pk shield_deps \<Rightarrow> 'pk \<Rightarrow> string list + bytes \<Rightarrow> (string list, string list) rust_result" where
  "get_blocked_identities d key account =
     (case account of
        Inl e \<Rightarrow> Err (''cannot fetch'' # e)
      | Inr data \<Rightarrow>
          rust_bind (read_policy d data)
            (\<lambda>(strategy, identities).
               if strategy = Allow
               then Err [''Shield policy for key '' @ pubkey_to_string d key @
                         '' is set to Allow, which is not supported'']
               else Ok (map (pubkey_to_string d) identities)))"

text \<open>The two fields the code reads of a cluster node.\<close>

record contact_info =
  node_pubkey :: string
  node_tpu_quic :: "socket_addr option"

definition get_blocked_ips ::
  "'pk shield_deps \<Rightarrow> 'pk \<Rightarrow> string list + contact_info list \<Rightarrow> string list + bytes \<Rightarrow>
   (string list, socket_addr list) rust_result" where
  "get_blocked_ips d key cluster_nodes account =
     (case cluster_nodes of
        Inl e \<Rightarrow> Err e
      | Inr nodes \<Rightarrow>
          rust_bind (get_blocked_identities d key account)
            (\<lambda>blocked_identities. Ok (List.map_filter
               (\<lambda>node. if node_pubkey node \<in> set blocked_identities
                       then node_tpu_quic node else None) nodes)))"

section \<open>The contract of the decoders\<close>

text \<open>
  Borsh writes the fields of a struct one after another: a \<open>u8\<close> as one byte, an array of bytes
  as its bytes, a \<open>Pubkey\<close> as its 32 bytes. Deserialisation reads the fields off the front and
  fails only when the data ends early.
\<close>

definition borsh_pubkey :: "'pk shield_deps \<Rightarrow> bool" where
  "borsh_pubkey d \<longleftrightarrow> (\<forall>c. length c = 32 \<longrightarrow> (\<exists>pk. pubkey_try_from_slice d c = Some pk))"

definition borsh_policy :: "'pk shield_deps \<Rightarrow> bool" where
  "borsh_policy d \<longleftrightarrow>
     (\<forall>data. length data < 7 \<longrightarrow> (\<exists>e. policy_deserialize d data = Inl e)) \<and>
     (\<forall>k s n l rest. length l = 4 \<longrightarrow>
        policy_deserialize d (k # s # n # l @ rest) =
          Inr \<lparr>policy_kind = k, policy_strategy = s, policy_nonce = n,
               policy_identities_len = l\<rparr>)"

definition borsh_policy_v2 :: "'pk shield_deps \<Rightarrow> bool" where
  "borsh_policy_v2 d \<longleftrightarrow>
     (\<forall>data. length data < 39 \<longrightarrow> (\<exists>e. policy_v2_deserialize d data = Inl e)) \<and>
     (\<forall>k s n m pk l rest. length m = 32 \<longrightarrow> pubkey_try_from_slice d m = Some pk \<longrightarrow> length l = 4 \<longrightarrow>
        policy_v2_deserialize d (k # s # n # m @ l @ rest) =
          Inr \<lparr>policy_v2_kind = k, policy_v2_strategy = s, policy_v2_nonce = n,
               policy_v2_mint = pk, policy_v2_identities_len = l\<rparr>)"

text \<open>The identity section of the two layouts is read the same way, from a different offset.\<close>

locale policy_layout =
  fixes header_len :: nat
    and read_id :: "bytes \<Rightarrow> 'pk option"
    and identities :: "bytes \<Rightarrow> 'pk list option"
  assumes short: "length data < header_len \<Longrightarrow> identities data = None"
    and sections: "length h = header_len \<Longrightarrow>
      identities (h @ body) = Some (List.map_filter read_id (chunks_exact 32 body))"
begin

lemma identities_of_account:
  assumes "length h = header_len" "\<forall>c \<in> set cs. length c = 32" "length rest < 32"
  shows "identities (h @ concat cs @ rest) = Some (List.map_filter read_id cs)"
  using sections [OF assms(1)] chunks_exact_concat [of 32 cs rest] assms(2,3) by simp

lemma header_irrelevant:
  "length h = header_len \<Longrightarrow> length h' = header_len \<Longrightarrow> identities (h @ b) = identities (h' @ b)"
  by (simp add: sections)

lemma identities_total: "identities data = None \<longleftrightarrow> length data < header_len"
proof
  assume none: "identities data = None"
  show "length data < header_len"
  proof (rule ccontr)
    assume "\<not> length data < header_len"
    then have "length (take header_len data) = header_len" by simp
    from sections [OF this, of "drop header_len data"] none show False by simp
  qed
qed (rule short)

end

interpretation v1: policy_layout Policy_LEN "pubkey_try_from_slice d"
    "Policy_try_deserialize_identities d" for d
  by unfold_locales (simp_all add: Policy_try_deserialize_identities_def)

interpretation v2: policy_layout PolicyV2_LEN "pubkey_try_from_slice d"
    "PolicyV2_try_deserialize_identities d" for d
  by unfold_locales (simp_all add: PolicyV2_try_deserialize_identities_def)

lemma split_header:
  assumes "3 + n \<le> length (data :: 'a list)"
  obtains a b c m rest where "data = a # b # c # m @ rest" "length m = n"
proof -
  have "Suc (Suc (Suc n)) \<le> length data" using assms by simp
  then obtain a b c body where "data = a # b # c # body" "n \<le> length body"
    by (auto simp: Suc_le_length_iff)
  then have "data = a # b # c # take n body @ drop n body" "length (take n body) = n"
    by simp_all
  with that show thesis by blast
qed

lemma policy_deserialize_cases:
  assumes "borsh_policy d"
  shows "case policy_deserialize d data of
      Inl _ \<Rightarrow> length data < 7
    | Inr p \<Rightarrow> 7 \<le> length data \<and> policy_strategy p = data ! 1"
proof (cases "length data < 7")
  case True
  then show ?thesis using assms by (fastforce simp: borsh_policy_def)
next
  case False
  then have "3 + 4 \<le> length data" by simp
  then obtain k s n l rest where "data = k # s # n # l @ rest" "length l = 4"
    by (rule split_header)
  then show ?thesis using assms by (simp add: borsh_policy_def)
qed

lemma policy_v2_deserialize_cases:
  assumes "borsh_policy_v2 d" "borsh_pubkey d"
  shows "case policy_v2_deserialize d data of
      Inl _ \<Rightarrow> length data < 39
    | Inr p \<Rightarrow> 39 \<le> length data \<and> policy_v2_strategy p = data ! 1"
proof (cases "length data < 39")
  case True
  then show ?thesis using assms by (fastforce simp: borsh_policy_v2_def)
next
  case False
  then have "3 + 36 \<le> length data" by simp
  then obtain k s n b rest where d: "data = k # s # n # b @ rest" "length b = 36"
    by (rule split_header)
  let ?m = "take 32 b" and ?l = "drop 32 b"
  have "data = k # s # n # ?m @ ?l @ rest" "length ?m = 32" "length ?l = 4"
    using d by simp_all
  moreover obtain pk where "pubkey_try_from_slice d ?m = Some pk"
    using assms(2) \<open>length ?m = 32\<close> unfolding borsh_pubkey_def by blast
  ultimately have "policy_v2_deserialize d data =
      Inr \<lparr>policy_v2_kind = k, policy_v2_strategy = s, policy_v2_nonce = n,
           policy_v2_mint = pk, policy_v2_identities_len = ?l\<rparr>"
    using assms(1) unfolding borsh_policy_v2_def by metis
  with d show ?thesis by simp
qed

section \<open>Properties\<close>

text \<open>The bytes of a policy account of either layout, as the contract writes them.\<close>

fun policy_account :: "bytes option \<Rightarrow> u8 \<Rightarrow> u8 \<Rightarrow> bytes \<Rightarrow> bytes list \<Rightarrow> bytes" where
  "policy_account None s n l ids = [0, s, n] @ l @ concat ids"
| "policy_account (Some mint) s n l ids = [1, s, n] @ mint @ l @ concat ids"

lemma deny_policy_identities:
  assumes "borsh_policy d" "borsh_policy_v2 d"
    and "\<forall>c \<in> set ids. pubkey_try_from_slice d c = Some (pk c) \<and> length c = 32"
    and "mint = None \<or> (\<exists>m mpk. mint = Some m \<and> length m = 32 \<and> pubkey_try_from_slice d m = Some mpk)"
    and "length l = 4" "length rest < 32"
  shows "get_blocked_identities d key (Inr (policy_account mint 0 n l ids @ rest)) =
    Ok (map (\<lambda>c. pubkey_to_string d (pk c)) ids)"
proof -
  have ids: "List.map_filter (pubkey_try_from_slice d) ids = map pk ids"
    using assms(3) by (induction ids) (simp_all add: List.map_filter_simps)
  have len: "\<forall>c \<in> set ids. length c = 32" using assms(3) by blast
  show ?thesis
  proof (cases mint)
    case None
    then have "Policy_try_deserialize_identities d (policy_account mint 0 n l ids @ rest) =
        Some (map pk ids)"
      using v1.identities_of_account [of "[0, 0, n] @ l" ids rest d] assms(5,6) len
      by (simp add: Policy_LEN_def ids)
    with None assms(1,5) show ?thesis
      by (simp add: get_blocked_identities_def read_policy_def Policy_from_slice_def borsh_policy_def
          Policy_try_strategy_def PermissionStrategy_try_from_def comp_def)
  next
    case (Some m)
    then obtain mpk where m: "length m = 32" "pubkey_try_from_slice d m = Some mpk"
      using assms(4) by auto
    with Some have "PolicyV2_try_deserialize_identities d (policy_account mint 0 n l ids @ rest) =
        Some (map pk ids)"
      using v2.identities_of_account [of "[1, 0, n] @ m @ l" ids rest d] assms(5,6) len
      by (simp add: PolicyV2_LEN_def ids)
    with Some m assms(2,5) show ?thesis
      by (simp add: get_blocked_identities_def read_policy_def PolicyV2_from_slice_def
          borsh_policy_v2_def PolicyV2_try_strategy_def PermissionStrategy_try_from_def comp_def)
  qed
qed

text \<open>
  C15: a policy account of either layout (the V2 one carries a mint) whose strategy is Deny
  yields exactly its identities, in order and as text, whatever the nonce and the stored
  number of identities say: the length field is never consulted, every full 32-byte chunk
  after the header counts, and a shorter tail is dropped.
\<close>

theorem deny_policy_yields_identities:
  assumes "borsh_policy d" "borsh_policy_v2 d"
    and "\<forall>c \<in> set ids. pubkey_try_from_slice d c = Some (pk c) \<and> length c = 32"
    and "mint = None \<or> (\<exists>m mpk. mint = Some m \<and> length m = 32 \<and> pubkey_try_from_slice d m = Some mpk)"
    and "length l = 4" "length rest < 32"
  shows "get_blocked_identities d key (Inr (policy_account mint 0 n l ids @ rest)) =
    Ok (map (\<lambda>c. pubkey_to_string d (pk c)) ids)"
  by (rule deny_policy_identities [OF assms])

text \<open>A concrete instance of the external functions, on keys that are their own bytes.\<close>

definition sample_deps :: "bytes shield_deps" where
  "sample_deps =
     \<lparr>policy_deserialize = (\<lambda>data.
        if length data < 7 then Inl ''unexpected end''
        else Inr \<lparr>policy_kind = data ! 0, policy_strategy = data ! 1, policy_nonce = data ! 2,
                  policy_identities_len = take 4 (drop 3 data)\<rparr>),
      policy_v2_deserialize = (\<lambda>data.
        if length data < 39 then Inl ''unexpected end''
        else Inr \<lparr>policy_v2_kind = data ! 0, policy_v2_strategy = data ! 1,
                  policy_v2_nonce = data ! 2, policy_v2_mint = take 32 (drop 3 data),
                  policy_v2_identities_len = take 4 (drop 35 data)\<rparr>),
      pubkey_try_from_slice = (\<lambda>c. if length c = 32 then Some c else None),
      pubkey_to_string = map (\<lambda>b. char_of (unat b))\<rparr>"

lemma sample_deps_laws:
  "borsh_policy sample_deps" "borsh_policy_v2 sample_deps" "borsh_pubkey sample_deps"
  by (auto simp: sample_deps_def borsh_policy_def borsh_policy_v2_def borsh_pubkey_def
      split: if_splits)

lemma sample_deps_simps [simp]:
  "pubkey_try_from_slice sample_deps c = (if length c = 32 then Some c else None)"
  "pubkey_to_string sample_deps c = map (\<lambda>b. char_of (unat b)) c"
  by (simp_all add: sample_deps_def)

theorem deny_policy_yields_identities_witness:
  "get_blocked_identities sample_deps []
     (Inr (policy_account (Some (replicate 32 5)) 0 9 [255, 255, 0, 0]
             [replicate 32 65, replicate 32 66] @ [1, 2, 3])) =
   Ok [replicate 32 (char_of (65::nat)), replicate 32 (char_of (66::nat))]"
proof -
  have "get_blocked_identities sample_deps []
     (Inr (policy_account (Some (replicate 32 5)) 0 9 [255, 255, 0, 0]
             [replicate 32 65, replicate 32 66] @ [1, 2, 3])) =
    Ok (map (\<lambda>c. pubkey_to_string sample_deps (id c)) [replicate 32 65, replicate 32 66])"
    by (rule deny_policy_yields_identities [OF sample_deps_laws(1,2)]) simp_all
  then show ?thesis by (simp add: map_replicate_const)
qed

lemma read_policy_not_Panic:
  assumes "borsh_policy d" "borsh_policy_v2 d" "borsh_pubkey d"
  shows "read_policy d data = Panic \<longleftrightarrow> data = []"
  using policy_deserialize_cases [OF assms(1), of data]
    policy_v2_deserialize_cases [OF assms(2,3), of data]
    v1.identities_total [of d data] v2.identities_total [of d data]
  by (auto simp: read_policy_def Policy_from_slice_def PolicyV2_from_slice_def Policy_LEN_def
      PolicyV2_LEN_def split: list.splits sum.splits option.splits if_splits)

text \<open>
  C16: under the contract of the decoders, reading the policy panics in exactly one case: the
  RPC node answers with an account whose data is empty (\<open>data[0]\<close> is out of range). On every
  other answer it returns \<open>Ok\<close> or an error; and it returns \<open>Ok\<close> only for layout 0 or 1 with
  the strategy byte of Deny.
\<close>

theorem policy_panics_only_on_empty_account:
  assumes "borsh_policy d" "borsh_policy_v2 d" "borsh_pubkey d"
  shows "(get_blocked_identities d key account = Panic \<longleftrightarrow> account = Inr []) \<and>
    (get_blocked_identities d key account = Ok ids \<longrightarrow>
       (\<exists>data. account = Inr data \<and> (data ! 0 = 0 \<or> data ! 0 = 1) \<and> data ! 1 = 0))"
proof (cases account)
  case (Inl e)
  then show ?thesis by (simp add: get_blocked_identities_def)
next
  case (Inr data)
  have ok: "(data ! 0 = 0 \<or> data ! 0 = 1) \<and> data ! 1 = 0" if "read_policy d data = Ok (Deny, i)" for i
    using that policy_deserialize_cases [OF assms(1), of data]
      policy_v2_deserialize_cases [OF assms(2,3), of data]
    by (auto simp: read_policy_def Policy_from_slice_def PolicyV2_from_slice_def
        Policy_try_strategy_def PolicyV2_try_strategy_def PermissionStrategy_try_from_def
        split: list.splits sum.splits option.splits if_splits)
  have "s = Deny \<or> s = Allow" for s by (cases s) simp_all
  with ok Inr read_policy_not_Panic [OF assms, of data] show ?thesis
    by (fastforce simp: get_blocked_identities_def split: if_splits)
qed

theorem policy_panics_only_on_empty_account_witness:
  "get_blocked_identities sample_deps [] (Inr []) = Panic \<and>
   get_blocked_identities sample_deps [] (Inr [0, 1]) \<noteq> Panic"
  using policy_panics_only_on_empty_account [OF sample_deps_laws, of "[]"] by simp

lemma blocked_ips_listed:
  assumes "get_blocked_identities d key account = Ok ids" "node \<in> set nodes"
    "node_pubkey node \<in> set ids" "node_tpu_quic node = Some a"
  shows "\<exists>ips. get_blocked_ips d key (Inr nodes) account = Ok ips \<and> a \<in> set ips"
proof -
  have "a \<in> set (List.map_filter (\<lambda>node. if node_pubkey node \<in> set ids
      then node_tpu_quic node else None) nodes)"
    using assms(2-4) by (induction nodes) (auto simp: List.map_filter_simps split: option.splits)
  with assms(1) show ?thesis by (simp add: get_blocked_ips_def)
qed

text \<open>
  C34: the addresses to protect from are the QUIC TPU addresses of the cluster nodes whose key
  is among the blocked identities, in the order of the nodes, and nothing else; without the
  list of nodes, or without a Deny policy, there is no answer.
\<close>

theorem blocked_ips_characterised:
  "get_blocked_ips d key nodes account = Ok ips \<longleftrightarrow>
     (\<exists>ns ids. nodes = Inr ns \<and> get_blocked_identities d key account = Ok ids \<and>
        ips = concat (map (\<lambda>n. case node_tpu_quic n of None \<Rightarrow> [] | Some a \<Rightarrow> [a])
                (filter (\<lambda>n. node_pubkey n \<in> set ids) ns)))"
proof -
  have "List.map_filter (\<lambda>n. if node_pubkey n \<in> A then node_tpu_quic n else None) ns =
      concat (map (\<lambda>n. case node_tpu_quic n of None \<Rightarrow> [] | Some a \<Rightarrow> [a])
        (filter (\<lambda>n. node_pubkey n \<in> A) ns))" for A ns
    by (induction ns) (auto simp: List.map_filter_simps split: option.splits)
  then show ?thesis
    by (cases nodes) (auto simp: get_blocked_ips_def)
qed

end
