(* ===== verification/End_To_End.thy ===== *)
theory End_To_End
  imports Ingress Broadcaster Shield
begin

text \<open>
  The parts composed: the front ends put messages into the channel of the TPU client, the
  client takes them out one by one and hands each, with the leader window of the moment, to
  the broadcaster, whose blocked set follows the shield policy. The channel and the client are
  code of \<open>solana_tpu_client_next\<close>; what the composition relies on is stated as a predicate on
  the channel operations.
\<close>

section \<open>The channel\<close>

text \<open>
  \<open>contents\<close> is what is in the channel, oldest first. A message that is taken is appended, one
  that is refused is not, and the receiver gets the oldest.
\<close>

definition fifo_channel ::
  "'c try_send \<Rightarrow> ('c \<Rightarrow> (bytes \<times> 'c) option) \<Rightarrow> ('c \<Rightarrow> bytes list) \<Rightarrow> bool" where
  "fifo_channel ts recv contents \<longleftrightarrow>
     (\<forall>m c. contents (snd (ts m c)) =
        (case fst (ts m c) of Inl _ \<Rightarrow> contents c | Inr _ \<Rightarrow> contents c @ [m])) \<and>
     (\<forall>c. case recv c of
        None \<Rightarrow> contents c = []
      | Some (m, c') \<Rightarrow> contents c = m # contents c')"

lemma fifo_send:
  assumes "fifo_channel ts recv contents"
  shows "contents (snd (ts m c)) =
    (case fst (ts m c) of Inl _ \<Rightarrow> contents c | Inr _ \<Rightarrow> contents c @ [m])"
  using assms by (simp add: fifo_channel_def)

lemma fifo_recv:
  assumes "fifo_channel ts recv contents" "recv c = Some (m, c')"
  shows "contents c = m # contents c'"
proof -
  have "case recv c of None \<Rightarrow> contents c = [] | Some (m, c') \<Rightarrow> contents c = m # contents c'"
    using assms(1) by (simp add: fifo_channel_def)
  with assms(2) show ?thesis by simp
qed

section \<open>The system\<close>

text \<open>
  The events: one of a front end or of the flush task, the client delivering the next message
  with a leader window, and a round of the refresh thread. The state carries, beside the
  records of the broadcaster, the log of accepted submissions, which no definition reads.
\<close>

datatype 'enc system_event =
    FrontEnd "'enc ingress_event"
  | Deliver "socket_addr list"
  | RefreshRound refresh_event

type_synonym ('c, 'w, 'k) system_state =
  "(bytes \<times> bool) list \<times> 'k send_record list \<times> 'w \<times> 'c broadcaster"

definition accepted_submission ::
  "('enc, 'sig) rpc_deps \<Rightarrow> (bytes \<Rightarrow> string + transaction_packet) \<Rightarrow> 'c try_send \<Rightarrow>
   'enc ingress_event \<Rightarrow> ('c, 'z) sender_world_scheme \<Rightarrow> (bytes \<times> bool) list" where
  "accepted_submission d wd ts e w =
     (case submission d wd e of
        None \<Rightarrow> []
      | Some (wire, mev) \<Rightarrow>
          if channel_accepts ts (TpuClientPayload_new wire mev) w then [(wire, mev)] else [])"

definition system_step ::
  "('enc, 'sig) rpc_deps \<Rightarrow> (bytes \<Rightarrow> string + transaction_packet) \<Rightarrow> 'c try_send \<Rightarrow>
   ('c \<Rightarrow> (bytes \<times> 'c) option) \<Rightarrow> ('w, 'k) workers_api \<Rightarrow> 'enc system_event \<Rightarrow>
   ('c, 'w, 'k) system_state \<Rightarrow> ('c, 'w, 'k) system_state" where
  "system_step d wd ts recv api e s =
     (case s of (acc, recs, w, b) \<Rightarrow>
        (case e of
           FrontEnd ie \<Rightarrow>
             (acc @ accepted_submission d wd ts ie b, recs, w, ingress_step d wd ts ie b)
         | Deliver leaders \<Rightarrow>
             (case recv (chan b) of
                None \<Rightarrow> s
              | Some (m, c) \<Rightarrow>
                  (acc, broadcaster_step api (Message leaders m) (recs, w, b\<lparr>chan := c\<rparr>)))
         | RefreshRound r \<Rightarrow> (acc, broadcaster_step api (Refresh r) (recs, w, b))))"

definition system_run ::
  "('enc, 'sig) rpc_deps \<Rightarrow> (bytes \<Rightarrow> string + transaction_packet) \<Rightarrow> 'c try_send \<Rightarrow>
   ('c \<Rightarrow> (bytes \<times> 'c) option) \<Rightarrow> ('w, 'k) workers_api \<Rightarrow> 'enc system_event list \<Rightarrow>
   'w \<Rightarrow> 'c sender_world \<Rightarrow> ('c, 'w, 'k) system_state" where
  "system_run d wd ts recv api es w w0 =
     fold (system_step d wd ts recv api) es ([], [], w, MevProtectedBroadcaster_run w0)"

section \<open>What each step leaves alone\<close>

lemma sender_frame [simp]:
  "buffered_transactions (record_send_err x b) = buffered_transactions b"
  "buffer_poisoned (record_send_err x b) = buffer_poisoned b"
  "blocked_leaders (record_send_err x b) = blocked_leaders b"
  by (cases "(x, b)" rule: record_send_err.cases; simp)+

lemma records_keep_broadcaster [simp]:
  "buffered_transactions (record_quic_received b) = buffered_transactions b"
  "buffered_transactions (record_quic_invalid b) = buffered_transactions b"
  "buffered_transactions (record_quic_mev_protected p b) = buffered_transactions b"
  "buffered_transactions (record_json_rpc_received p b) = buffered_transactions b"
  "buffered_transactions (record_json_rpc_invalid b) = buffered_transactions b"
  "buffered_transactions (record_tpu_enqueued b) = buffered_transactions b"
  "buffered_transactions (record_tpu_dropped b) = buffered_transactions b"
  "buffer_poisoned (record_quic_received b) = buffer_poisoned b"
  "buffer_poisoned (record_quic_invalid b) = buffer_poisoned b"
  "buffer_poisoned (record_quic_mev_protected p b) = buffer_poisoned b"
  "buffer_poisoned (record_json_rpc_received p b) = buffer_poisoned b"
  "buffer_poisoned (record_json_rpc_invalid b) = buffer_poisoned b"
  "buffer_poisoned (record_tpu_enqueued b) = buffer_poisoned b"
  "buffer_poisoned (record_tpu_dropped b) = buffer_poisoned b"
  "blocked_leaders (record_quic_received b) = blocked_leaders b"
  "blocked_leaders (record_quic_invalid b) = blocked_leaders b"
  "blocked_leaders (record_quic_mev_protected p b) = blocked_leaders b"
  "blocked_leaders (record_json_rpc_received p b) = blocked_leaders b"
  "blocked_leaders (record_json_rpc_invalid b) = blocked_leaders b"
  "blocked_leaders (record_tpu_enqueued b) = blocked_leaders b"
  "blocked_leaders (record_tpu_dropped b) = blocked_leaders b"
  by (simp_all add: record_defs)

lemma send_transaction_keeps_broadcaster [simp]:
  "buffered_transactions (send_transaction ts p b) = buffered_transactions b"
  "buffer_poisoned (send_transaction ts p b) = buffer_poisoned b"
  "blocked_leaders (send_transaction ts p b) = blocked_leaders b"
  by (auto simp: send_transaction_def Let_def split: prod.splits sum.splits)

lemma ingress_step_keeps_broadcaster [simp]:
  "buffered_transactions (ingress_step d wd ts e b) = buffered_transactions b"
  "buffer_poisoned (ingress_step d wd ts e b) = buffer_poisoned b"
  "blocked_leaders (ingress_step d wd ts e b) = blocked_leaders b"
proof -
  have "buffered_transactions (ingress_step d wd ts e b) = buffered_transactions b \<and>
    buffer_poisoned (ingress_step d wd ts e b) = buffer_poisoned b \<and>
    blocked_leaders (ingress_step d wd ts e b) = blocked_leaders b"
  proof (cases e)
    case (JsonRequest txn params mev)
    then show ?thesis
      by (auto simp: ingress_step_def rpc_send_transaction_def Let_def
          split: option.split sum.split list.split)
  next
    case (QuicStream m l out)
    then show ?thesis
      by (auto simp: ingress_step_def handle_uni_stream_def Let_def
          split: read_outcome.split sum.split)
  next
    case FlushMessage
    then show ?thesis by (simp add: ingress_step_def flush_tick_def)
  qed
  then show "buffered_transactions (ingress_step d wd ts e b) = buffered_transactions b"
    "buffer_poisoned (ingress_step d wd ts e b) = buffer_poisoned b"
    "blocked_leaders (ingress_step d wd ts e b) = blocked_leaders b" by simp_all
qed

section \<open>The invariant of the system\<close>

text \<open>
  The records are the abstract queue at work, and what has been delivered followed by what is
  still in the channel is, once decoded, the log of accepted submissions.
\<close>

definition in_flight :: "('c \<Rightarrow> bytes list) \<Rightarrow> ('c, 'z) broadcaster_scheme \<Rightarrow> (bytes \<times> bool) list" where
  "in_flight contents b = List.map_filter decode_payload (contents (chan b))"

definition system_inv :: "('c \<Rightarrow> bytes list) \<Rightarrow> ('c, 'w, 'k) system_state \<Rightarrow> bool" where
  "system_inv contents s \<longleftrightarrow>
     (case s of (acc, recs, w, b) \<Rightarrow>
        queue_inv [] (recs, w, b) \<and>
        List.map_filter (\<lambda>r. decode_payload (sr_message r)) recs @ in_flight contents b = acc)"

lemma map_filter_append [simp]:
  "List.map_filter f (xs @ ys) = List.map_filter f xs @ List.map_filter f ys"
  by (induction xs) (simp_all add: List.map_filter_simps split: option.split)

lemma front_end_in_flight:
  assumes "fifo_channel ts recv contents"
  shows "in_flight contents (ingress_step d wd ts e b) =
    in_flight contents b @ accepted_submission d wd ts e b"
proof (cases "offered d wd e")
  case None
  then have "submission d wd e = None"
    by (cases e) (auto simp: offered_def split: option.splits)
  with None show ?thesis
    by (simp add: in_flight_def ingress_step_chan accepted_submission_def)
next
  case (Some m)
  show ?thesis
  proof (cases "submission d wd e")
    case None
    then have "m = []" using Some by (cases e) (auto simp: offered_def)
    with None Some show ?thesis
      by (simp add: in_flight_def ingress_step_chan accepted_submission_def fifo_send [OF assms]
          List.map_filter_simps codec.dec_flush split: sum.split)
  next
    case (Some s)
    obtain wire mev where s: "s = (wire, mev)" by (cases s)
    with Some \<open>offered d wd e = Some m\<close> have "m = encode_payload wire mev"
      by (cases e) (auto simp: offered_def submission_def split: option.splits)
    with Some s \<open>offered d wd e = Some m\<close> show ?thesis
      by (simp add: in_flight_def ingress_step_chan accepted_submission_def fifo_send [OF assms]
          List.map_filter_simps codec.dec_enc channel_accepts_def encode_payload_def [symmetric]
          split: sum.split)
  qed
qed

lemma broadcaster_step_message:
  "broadcaster_step api (Message leaders m) (recs, w, b) =
     (recs @ [\<lparr>sr_blocked = blocked_leaders b, sr_leaders = leaders, sr_message = m,
               sr_result = fst (send_to_workers api leaders m w b),
               sr_calls = fst (snd (send_to_workers api leaders m w b))\<rparr>],
      snd (snd (send_to_workers api leaders m w b)))"
  by (simp add: broadcaster_step_def case_prod_unfold Let_def)

lemma send_to_workers_chan:
  "\<not> buffer_poisoned b \<Longrightarrow> chan (snd (snd (snd (send_to_workers api leaders m w b)))) = chan b"
  using prepare_frame(4) [of b m "has_blocked_send_target leaders (blocked_leaders b)"]
  by (simp add: send_to_workers_def Let_def case_prod_unfold split: option.split)

lemma system_inv_step:
  assumes fifo: "fifo_channel ts recv contents" and inv: "system_inv contents s"
  shows "system_inv contents (system_step d wd ts recv api e s)"
proof -
  obtain acc recs w b where s: "s = (acc, recs, w, b)" by (cases s)
  have q: "queue_inv [] (recs, w, b)"
    and log: "List.map_filter (\<lambda>r. decode_payload (sr_message r)) recs @ in_flight contents b = acc"
    using inv s by (simp_all add: system_inv_def)
  show ?thesis
  proof (cases e)
    case (FrontEnd ie)
    have "queue_inv [] (recs, w, ingress_step d wd ts ie b)"
      by (intro queue_inv_frame [OF _ _ q]) simp_all
    with FrontEnd s log show ?thesis
      by (simp add: system_step_def system_inv_def front_end_in_flight [OF fifo] flip: append_assoc)
  next
    case (RefreshRound r)
    with s q log queue_inv_step [OF q, of api "Refresh r"] show ?thesis
      by (simp add: system_step_def system_inv_def broadcaster_step_def in_flight_def)
  next
    case (Deliver leaders)
    show ?thesis
    proof (cases "recv (chan b)")
      case None
      with Deliver s inv show ?thesis by (simp add: system_step_def)
    next
      case (Some mc)
      obtain m c where mc: "mc = (m, c)" by (cases mc)
      let ?b = "b\<lparr>chan := c\<rparr>"
      have qb: "queue_inv [] (recs, w, ?b)" by (rule queue_inv_frame [OF _ _ q]) simp_all
      then have "\<not> buffer_poisoned ?b" by (simp add: queue_inv_def)
      note chan_after = send_to_workers_chan [OF this, of api leaders m w]
      have "contents (chan b) = m # contents c" using fifo_recv [OF fifo] Some mc by blast
      with log have "List.map_filter (\<lambda>r. decode_payload (sr_message r)) recs @
          List.map_filter decode_payload [m] @ List.map_filter decode_payload (contents c) = acc"
        using map_filter_append [of decode_payload "[m]" "contents c"] by (simp add: in_flight_def)
      moreover have "queue_inv [] (broadcaster_step api (Message leaders m) (recs, w, ?b))"
        by (rule queue_inv_step [OF qb])
      ultimately show ?thesis
        using Deliver s Some mc chan_after
        by (cases "decode_payload m") (auto simp: system_step_def system_inv_def broadcaster_step_message in_flight_def
            List.map_filter_simps case_prod_unfold split: option.splits)
    qed
  qed
qed

interpretation system: event_machine "system_step d wd ts recv api"
    "\<lambda>s. fifo_channel ts recv contents \<longrightarrow> system_inv contents s"
  for d wd ts recv api contents
  by unfold_locales (simp add: system_inv_step)

lemma system_run_inv:
  assumes "fifo_channel ts recv contents" "contents (chan w0) = []"
  shows "system_inv contents (system_run d wd ts recv api es w w0)"
proof -
  have "fifo_channel ts recv contents \<longrightarrow>
      system_inv contents (system_run d wd ts recv api es w w0)"
    unfolding system_run_def
    by (rule system.inv_run)
       (simp add: system_inv_def queue_inv_def in_flight_def assms(2) List.map_filter_simps)
  with assms(1) show ?thesis by blast
qed

lemma system_run_steps:
  "system_run d wd ts recv api (es @ es') w w0 =
     fold (system_step d wd ts recv api) es' (system_run d wd ts recv api es w w0)"
  by (simp add: system_run_def)

section \<open>Properties\<close>

text \<open>The transactions of one protection in a log.\<close>

definition of_protection :: "bool \<Rightarrow> (bytes \<times> bool) list \<Rightarrow> bytes list" where
  "of_protection p xs = map fst (filter (\<lambda>x. snd x = p) xs)"

lemma arrivals_records:
  "arrivals p (map input_of recs) =
     of_protection p (List.map_filter (\<lambda>r. decode_payload (sr_message r)) recs)"
  by (induction recs)
     (auto simp: arrivals_def of_protection_def input_of_def List.map_filter_simps split: option.splits)

text \<open>The window of every record is the one of a delivery.\<close>

lemma system_step_windows:
  "set (map sr_leaders (fst (snd (system_step d wd ts recv api e s)))) \<subseteq>
     set (map sr_leaders (fst (snd s))) \<union> {ls. e = Deliver ls}"
proof -
  obtain acc recs w b where s: "s = (acc, recs, w, b)" by (cases s)
  show ?thesis
    by (cases e) (auto simp: s system_step_def broadcaster_step_message case_prod_unfold
        broadcaster_step_def Let_def split: option.split)
qed

lemma system_run_windows:
  assumes "system_run d wd ts recv api es w w0 = (acc, recs, w', b')" "r \<in> set recs"
  shows "Deliver (sr_leaders r) \<in> set es"
proof -
  have "ls \<in> set (map sr_leaders (fst (snd (fold (system_step d wd ts recv api) es s)))) \<Longrightarrow>
      ls \<in> set (map sr_leaders (fst (snd s))) \<or> Deliver ls \<in> set es" for ls s
  proof (induction es arbitrary: s)
    case (Cons e es)
    from Cons.IH [of "system_step d wd ts recv api e s"] Cons.prems
      system_step_windows [of d wd ts recv api e s] show ?case by auto
  qed simp
  from this [of "sr_leaders r" "([], [], w, MevProtectedBroadcaster_run w0)"] assms
  show ?thesis by (simp add: system_run_def)
qed

text \<open>
  The output of a delivery is transmitted to every address of its window, so with an empty
  window it is transmitted to nobody: it is lost.
\<close>

lemma transmissions_no_leaders [simp]: "transmissions [] out = []"
  by (simp add: transmissions_def)

definition transmitted_of :: "'k send_record list \<Rightarrow> 'o list list \<Rightarrow> 'o list list" where
  "transmitted_of recs outs = map2 (\<lambda>r out. if sr_leaders r = [] then [] else out) recs outs"

definition lost_of :: "'k send_record list \<Rightarrow> 'o list list \<Rightarrow> 'o list list" where
  "lost_of recs outs = map2 (\<lambda>r out. if sr_leaders r = [] then out else []) recs outs"

lemma transmitted_lost:
  assumes "length outs = length recs"
  shows "length (transmitted_of recs outs) = length recs" "length (lost_of recs outs) = length recs"
    "map2 (@) (transmitted_of recs outs) (lost_of recs outs) = outs"
    "map2 (\<lambda>r. transmissions (sr_leaders r)) recs (transmitted_of recs outs) =
       map2 (\<lambda>r. transmissions (sr_leaders r)) recs outs"
    "\<forall>r \<in> set recs. sr_leaders r \<noteq> [] \<Longrightarrow> concat (lost_of recs outs) = []"
    "i < length recs \<Longrightarrow> sr_leaders (recs ! i) = [] \<Longrightarrow> transmitted_of recs outs ! i = []"
    "i < length recs \<Longrightarrow> sr_leaders (recs ! i) \<noteq> [] \<Longrightarrow> lost_of recs outs ! i = []"
proof -
  show "map2 (@) (transmitted_of recs outs) (lost_of recs outs) = outs"
    using assms by (intro nth_equalityI) (simp_all add: transmitted_of_def lost_of_def)
  show "map2 (\<lambda>r. transmissions (sr_leaders r)) recs (transmitted_of recs outs) =
       map2 (\<lambda>r. transmissions (sr_leaders r)) recs outs"
    by (rule nth_equalityI) (use assms in \<open>auto simp: transmitted_of_def\<close>)
  show "concat (lost_of recs outs) = []" if "\<forall>r \<in> set recs. sr_leaders r \<noteq> []"
    using that by (auto simp: lost_of_def dest: set_zip_leftD)
qed (use assms in \<open>simp_all add: transmitted_of_def lost_of_def\<close>)


lemma sample_channel: "fifo_channel sample_send sample_recv (\<lambda>c. c)"
  by (auto simp: fifo_channel_def sample_send_def split: option.split elim: sample_recv.elims)

definition sample_history :: "unit system_event list" where
  "sample_history =
     [FrontEnd (QuicStream 1 1 (ReadOk [7])), RefreshRound (Refreshed (Ok [addr_n 2])),
      Deliver [addr_n 2], FrontEnd FlushMessage, Deliver [addr_n 1]]"


section \<open>The shield in force\<close>

text \<open>Events after which the blocked set is still the one fetched before them.\<close>

fun keeps_blocked :: "'enc system_event \<Rightarrow> bool" where
  "keeps_blocked (RefreshRound (Refreshed (Ok _))) = False"
| "keeps_blocked _ = True"

text \<open>Since \<open>n\<close> records ago, every delivery has seen the set \<open>B\<close>.\<close>

definition blocking_since :: "nat \<Rightarrow> socket_addr set \<Rightarrow> ('c, 'w, 'k) system_state \<Rightarrow> bool" where
  "blocking_since n B s \<longleftrightarrow>
     (case s of (acc, recs, w, b) \<Rightarrow>
        queue_inv [] (recs, w, b) \<and> blocked_leaders b = B \<and> n \<le> length recs \<and>
        (\<forall>r \<in> set (drop n recs). sr_blocked r = B))"

lemma send_to_workers_blocked:
  "\<not> buffer_poisoned b \<Longrightarrow>
     blocked_leaders (snd (snd (snd (send_to_workers api leaders m w b)))) = blocked_leaders b"
  using prepare_frame(2) [of b m "has_blocked_send_target leaders (blocked_leaders b)"]
  by (simp add: send_to_workers_def Let_def case_prod_unfold split: option.split)

lemma refresh_keeps_blocked:
  "keeps_blocked (RefreshRound r) \<Longrightarrow> blocked_leaders (refresh_step r b) = blocked_leaders b"
  by (cases "RefreshRound r" rule: keeps_blocked.cases)
     (auto simp: refresh_step_def split: refresh_event.splits rust_result.splits)

lemma blocking_since_step:
  assumes "blocking_since n B s" "keeps_blocked e"
  shows "blocking_since n B (system_step d wd ts recv api e s)"
proof -
  obtain acc recs w b where s: "s = (acc, recs, w, b)" by (cases s)
  have q: "queue_inv [] (recs, w, b)" and B: "blocked_leaders b = B" "n \<le> length recs"
    "\<forall>r \<in> set (drop n recs). sr_blocked r = B"
    using assms(1) s by (simp_all add: blocking_since_def)
  show ?thesis
  proof (cases e)
    case (FrontEnd ie)
    have "queue_inv [] (recs, w, ingress_step d wd ts ie b)"
      by (intro queue_inv_frame [OF _ _ q]) simp_all
    with FrontEnd s B show ?thesis by (simp add: system_step_def blocking_since_def)
  next
    case (RefreshRound r)
    with s B queue_inv_step [OF q, of api "Refresh r"] refresh_keeps_blocked [of r b] assms(2)
    show ?thesis by (simp add: system_step_def blocking_since_def broadcaster_step_def)
  next
    case (Deliver leaders)
    show ?thesis
    proof (cases "recv (chan b)")
      case None
      with Deliver s assms(1) show ?thesis by (simp add: system_step_def)
    next
      case (Some mc)
      obtain m c where mc: "mc = (m, c)" by (cases mc)
      have qb: "queue_inv [] (recs, w, b\<lparr>chan := c\<rparr>)" by (rule queue_inv_frame [OF _ _ q]) simp_all
      then have "\<not> buffer_poisoned (b\<lparr>chan := c\<rparr>)" by (simp add: queue_inv_def)
      note after = send_to_workers_blocked [OF this, of api leaders m w]
      from queue_inv_step [OF qb, of api "Message leaders m"] Deliver s Some mc B after
      show ?thesis
        by (simp add: system_step_def blocking_since_def broadcaster_step_message case_prod_unfold)
    qed
  qed
qed

lemma blocking_since_run:
  "blocking_since n B s \<Longrightarrow> list_all keeps_blocked es \<Longrightarrow>
     blocking_since n B (fold (system_step d wd ts recv api) es s)"
  by (induction es arbitrary: s) (simp_all add: blocking_since_step)

lemma system_run_queue_inv:
  "case system_run d wd ts recv api es w w0 of (acc, recs, w', b') \<Rightarrow> queue_inv [] (recs, w', b')"
proof -
  have step: "case system_step d wd ts recv api e s of (acc, recs, w', b') \<Rightarrow> queue_inv [] (recs, w', b')"
    if "case s of (acc, recs, w', b') \<Rightarrow> queue_inv [] (recs, w', b')" for e s
  proof -
    obtain acc recs w' b where s: "s = (acc, recs, w', b)" by (cases s)
    with that have q: "queue_inv [] (recs, w', b)" by simp
    have frame: "queue_inv [] (recs, w', b\<lparr>chan := c\<rparr>)" "queue_inv [] (recs, w', ingress_step d wd ts ie b)" for c ie
      by (rule queue_inv_frame [OF _ _ q]; simp)+
    show ?thesis
      using s q frame queue_inv_step [of "[]" "(recs, w', b)" api] queue_inv_step [OF frame(1), of api]
      by (auto simp: system_step_def split: system_event.split option.split)
  qed
  have "case fold (system_step d wd ts recv api) es s of (acc, recs, w', b') \<Rightarrow> queue_inv [] (recs, w', b')"
    if "case s of (acc, recs, w', b') \<Rightarrow> queue_inv [] (recs, w', b')" for s
    using that by (induction es arbitrary: s) (simp_all only: fold.simps comp_apply id_apply step)
  then show ?thesis by (simp add: system_run_def queue_inv_def)
qed

text \<open>
  C6: identities on the shield are shielded. Take any history after which the refresh thread is
  alive, a refresh that reads a Deny policy listing an identity together with a cluster node of
  that identity, and any later events up to the next successful refresh. Every delivery among
  them whose window holds the QUIC address of that node transmits, to any address, only the
  transaction of its own message, and only if it is not protected.
\<close>

theorem shielded_identities_never_receive_protected:
  assumes "borsh_policy sd" "borsh_policy_v2 sd"
    and "\<forall>c \<in> set ids. pubkey_try_from_slice sd c = Some (pk c) \<and> length c = 32"
    and "mint = None \<or> (\<exists>m mpk. mint = Some m \<and> length m = 32 \<and> pubkey_try_from_slice sd m = Some mpk)"
    and "length l = 4" "length rest < 32"
    and "c \<in> set ids" "node \<in> set nodes" "node_pubkey node = pubkey_to_string sd (pk c)"
      "node_tpu_quic node = Some a"
    and "system_run d wd ts recv api es w w0 = (acc1, recs1, w1, b1)" "refresh_alive b1"
    and "list_all keeps_blocked later"
    and "system_run d wd ts recv api (es @ RefreshRound (Refreshed (get_blocked_ips sd key (Inr nodes)
        (Inr (policy_account mint 0 n l ids @ rest)))) # later) w w0 = (acc2, recs2, w2, b2)"
    and "r \<in> set (drop (length recs1) recs2)" "a \<in> set (sr_leaders r)"
    and "TrySend x t \<in> set (sr_calls r)"
  shows "\<exists>p. TpuClientPayload_decode (sr_message r) = Some p \<and>
    \<not> is_mev_protected p \<and> wire_transaction p = Some t"
proof -
  let ?ids = "map (\<lambda>c. pubkey_to_string sd (pk c)) ids"
  have "get_blocked_identities sd key (Inr (policy_account mint 0 n l ids @ rest)) = Ok ?ids"
    by (rule deny_policy_identities [OF assms(1-6)])
  then obtain ips where ips: "get_blocked_ips sd key (Inr nodes)
      (Inr (policy_account mint 0 n l ids @ rest)) = Ok ips" "a \<in> set ips"
    using blocked_ips_listed [of sd key _ ?ids node nodes a] assms(7-10) by auto
  have q: "queue_inv [] (recs1, w1, b1)"
    using system_run_queue_inv [of d wd ts recv api es w w0] assms(11) by simp
  let ?s = "system_step d wd ts recv api (RefreshRound (Refreshed (Ok ips))) (acc1, recs1, w1, b1)"
  have "blocking_since (length recs1) (set ips) ?s"
    using assms(12) queue_inv_step [OF q, of api "Refresh (Refreshed (Ok ips))"]
    by (simp add: system_step_def blocking_since_def broadcaster_step_def refresh_step_def)
  from blocking_since_run [OF this assms(13), of d wd ts recv api]
  have "blocking_since (length recs1) (set ips) (acc2, recs2, w2, b2)"
    using assms(11,14) by (simp add: system_run_steps ips(1))
  then have "queue_inv [] (recs2, w2, b2)" "sr_blocked r = set ips"
    using assms(15) by (auto simp: blocking_since_def)
  moreover have "r \<in> set recs2" using assms(15) by (rule in_set_dropD)
  ultimately show ?thesis using queue_inv_blocked ips(2) assms(16,17) by metis
qed

definition sample_account :: bytes where
  "sample_account = policy_account None 0 1 [1, 0, 0, 0] [replicate 32 65] @ []"

definition sample_node :: contact_info where
  "sample_node = \<lparr>node_pubkey = replicate 32 (char_of (65 :: nat)), node_tpu_quic = Some (addr_n 2)\<rparr>"

lemma sample_blocked:
  "get_blocked_ips sample_deps [] (Inr [sample_node]) (Inr sample_account) = Ok [addr_n 2]"
proof -
  have "get_blocked_identities sample_deps [] (Inr sample_account) =
      Ok (map (\<lambda>c. pubkey_to_string sample_deps (id c)) [replicate 32 65])"
    unfolding sample_account_def
    by (rule deny_policy_identities [OF sample_deps_laws(1,2)]) simp_all
  then show ?thesis
    by (simp add: get_blocked_ips_def sample_node_def List.map_filter_simps map_replicate_const)
qed

lemmas sample_system_eval =
  system_run_def system_step_def broadcaster_step_def accepted_submission_def submission_def
  sample_packet_def channel_accepts_def ingress_step_def handle_uni_stream_def send_transaction_def
  sample_send_def MevProtectedBroadcaster_run_def empty_world_def refresh_step_def emit_def
  record_defs into_encoded_new sender_world.defs globals.defs globals_init_def statics_init_def
  statics.defs send_to_workers_def prepare_transactions_def has_blocked_send_target_def
  send_one_def null_api_def wire_transaction_def is_mev_protected_def flag_defs

theorem shielded_identities_never_receive_protected_witness:
  "\<exists>acc recs w b r p. system_run sample_rpc sample_packet sample_send sample_recv null_api
      [RefreshRound (Refreshed (Ok [addr_n 2])), FrontEnd (QuicStream 1 1 (ReadOk [9])),
       Deliver [addr_n 2]] () empty_world = (acc, recs, w, b) \<and>
    r \<in> set recs \<and> TrySend (addr_n 2) [9] \<in> set (sr_calls r) \<and>
    TpuClientPayload_decode (sr_message r) = Some p \<and> \<not> is_mev_protected p"
proof -
  let ?later = "[FrontEnd (QuicStream 1 1 (ReadOk [9])), Deliver [addr_n 2]]"
  let ?sys = "\<lambda>es. system_run sample_rpc sample_packet sample_send sample_recv null_api es () empty_world"
  have s1: "?sys [] = ([], [], (), MevProtectedBroadcaster_run empty_world)"
    by (simp add: system_run_def)
  obtain acc recs w b where run: "?sys (RefreshRound (Refreshed (Ok [addr_n 2])) # ?later) = (acc, recs, w, b)"
    by (rule prod_cases4)
  have r: "hd recs \<in> set recs \<and> addr_n 2 \<in> set (sr_leaders (hd recs)) \<and>
      TrySend (addr_n 2) [9] \<in> set (sr_calls (hd recs))"
    using run by (auto simp: sample_system_eval Let_def TpuClientPayload_decode_def)
  have "?sys ([] @ RefreshRound (Refreshed (get_blocked_ips sample_deps [] (Inr [sample_node])
      (Inr sample_account))) # ?later) = (acc, recs, w, b)"
    using run by (simp add: sample_blocked)
  note shield = shielded_identities_never_receive_protected [where ids = "[replicate 32 65]" and pk = id and c = "replicate 32 65"
      and mint = None and l = "[1, 0, 0, 0]" and rest = "[]" and node = sample_node,
      OF sample_deps_laws(1,2) _ _ _ _ _ _ _ _ s1 _ _ this [unfolded sample_account_def]]
  have key: "replicate 32 (char_of (65 :: nat)) = map (\<lambda>b. char_of (unat b)) (replicate 32 (65 :: u8))"
    by (simp add: map_replicate_const)
  have "\<exists>p. TpuClientPayload_decode (sr_message (hd recs)) = Some p \<and>
      \<not> is_mev_protected p \<and> wire_transaction p = Some [9]"
    by (rule shield [where r = "hd recs" and a = "addr_n 2" and x = "addr_n 2"])
       (use r key in \<open>simp_all add: sample_node_def\<close>)
  with run r show ?thesis by blast
qed

end
