(* ===== verification/Linearisation.thy ===== *)
theory Linearisation
  imports Interleaving End_To_End "HOL-Library.Multiset"
begin

text \<open>
  The whole system with its concurrency: the front ends as interleaved tasks of atomic
  operations, the client delivering messages to the broadcaster and the refresh thread moving
  in between. Every such run is explained by a sequential history of \<open>End_To_End\<close>, in which a
  handler takes effect as a whole at the moment of its \<open>try_send\<close>.
\<close>

section \<open>The concurrent system\<close>

text \<open>
  A delivery is one step: the client's scheduler makes the calls one after the other, the
  buffer is locked, and the list of blocked leaders is loaded once, at the start of the call.
\<close>

type_synonym ('enc, 'c, 'w, 'k) concurrent_state =
  "'enc ingress_event list \<times> atomic_action list list \<times> 'k send_record list \<times> 'w \<times> 'c broadcaster"

inductive concurrent_step ::
  "('enc, 'sig) rpc_deps \<Rightarrow> (bytes \<Rightarrow> string + transaction_packet) \<Rightarrow> 'c try_send \<Rightarrow>
   ('c \<Rightarrow> (bytes \<times> 'c) option) \<Rightarrow> ('w, 'k) workers_api \<Rightarrow>
   ('enc, 'c, 'w, 'k) concurrent_state \<Rightarrow> ('enc, 'c, 'w, 'k) concurrent_state \<Rightarrow> bool"
  for d wd ts recv api where
  arrival: "concurrent_step d wd ts recv api (es, tk, recs, w, b)
    (es @ [e], tk @ [handler_actions d wd e], recs, w, b)"
| action: "i < length tk \<Longrightarrow> tk ! i = a # as \<Longrightarrow> exec_action ts a b = (as', b') \<Longrightarrow>
    concurrent_step d wd ts recv api (es, tk, recs, w, b) (es, tk[i := as' @ as], recs, w, b')"
| delivery: "recv (chan b) = Some (m, c) \<Longrightarrow>
    broadcaster_step api (Message leaders m) (recs, w, b\<lparr>chan := c\<rparr>) = (recs', w', b') \<Longrightarrow>
    concurrent_step d wd ts recv api (es, tk, recs, w, b) (es, tk, recs', w', b')"
| refresh: "concurrent_step d wd ts recv api (es, tk, recs, w, b)
    (es, tk, recs, w, refresh_step r b)"

abbreviation concurrent_reach ::
  "('enc, 'sig) rpc_deps \<Rightarrow> (bytes \<Rightarrow> string + transaction_packet) \<Rightarrow> 'c try_send \<Rightarrow>
   ('c \<Rightarrow> (bytes \<times> 'c) option) \<Rightarrow> ('w, 'k) workers_api \<Rightarrow> 'w \<Rightarrow> 'c sender_world \<Rightarrow>
   ('enc, 'c, 'w, 'k) concurrent_state \<Rightarrow> bool" where
  "concurrent_reach d wd ts recv api w w0 s \<equiv>
     (concurrent_step d wd ts recv api)\<^sup>*\<^sup>* ([], [], [], w, MevProtectedBroadcaster_run w0) s"

section \<open>What the broadcaster depends on\<close>

text \<open>Two broadcasters that differ at most in the monotone counters and the recorded metrics.\<close>

definition same_core :: "('c, 'z) broadcaster_scheme \<Rightarrow> ('c, 'z) broadcaster_scheme \<Rightarrow> bool" where
  "same_core b b' \<longleftrightarrow>
     chan b = chan b' \<and> MEV_BUFFER_SIZE b = MEV_BUFFER_SIZE b' \<and>
     blocked_leaders b = blocked_leaders b' \<and>
     buffered_transactions b = buffered_transactions b' \<and>
     buffer_poisoned b = buffer_poisoned b' \<and> refresh_alive b = refresh_alive b'"

lemma same_core_refl [simp]: "same_core b b"
  by (simp add: same_core_def)

lemma same_coreD:
  assumes "same_core b b'"
  shows "chan b = chan b'" "blocked_leaders b = blocked_leaders b'"
    "buffered_transactions b = buffered_transactions b'" "buffer_poisoned b = buffer_poisoned b'"
    "refresh_alive b = refresh_alive b'" "MEV_BUFFER_SIZE b = MEV_BUFFER_SIZE b'"
  using assms by (simp_all add: same_core_def)

text \<open>A step from two such states does the same to both.\<close>

definition same_growth ::
  "('c, 'z) broadcaster_scheme \<Rightarrow> ('c, 'z) broadcaster_scheme \<Rightarrow>
   ('c, 'z) broadcaster_scheme \<Rightarrow> ('c, 'z) broadcaster_scheme \<Rightarrow> bool" where
  "same_growth b b1 c c1 \<longleftrightarrow>
     (\<forall>k. \<exists>n. counter k b1 = counter k b + n \<and> counter k c1 = counter k c + n) \<and>
     (\<exists>ms. metrics b1 = metrics b @ ms \<and> metrics c1 = metrics c @ ms)"

lemma prepare_same_core:
  assumes "same_core b c" "\<not> buffer_poisoned b"
  shows "fst (prepare_transactions m bl b) = fst (prepare_transactions m bl c)"
    and "same_core (snd (prepare_transactions m bl b)) (snd (prepare_transactions m bl c))"
    and "same_growth b (snd (prepare_transactions m bl b)) c (snd (prepare_transactions m bl c))"
proof -
  note core = same_coreD [OF assms(1)]
  have np: "\<not> buffer_poisoned c" using assms(2) core by simp
  show fst: "fst (prepare_transactions m bl b) = fst (prepare_transactions m bl c)"
    by (simp add: prepare_refines_queue assms(2) np core)
  obtain rb b1 where b1: "prepare_transactions m bl b = (rb, b1)" by (metis surj_pair)
  obtain rc c1 where c1: "prepare_transactions m bl c = (rc, c1)" by (metis surj_pair)
  have buf: "buffered_transactions b1 = buffered_transactions c1"
    using prepare_refines_queue(2) [OF assms(2), of m bl] prepare_refines_queue(2) [OF np, of m bl]
    by (simp add: b1 c1 core)
  show "same_core (snd (prepare_transactions m bl b)) (snd (prepare_transactions m bl c))"
    using prepare_frame [OF assms(2), of m bl] prepare_frame [OF np, of m bl]
      prepare_counters(2) [OF assms(2) b1] prepare_counters(2) [OF np c1]
    by (simp add: same_core_def b1 c1 core buf)
  have "\<exists>n. counter k b1 = counter k b + n \<and> counter k c1 = counter k c + n" for k
    unfolding prepare_counters(1) [OF assms(2) b1] prepare_counters(1) [OF np c1] buf core
    by (simp add: add.assoc)
  moreover have "\<exists>ms. metrics b1 = metrics b @ ms \<and> metrics c1 = metrics c @ ms"
    using b1 c1 core assms(2)
    by (cases m rule: rev_cases)
       (auto simp: prepare_transactions_def Let_def record_defs split: if_splits)
  ultimately show "same_growth b (snd (prepare_transactions m bl b)) c (snd (prepare_transactions m bl c))"
    by (simp add: same_growth_def b1 c1)
qed

lemma broadcaster_message_same_core:
  assumes core: "same_core b c" and np: "\<not> buffer_poisoned b"
    and b: "broadcaster_step api (Message leaders m) (recs, w, b) = (recs1, w1, b1)"
    and c: "broadcaster_step api (Message leaders m) (recs, w, c) = (recs2, w2, c1)"
  shows "recs1 = recs2 \<and> w1 = w2 \<and> same_core b1 c1 \<and> same_growth b b1 c c1"
proof -
  let ?bl = "has_blocked_send_target leaders (blocked_leaders b)"
  obtain tb b' where pb: "prepare_transactions m ?bl b = (tb, b')" by (metis surj_pair)
  obtain tc c' where pc: "prepare_transactions m ?bl c = (tc, c')" by (metis surj_pair)
  have same: "tb = tc" "same_core b' c'" "same_growth b b' c c'"
    using prepare_same_core [OF core np, of m ?bl] by (simp_all add: pb pc)
  have bl: "blocked_leaders c = blocked_leaders b" using same_coreD(2) [OF core] by simp
  show ?thesis
    using b c same
    by (auto simp: broadcaster_step_def send_to_workers_def Let_def bl pb pc case_prod_unfold
        split: option.splits if_splits)
qed

lemma refresh_same_core:
  "same_core b c \<Longrightarrow> same_core (refresh_step r b) (refresh_step r c)"
  by (auto simp: same_core_def refresh_step_def split: refresh_event.split rust_result.split)

lemma refresh_metrics [simp]: "metrics (refresh_step r b) = metrics b"
  by (simp add: refresh_step_def split: refresh_event.split rust_result.split)

section \<open>What an action does\<close>

text \<open>The message an action hands to the channel, if it does.\<close>

fun sends :: "atomic_action \<Rightarrow> bool" where
  "sends (TrySendPayload m) = True"
| "sends (TrySendSilent m) = True"
| "sends _ = False"

fun chan_step :: "'c try_send \<Rightarrow> atomic_action \<Rightarrow> 'c \<Rightarrow> 'c" where
  "chan_step ts (TrySendPayload m) c = snd (ts m c)"
| "chan_step ts (TrySendSilent m) c = snd (ts m c)"
| "chan_step ts _ c = c"

lemma add_stat_chan [simp]:
  "chan (add_stat k n w) = chan w" "metrics (add_stat k n w) = metrics w"
  by (cases k; simp)+

lemma add_stat_frame [simp]:
  "MEV_BUFFER_SIZE (add_stat k n b) = MEV_BUFFER_SIZE b"
  "blocked_leaders (add_stat k n b) = blocked_leaders b"
  "buffered_transactions (add_stat k n b) = buffered_transactions b"
  "buffer_poisoned (add_stat k n b) = buffer_poisoned b"
  "refresh_alive (add_stat k n b) = refresh_alive b"
  by (cases k; simp)+

lemma emit_chan [simp]: "chan (emit m b) = chan b"
  by (simp add: emit_def)

text \<open>An action touches the core of a broadcaster in its channel only, and only if it sends.\<close>

lemma exec_action_core:
  "same_core (snd (exec_action ts a b)) (b\<lparr>chan := chan_step ts a (chan b)\<rparr>)"
  by (cases "(ts, a, b)" rule: exec_action.cases)
     (auto simp: same_core_def Let_def split: prod.split simp del: add_stat.simps)

lemma exec_action_chan [simp]: "chan (snd (exec_action ts a w)) = chan_step ts a (chan w)"
  by (cases "(ts, a, w)" rule: exec_action.cases)
     (auto simp: Let_def split: prod.split simp del: add_stat.simps)

lemma chan_step_silent [simp]: "\<not> sends a \<Longrightarrow> chan_step ts a c = c"
  by (cases a) simp_all

lemma exec_action_follow: "list_all (\<lambda>x. \<not> sends x) (fst (exec_action ts a b))"
  by (cases "(ts, a, b)" rule: exec_action.cases) (auto simp: Let_def split: prod.split sum.split)

lemma run_task_silent_chan [simp]:
  "list_all (\<lambda>a. \<not> sends a) as \<Longrightarrow> chan (run_task ts as w) = chan w"
proof (induction ts as w rule: run_task.induct)
  case (2 ts a as w)
  then show ?case using exec_action_follow [of ts a w] by simp
qed simp

section \<open>Measures with an outcome\<close>

text \<open>
  A measure of the world, to which an action adds a gain of its own and one that depends on what
  the channel answers, at once or through the actions it leaves to its task.
\<close>

locale outcome_measure =
  fixes ts :: "'c try_send"
    and rd :: "('c, 'z) sender_world_scheme \<Rightarrow> 'm::cancel_comm_monoid_add"
    and g :: "atomic_action \<Rightarrow> 'm"
    and out :: "atomic_action \<Rightarrow> 'c \<Rightarrow> 'm"
  assumes gained: "rd (snd (exec_action ts a w)) + sum_list (map g (fst (exec_action ts a w))) =
      rd w + g a + out a (chan w)"
    and silent: "\<not> sends a \<Longrightarrow> out a c = 0"
begin

definition due :: "atomic_action list list \<Rightarrow> 'm" where
  "due tk = sum_list (map (\<lambda>as. sum_list (map g as)) tk)"

lemma due_append [simp]: "due (tk @ tk') = due tk + due tk'"
  by (simp add: due_def)

lemma due_update:
  "i < length tk \<Longrightarrow> due (tk[i := as]) + sum_list (map g (tk ! i)) = due tk + sum_list (map g as)"
proof (induction tk arbitrary: i)
  case (Cons x tk)
  then show ?case by (cases i) (simp_all add: due_def ac_simps)
qed simp

lemma task_gain:
  assumes "i < length tk" "tk ! i = a # as" "exec_action ts a w = (as', w')"
  shows "rd w' + due (tk[i := as' @ as]) = rd w + due tk + out a (chan w)"
proof -
  have "due (tk[i := as' @ as]) + (g a + sum_list (map g as)) =
      due tk + (sum_list (map g as') + sum_list (map g as))"
    using due_update [OF assms(1), of "as' @ as"] assms(2) by simp
  then have "(due (tk[i := as' @ as]) + g a) + sum_list (map g as) =
      (due tk + sum_list (map g as')) + sum_list (map g as)"
    by (simp only: add.assoc)
  then have owe: "due (tk[i := as' @ as]) + g a = due tk + sum_list (map g as')"
    by (simp only: add_right_cancel)
  have "(rd w' + due (tk[i := as' @ as])) + (g a + sum_list (map g as')) =
      (rd w' + sum_list (map g as')) + (due (tk[i := as' @ as]) + g a)"
    by (simp only: ac_simps)
  also have "\<dots> = (rd w + g a + out a (chan w)) + (due tk + sum_list (map g as'))"
    using gained [of a w] assms(3) owe by simp
  also have "\<dots> = (rd w + due tk + out a (chan w)) + (g a + sum_list (map g as'))"
    by (simp only: ac_simps)
  finally show ?thesis by (simp only: add_right_cancel)
qed

text \<open>Run alone, a task gains what its actions do, and the outcome of its one send.\<close>

lemma run_silent:
  "list_all (\<lambda>a. \<not> sends a) as \<Longrightarrow> rd (run_task ts as w) = rd w + sum_list (map g as)"
proof (induction "sum_list (map action_weight as)" arbitrary: as w rule: less_induct)
  case less
  show ?case
  proof (cases as)
    case (Cons a bs)
    let ?x = "exec_action ts a w"
    have "rd (run_task ts (fst ?x @ bs) (snd ?x)) = rd (snd ?x) + sum_list (map g (fst ?x @ bs))"
      using less.prems exec_action_weight [of ts a w] exec_action_follow [of ts a w]
      by (intro less.hyps) (simp_all add: Cons)
    also have "\<dots> = (rd (snd ?x) + sum_list (map g (fst ?x))) + sum_list (map g bs)"
      by (simp add: add.assoc)
    also have "\<dots> = rd w + g a + sum_list (map g bs)"
      using less.prems silent [of a "chan w"] by (simp add: Cons gained)
    finally show ?thesis by (simp add: Cons add.assoc)
  qed simp
qed

lemma run_one_send:
  assumes "list_all (\<lambda>a. \<not> sends a) pre" "list_all (\<lambda>a. \<not> sends a) post"
  shows "rd (run_task ts (pre @ a # post) w) =
    rd w + sum_list (map g (pre @ a # post)) + out a (chan (run_task ts pre w))"
proof -
  let ?w = "run_task ts pre w"
  let ?x = "exec_action ts a ?w"
  have "rd (run_task ts (pre @ a # post) w) = rd (run_task ts (fst ?x @ post) (snd ?x))"
    by (simp add: run_task_append)
  also have "\<dots> = (rd (snd ?x) + sum_list (map g (fst ?x))) + sum_list (map g post)"
    using assms(2) exec_action_follow [of ts a ?w] by (simp add: run_silent add.assoc)
  also have "\<dots> = (rd w + sum_list (map g pre)) + g a + out a (chan ?w) + sum_list (map g post)"
    by (simp add: gained run_silent [OF assms(1)])
  finally show ?thesis by (simp add: ac_simps)
qed

end

section \<open>Handlers send at most once\<close>

definition send_of ::
  "('enc, 'sig) rpc_deps \<Rightarrow> (bytes \<Rightarrow> string + transaction_packet) \<Rightarrow> 'enc ingress_event \<Rightarrow>
   atomic_action option" where
  "send_of d wd e =
     (case e of
        FlushMessage \<Rightarrow> Some (TrySendSilent [])
      | _ \<Rightarrow> map_option (\<lambda>(wire, mev). TrySendPayload (encode_payload wire mev))
               (submission d wd e))"

lemma handler_sends:
  "filter sends (handler_actions d wd e) =
     (case send_of d wd e of None \<Rightarrow> [] | Some a \<Rightarrow> [a])"
  by (auto simp: send_of_def handler_actions_def json_actions_def quic_actions_def mev_actions_def
      send_actions_def submission_def encode_payload_def packet_payload_def
      split: ingress_event.split option.split sum.split list.split read_outcome.split)

lemma send_of_sends: "send_of d wd e = Some a \<Longrightarrow> sends a"
  by (auto simp: send_of_def split: ingress_event.splits)

lemma handler_shape:
  obtains (silent) "send_of d wd e = None" "list_all (\<lambda>a. \<not> sends a) (handler_actions d wd e)"
  | (sending) a pre post where "send_of d wd e = Some a" "handler_actions d wd e = pre @ a # post"
      "list_all (\<lambda>a. \<not> sends a) pre" "list_all (\<lambda>a. \<not> sends a) post"
proof (cases "send_of d wd e")
  case None
  with handler_sends [of d wd e] silent show thesis by (simp add: filter_empty_conv list_all_iff)
next
  case (Some a)
  with handler_sends [of d wd e] have "filter sends (handler_actions d wd e) = [a]" by simp
  from filter_eq_ConsD [OF this] obtain pre post where
    "handler_actions d wd e = pre @ a # post" "\<forall>x \<in> set pre. \<not> sends x" "[] = filter sends post"
    by blast
  with Some sending show thesis by (simp add: empty_filter_conv list_all_iff)
qed

lemma run_task_core:
  fixes b :: "('c, 'z) broadcaster_scheme"
  shows "same_core (run_task ts as b) (b\<lparr>chan := chan (run_task ts as b)\<rparr>)"
proof (induction ts as b rule: run_task.induct)
  case (2 ts a as b)
  then show ?case using exec_action_core [of ts a b] by (simp add: same_core_def)
qed simp

text \<open>The whole handler touches the core only by the one step of the channel.\<close>

lemma handler_core:
  fixes b :: "('c, 'z) broadcaster_scheme"
  shows "same_core (ingress_step d wd ts e b) (b\<lparr>chan :=
    (case send_of d wd e of None \<Rightarrow> chan b | Some a \<Rightarrow> chan_step ts a (chan b))\<rparr>)"
proof -
  have "chan (ingress_step d wd ts e b) =
      (case send_of d wd e of None \<Rightarrow> chan b | Some a \<Rightarrow> chan_step ts a (chan b))"
    by (auto simp: ingress_step_chan offered_def send_of_def split: ingress_event.split option.split)
  with run_task_core [of ts "handler_actions d wd e" b] show ?thesis by (simp add: run_handler)
qed

context outcome_measure
begin

definition handler_gain ::
  "('enc, 'sig) rpc_deps \<Rightarrow> (bytes \<Rightarrow> string + transaction_packet) \<Rightarrow> 'enc ingress_event \<Rightarrow> 'm" where
  "handler_gain d wd e = sum_list (map g (handler_actions d wd e))"

lemma handler_gains:
  "rd (ingress_step d wd ts e w) = rd w + handler_gain d wd e +
     (case send_of d wd e of None \<Rightarrow> 0 | Some a \<Rightarrow> out a (chan w))"
proof (cases rule: handler_shape [of d wd e])
  case silent
  then show ?thesis
    using run_silent [of "handler_actions d wd e" w] by (simp add: run_handler handler_gain_def)
next
  case (sending a pre post)
  then show ?thesis
    using run_one_send [OF sending(3,4), of a w] run_handler [of ts d wd e w]
    by (simp add: handler_gain_def)
qed

text \<open>
  A concurrent state \<open>b\<close> with tasks \<open>tk\<close> balances a sequential state \<open>c\<close> whose history lacks the
  events \<open>rest\<close>: what the tasks still owe is what these events would add.
\<close>

definition balanced ::
  "('enc, 'sig) rpc_deps \<Rightarrow> (bytes \<Rightarrow> string + transaction_packet) \<Rightarrow>
   ('c, 'z) sender_world_scheme \<Rightarrow> atomic_action list list \<Rightarrow>
   ('c, 'z) sender_world_scheme \<Rightarrow> 'enc ingress_event list \<Rightarrow> bool" where
  "balanced d wd b tk c rest \<longleftrightarrow> rd b + due tk = rd c + sum_list (map (handler_gain d wd) rest)"

lemma balanced_start: "balanced d wd b [] b []"
  by (simp add: balanced_def due_def)

lemma balanced_arrival:
  "balanced d wd b tk c rest \<Longrightarrow> balanced d wd b (tk @ [handler_actions d wd e]) c (rest @ [e])"
proof -
  have "due [handler_actions d wd e] = handler_gain d wd e" by (simp add: due_def handler_gain_def)
  moreover assume "balanced d wd b tk c rest"
  ultimately show ?thesis by (simp add: balanced_def flip: add.assoc)
qed

lemma balanced_silent:
  assumes "balanced d wd b tk c rest" "i < length tk" "tk ! i = a # as"
    "exec_action ts a b = (as', b')" "\<not> sends a"
  shows "balanced d wd b' (tk[i := as' @ as]) c rest"
  using assms(1) task_gain [OF assms(2-4)] silent [OF assms(5), of "chan b"]
  by (simp add: balanced_def)

lemma balanced_send:
  assumes "balanced d wd b tk c (r1 @ e # r2)" "i < length tk" "tk ! i = a # as"
    "exec_action ts a b = (as', b')" "send_of d wd e = Some a" "chan b = chan c"
  shows "balanced d wd b' (tk[i := as' @ as]) (ingress_step d wd ts e c) (r1 @ r2)"
proof -
  have "rd b' + due (tk[i := as' @ as]) = (rd b + due tk) + out a (chan c)"
    using task_gain [OF assms(2-4)] assms(6) by simp
  also have "\<dots> = rd c + sum_list (map (handler_gain d wd) (r1 @ e # r2)) + out a (chan c)"
    using assms(1) by (simp add: balanced_def)
  also have "\<dots> = (rd c + handler_gain d wd e + out a (chan c)) +
      sum_list (map (handler_gain d wd) (r1 @ r2))"
    by (simp add: ac_simps)
  finally show ?thesis by (simp add: balanced_def handler_gains assms(5))
qed

lemma balanced_growth:
  assumes "balanced d wd b tk c rest" "rd b1 = rd b + n" "rd c1 = rd c + n"
  shows "balanced d wd b1 tk c1 rest"
proof -
  have "rd b1 + due tk = (rd b + due tk) + n" by (simp add: assms(2) ac_simps)
  also have "\<dots> = (rd c + sum_list (map (handler_gain d wd) rest)) + n"
    using assms(1) by (simp add: balanced_def)
  finally show ?thesis by (simp add: balanced_def assms(3) ac_simps)
qed

text \<open>When all tasks have ended, what is left of the history gains nothing from the channel.\<close>

lemma balanced_drained:
  assumes "balanced d wd b tk c rest" "\<forall>as \<in> set tk. as = []"
    and "List.map_filter (send_of d wd) rest = []"
  shows "rd b = rd (fold (ingress_step d wd ts) rest c)"
proof -
  have "due tk = 0" using assms(2) unfolding due_def by (induction tk) simp_all
  moreover have "rd (fold (ingress_step d wd ts) rest c) =
      rd c + sum_list (map (handler_gain d wd) rest)"
    using assms(3)
    by (induction rest arbitrary: c)
       (simp_all add: List.map_filter_simps handler_gains add.assoc split: option.splits)
  ultimately show ?thesis using assms(1) by (simp add: balanced_def)
qed

end

section \<open>The measures\<close>

fun stat_gain :: "stat_key \<Rightarrow> atomic_action \<Rightarrow> u64" where
  "stat_gain k (AddStat k' n) = only k' n k"
| "stat_gain k _ = 0"

fun stat_outcome :: "'c try_send \<Rightarrow> stat_key \<Rightarrow> atomic_action \<Rightarrow> 'c \<Rightarrow> u64" where
  "stat_outcome ts k (TrySendPayload m) c =
     only (if isl (fst (ts m c)) then TpuDropped else TpuEnqueued) 1 k"
| "stat_outcome ts k _ c = 0"

fun metric_gain :: "atomic_action \<Rightarrow> metric multiset" where
  "metric_gain (EmitMetric m) = {#m#}"
| "metric_gain _ = {#}"

fun metric_outcome :: "'c try_send \<Rightarrow> atomic_action \<Rightarrow> 'c \<Rightarrow> metric multiset" where
  "metric_outcome ts (TrySendPayload m) c =
     (case fst (ts m c) of
        Inl e \<Rightarrow> {#send_err_metric e#}
      | Inr _ \<Rightarrow> {#CounterInc ''iris_tx_send_to_tpu_client_success'' [] 1#})"
| "metric_outcome ts _ c = {#}"

interpretation stats: outcome_measure ts "counter k" "stat_gain k" "stat_outcome ts k" for ts k
proof
  fix a and w :: "('a, 'b) sender_world_scheme"
  show "counter k (snd (exec_action ts a w)) +
      sum_list (map (stat_gain k) (fst (exec_action ts a w))) =
    counter k w + stat_gain k a + stat_outcome ts k a (chan w)"
    by (cases "(ts, a, w)" rule: exec_action.cases)
       (auto simp: Let_def split: prod.split sum.split simp del: add_stat.simps)
  show "\<not> sends a \<Longrightarrow> stat_outcome ts k a c = 0" for c by (cases a) simp_all
qed

interpretation recorded: outcome_measure ts "\<lambda>w. mset (metrics w)" metric_gain "metric_outcome ts"
  for ts
proof
  fix a and w :: "('a, 'b) sender_world_scheme"
  show "mset (metrics (snd (exec_action ts a w))) +
      sum_list (map metric_gain (fst (exec_action ts a w))) =
    mset (metrics w) + metric_gain a + metric_outcome ts a (chan w)"
    by (cases "(ts, a, w)" rule: exec_action.cases)
       (auto simp: Let_def split: prod.split sum.split simp del: add_stat.simps)
  show "\<not> sends a \<Longrightarrow> metric_outcome ts a c = {#}" for c by (cases a) simp_all
qed

section \<open>Sequential histories\<close>

text \<open>The front-end events of a history.\<close>

definition fronts :: "'enc system_event list \<Rightarrow> 'enc ingress_event list" where
  "fronts hs = List.map_filter (\<lambda>h. case h of FrontEnd e \<Rightarrow> Some e | _ \<Rightarrow> None) hs"

lemma fronts_simps [simp]:
  "fronts [] = []" "fronts (hs @ hs') = fronts hs @ fronts hs'"
  "fronts [FrontEnd e] = [e]" "fronts [Deliver leaders] = []" "fronts [RefreshRound r] = []"
  by (simp_all add: fronts_def List.map_filter_simps)

lemma fronts_map [simp]: "fronts (map FrontEnd es) = es"
  by (induction es) (simp_all add: fronts_def List.map_filter_simps)

definition pending_sends :: "atomic_action list list \<Rightarrow> atomic_action multiset" where
  "pending_sends tk = mset (concat (map (filter sends) tk))"

lemma pending_sends_update:
  "i < length tk \<Longrightarrow> pending_sends (tk[i := as]) + mset (filter sends (tk ! i)) =
     pending_sends tk + mset (filter sends as)"
proof (induction tk arbitrary: i)
  case (Cons x tk)
  then show ?case by (cases i) (simp_all add: pending_sends_def ac_simps)
qed simp

lemma pending_sends_move:
  assumes "i < length tk" "tk ! i = a # as" "exec_action ts a b = (as', b')"
  shows "pending_sends tk = pending_sends (tk[i := as' @ as]) + (if sends a then {#a#} else {#})"
proof -
  have "filter sends as' = []"
    using exec_action_follow [of ts a b] assms(3) by (simp add: filter_empty_conv list_all_iff)
  with pending_sends_update [OF assms(1), of "as' @ as"] assms(2) show ?thesis
    by (auto split: if_splits)
qed

text \<open>
  A sequential history explains a concurrent state: it ends with the same records, the same
  worker cache and the same core, and the events it lacks are those whose send is pending or
  that have none.
\<close>

definition explains ::
  "('enc, 'sig) rpc_deps \<Rightarrow> (bytes \<Rightarrow> string + transaction_packet) \<Rightarrow> 'c try_send \<Rightarrow>
   ('c \<Rightarrow> (bytes \<times> 'c) option) \<Rightarrow> ('w, 'k) workers_api \<Rightarrow> 'w \<Rightarrow> 'c sender_world \<Rightarrow>
   'enc system_event list \<Rightarrow> 'enc ingress_event list \<Rightarrow> 'c broadcaster \<Rightarrow>
   ('enc, 'c, 'w, 'k) concurrent_state \<Rightarrow> bool" where
  "explains d wd ts recv api w w0 hs rest c s \<longleftrightarrow>
     (case s of (es, tk, recs, w', b) \<Rightarrow>
        (\<exists>acc. system_run d wd ts recv api hs w w0 = (acc, recs, w', c)) \<and> same_core b c \<and>
        mset es = mset (fronts hs) + mset rest \<and>
        pending_sends tk = mset (List.map_filter (send_of d wd) rest) \<and>
        (\<forall>k. stats.balanced k d wd b tk c rest) \<and> recorded.balanced d wd b tk c rest)"

lemma explains_action:
  assumes ex: "explains d wd ts recv api w w0 hs rest c (es, tk, recs, w', b)"
    and act: "i < length tk" "tk ! i = a # as" "exec_action ts a b = (as', b')"
  shows "\<exists>hs rest c. explains d wd ts recv api w w0 hs rest c (es, tk[i := as' @ as], recs, w', b')"
proof (cases "sends a")
  case False
  have "same_core b' c"
    using exec_action_core [of ts a b] ex act(3) False by (simp add: explains_def same_core_def)
  moreover have "stats.balanced k d wd b' (tk[i := as' @ as]) c rest" for k
    using ex by (intro stats.balanced_silent [OF _ act False]) (simp add: explains_def)
  moreover have "recorded.balanced d wd b' (tk[i := as' @ as]) c rest"
    using ex by (intro recorded.balanced_silent [OF _ act False]) (simp add: explains_def)
  ultimately show ?thesis
    using ex pending_sends_move [OF act] False
    by (intro exI [of _ hs] exI [of _ rest] exI [of _ c]) (simp add: explains_def)
next
  case True
  have pend: "pending_sends tk = mset (List.map_filter (send_of d wd) rest)"
    using ex by (simp add: explains_def)
  have "a \<in># pending_sends tk" using pending_sends_move [OF act] True by simp
  then obtain e where "e \<in> set rest" "send_of d wd e = Some a"
    unfolding pend by (auto simp: List.map_filter_def)
  then obtain r1 r2 where rest: "rest = r1 @ e # r2" and e: "send_of d wd e = Some a"
    by (metis split_list)
  obtain acc where run: "system_run d wd ts recv api hs w w0 = (acc, recs, w', c)"
    using ex by (auto simp: explains_def)
  have core: "same_core b c" using ex by (simp add: explains_def)
  have "same_core b' (ingress_step d wd ts e c)"
    using exec_action_core [of ts a b] handler_core [of d wd ts e c] act(3) core e
    by (simp add: same_core_def)
  moreover have "\<exists>acc. system_run d wd ts recv api (hs @ [FrontEnd e]) w w0 =
      (acc, recs, w', ingress_step d wd ts e c)"
    by (simp add: system_run_steps run system_step_def)
  moreover have "pending_sends (tk[i := as' @ as]) = mset (List.map_filter (send_of d wd) (r1 @ r2))"
    using pending_sends_move [OF act] True pend e by (simp add: rest List.map_filter_simps)
  moreover have "stats.balanced k d wd b' (tk[i := as' @ as]) (ingress_step d wd ts e c) (r1 @ r2)"
    for k
    using ex by (intro stats.balanced_send [OF _ act e same_coreD(1) [OF core]])
      (simp add: explains_def rest)
  moreover have "recorded.balanced d wd b' (tk[i := as' @ as]) (ingress_step d wd ts e c) (r1 @ r2)"
    using ex by (intro recorded.balanced_send [OF _ act e same_coreD(1) [OF core]])
      (simp add: explains_def rest)
  moreover have "mset es = mset (fronts (hs @ [FrontEnd e])) + mset (r1 @ r2)"
    using ex by (simp add: explains_def rest)
  ultimately show ?thesis
    by (intro exI [of _ "hs @ [FrontEnd e]"] exI [of _ "r1 @ r2"]
        exI [of _ "ingress_step d wd ts e c"]) (simp add: explains_def)
qed

lemma explains_arrival:
  assumes "explains d wd ts recv api w w0 hs rest c (es, tk, recs, w', b)"
  shows "explains d wd ts recv api w w0 hs (rest @ [e]) c
    (es @ [e], tk @ [handler_actions d wd e], recs, w', b)"
proof -
  have "pending_sends (tk @ [handler_actions d wd e]) =
      pending_sends tk + mset (List.map_filter (send_of d wd) [e])"
    using handler_sends [of d wd e]
    by (simp add: pending_sends_def List.map_filter_simps split: option.splits)
  moreover have "stats.balanced k d wd b (tk @ [handler_actions d wd e]) c (rest @ [e])" for k
    using assms by (intro stats.balanced_arrival) (simp add: explains_def)
  moreover have "recorded.balanced d wd b (tk @ [handler_actions d wd e]) c (rest @ [e])"
    using assms by (intro recorded.balanced_arrival) (simp add: explains_def)
  ultimately show ?thesis using assms by (simp add: explains_def)
qed

lemma explains_same_growth:
  assumes ex: "explains d wd ts recv api w w0 hs rest c (es, tk, recs, w', b)"
    and run: "system_run d wd ts recv api (hs @ hs') w w0 = (acc, recs1, w1, c1)"
    and none: "fronts hs' = []"
    and core: "same_core b1 c1" and grow: "same_growth b b1 c c1"
  shows "explains d wd ts recv api w w0 (hs @ hs') rest c1 (es, tk, recs1, w1, b1)"
proof -
  have "stats.balanced k d wd b1 tk c1 rest" for k
  proof -
    obtain n where "counter k b1 = counter k b + n" "counter k c1 = counter k c + n"
      using grow by (auto simp: same_growth_def)
    moreover have "stats.balanced k d wd b tk c rest" using ex by (simp add: explains_def)
    ultimately show ?thesis by (rule stats.balanced_growth [rotated])
  qed
  moreover have "recorded.balanced d wd b1 tk c1 rest"
  proof -
    obtain ms where "metrics b1 = metrics b @ ms" "metrics c1 = metrics c @ ms"
      using grow by (auto simp: same_growth_def)
    then have "mset (metrics b1) = mset (metrics b) + mset ms"
      "mset (metrics c1) = mset (metrics c) + mset ms" by simp_all
    moreover have "recorded.balanced d wd b tk c rest" using ex by (simp add: explains_def)
    ultimately show ?thesis by (rule recorded.balanced_growth [rotated])
  qed
  ultimately show ?thesis using ex run none core by (simp add: explains_def)
qed

lemma explains_delivery:
  assumes ex: "explains d wd ts recv api w w0 hs rest c (es, tk, recs, w', b)"
    and recv: "recv (chan b) = Some (m, ch)"
    and step: "broadcaster_step api (Message leaders m) (recs, w', b\<lparr>chan := ch\<rparr>) = (recs1, w1, b1)"
  shows "\<exists>c1. explains d wd ts recv api w w0 (hs @ [Deliver leaders]) rest c1 (es, tk, recs1, w1, b1)"
proof -
  obtain acc where run: "system_run d wd ts recv api hs w w0 = (acc, recs, w', c)"
    using ex by (auto simp: explains_def)
  have core: "same_core b c" using ex by (simp add: explains_def)
  have "\<not> buffer_poisoned c"
    using system_run_queue_inv [of d wd ts recv api hs w w0] run by (simp add: queue_inv_def)
  then have np: "\<not> buffer_poisoned (b\<lparr>chan := ch\<rparr>)" using core by (simp add: same_core_def)
  have core': "same_core (b\<lparr>chan := ch\<rparr>) (c\<lparr>chan := ch\<rparr>)" using core by (simp add: same_core_def)
  obtain recs2 w2 c1 where
    stepc: "broadcaster_step api (Message leaders m) (recs, w', c\<lparr>chan := ch\<rparr>) = (recs2, w2, c1)"
    by (rule prod_cases3)
  have same: "recs1 = recs2" "w1 = w2" "same_core b1 c1"
      "same_growth (b\<lparr>chan := ch\<rparr>) b1 (c\<lparr>chan := ch\<rparr>) c1"
    using broadcaster_message_same_core [OF core' np step stepc] by simp_all
  have "counter k (x\<lparr>chan := ch\<rparr>) = counter k x" for k and x :: "'c broadcaster"
    by (cases k) simp_all
  then have "same_growth b b1 c c1" using same(4) by (simp add: same_growth_def)
  moreover have "recv (chan c) = Some (m, ch)" using recv core by (simp add: same_core_def)
  then have "system_run d wd ts recv api (hs @ [Deliver leaders]) w w0 = (acc, recs1, w1, c1)"
    by (simp add: system_run_steps run system_step_def stepc same)
  ultimately show ?thesis
    using explains_same_growth [OF ex] same(3) by (intro exI [of _ c1]) simp
qed

lemma explains_refresh:
  assumes ex: "explains d wd ts recv api w w0 hs rest c (es, tk, recs, w', b)"
  shows "explains d wd ts recv api w w0 (hs @ [RefreshRound r]) rest (refresh_step r c)
    (es, tk, recs, w', refresh_step r b)"
proof -
  obtain acc where run: "system_run d wd ts recv api hs w w0 = (acc, recs, w', c)"
    using ex by (auto simp: explains_def)
  have "system_run d wd ts recv api (hs @ [RefreshRound r]) w w0 = (acc, recs, w', refresh_step r c)"
    by (simp add: system_run_steps run system_step_def broadcaster_step_def)
  moreover have "same_core (refresh_step r b) (refresh_step r c)"
    using ex by (intro refresh_same_core) (simp add: explains_def)
  moreover have "same_growth b (refresh_step r b) c (refresh_step r c)"
    by (simp add: same_growth_def)
  ultimately show ?thesis using explains_same_growth [OF ex] by simp
qed

lemma reachable_explained:
  assumes "concurrent_reach d wd ts recv api w w0 s"
  shows "\<exists>hs rest c. explains d wd ts recv api w w0 hs rest c s"
  using assms
proof (induction rule: rtranclp_induct)
  case base
  show ?case
    by (intro exI [of _ "[]"] exI [of _ "MevProtectedBroadcaster_run w0"])
       (simp add: explains_def system_run_def pending_sends_def List.map_filter_simps
         stats.balanced_start recorded.balanced_start)
next
  case (step s s')
  then obtain hs rest c where ex: "explains d wd ts recv api w w0 hs rest c s" by blast
  from step.hyps(2) show ?case
  proof cases
    case (arrival es tk recs w' b e)
    from explains_arrival [OF ex [unfolded arrival(1)]] show ?thesis
      unfolding arrival(2) by (intro exI)
  next
    case (action i tk a as b as' b' es recs w')
    from explains_action [OF ex [unfolded action(1)] action(3-5)] show ?thesis
      unfolding action(2) .
  next
    case (delivery b m ch leaders recs w' recs' w1 b' es tk)
    from explains_delivery [OF ex [unfolded delivery(1)] delivery(3,4)] obtain c1 where
      "explains d wd ts recv api w w0 (hs @ [Deliver leaders]) rest c1 (es, tk, recs', w1, b')" ..
    then show ?thesis unfolding delivery(2) by (intro exI)
  next
    case (refresh es tk recs w' b r)
    from explains_refresh [OF ex [unfolded refresh(1)], of r] show ?thesis
      unfolding refresh(2) by (intro exI)
  qed
qed

section \<open>Sequential runs are concurrent runs\<close>

lemma task_runs_alone:
  fixes b :: "'c broadcaster"
  shows "(concurrent_step d wd ts recv api)\<^sup>*\<^sup>* (es, tk @ [as], recs, w, b)
    (es, tk @ [[]], recs, w, run_task ts as b)"
proof (induction ts as b rule: run_task.induct)
  case (2 ts a as b)
  have "concurrent_step d wd ts recv api (es, tk @ [a # as], recs, w, b)
      (es, tk @ [fst (exec_action ts a b) @ as], recs, w, snd (exec_action ts a b))"
    using concurrent_step.action [of "length tk" "tk @ [a # as]" a as ts b
        "fst (exec_action ts a b)" "snd (exec_action ts a b)" d wd recv api es recs w]
    by simp
  from converse_rtranclp_into_rtranclp [OF this 2] show ?case by simp
qed simp

lemma system_step_reachable:
  assumes "system_step d wd ts recv api h (acc, recs, w, b) = (acc', recs', w', b')"
  shows "(concurrent_step d wd ts recv api)\<^sup>*\<^sup>* (es, tk, recs, w, b)
    (es @ fronts [h], tk @ map (\<lambda>_. []) (fronts [h]), recs', w', b')"
proof (cases h)
  case (FrontEnd e)
  have "concurrent_step d wd ts recv api (es, tk, recs, w, b)
      (es @ [e], tk @ [handler_actions d wd e], recs, w, b)" by (rule concurrent_step.arrival)
  from converse_rtranclp_into_rtranclp [OF this task_runs_alone] FrontEnd assms show ?thesis
    by (simp add: system_step_def run_handler)
next
  case (Deliver leaders)
  show ?thesis
  proof (cases "recv (chan b)")
    case None
    with Deliver assms show ?thesis by (simp add: system_step_def)
  next
    case (Some mc)
    obtain m c where "mc = (m, c)" by (cases mc)
    with Some Deliver assms show ?thesis
      by (auto simp: system_step_def intro!: r_into_rtranclp concurrent_step.delivery)
  qed
next
  case (RefreshRound r)
  with assms show ?thesis
    by (auto simp: system_step_def broadcaster_step_def
        intro!: r_into_rtranclp concurrent_step.refresh)
qed

lemma sequential_runs_reachable:
  "system_run d wd ts recv api hs w w0 = (acc, recs, w', b) \<Longrightarrow>
     concurrent_reach d wd ts recv api w w0 (fronts hs, map (\<lambda>_. []) (fronts hs), recs, w', b)"
proof (induction hs arbitrary: acc recs w' b rule: rev_induct)
  case Nil
  then show ?case by (simp add: system_run_def)
next
  case (snoc h hs)
  obtain acc1 recs1 w1 b1 where run: "system_run d wd ts recv api hs w w0 = (acc1, recs1, w1, b1)"
    by (rule prod_cases4)
  have "system_step d wd ts recv api h (acc1, recs1, w1, b1) = (acc, recs, w', b)"
    using snoc.prems by (simp add: system_run_steps run)
  from rtranclp_trans [OF snoc.IH [OF run] system_step_reachable [OF this]] show ?case by simp
qed

section \<open>Properties\<close>

lemma silent_events_core:
  "List.map_filter (send_of d wd) rest = [] \<Longrightarrow>
     same_core c (fold (ingress_step d wd ts) rest c)"
proof (induction rest arbitrary: c)
  case (Cons e rest)
  from Cons.prems have "send_of d wd e = None" "List.map_filter (send_of d wd) rest = []"
    by (simp_all add: List.map_filter_simps split: option.splits)
  with Cons.IH [of "ingress_step d wd ts e c"] handler_core [of d wd ts e c] show ?case
    by (simp add: same_core_def)
qed simp

lemma run_front_events:
  assumes "system_run d wd ts recv api hs w w0 = (acc, recs, w', c)"
  shows "\<exists>acc'. system_run d wd ts recv api (hs @ map FrontEnd es) w w0 =
    (acc', recs, w', fold (ingress_step d wd ts) es c)"
proof -
  have "\<exists>acc'. fold (system_step d wd ts recv api) (map FrontEnd es) (acc, recs, w', c) =
      (acc', recs, w', fold (ingress_step d wd ts) es c)"
    by (induction es arbitrary: acc c) (simp_all add: system_step_def)
  then show ?thesis by (simp add: system_run_steps assms)
qed

text \<open>Once all tasks have ended, the events still missing from the history change nothing but counts.\<close>

lemma drained_explained:
  assumes "concurrent_reach d wd ts recv api w w0 (es, tk, recs, w', b)" "\<forall>as \<in> set tk. as = []"
  shows "\<exists>hs acc c. system_run d wd ts recv api hs w w0 = (acc, recs, w', c) \<and>
    mset (fronts hs) = mset es \<and> same_core b c \<and>
    (\<forall>k. counter k b = counter k c) \<and> mset (metrics b) = mset (metrics c)"
proof -
  obtain hs rest c where ex: "explains d wd ts recv api w w0 hs rest c (es, tk, recs, w', b)"
    using reachable_explained [OF assms(1)] by blast
  obtain acc where run: "system_run d wd ts recv api hs w w0 = (acc, recs, w', c)"
    using ex by (auto simp: explains_def)
  have all: "mset es = mset (fronts hs) + mset rest" and core: "same_core b c"
    using ex by (simp_all add: explains_def)
  have "pending_sends tk = {#}" using assms(2) by (fastforce simp: pending_sends_def)
  then have none: "List.map_filter (send_of d wd) rest = []" using ex by (simp add: explains_def)
  let ?c = "fold (ingress_step d wd ts) rest c"
  obtain acc' where "system_run d wd ts recv api (hs @ map FrontEnd rest) w w0 = (acc', recs, w', ?c)"
    using run_front_events [OF run, of rest] by blast
  moreover have "same_core b ?c"
    using core silent_events_core [OF none, of c ts] by (simp add: same_core_def)
  moreover have "counter k b = counter k ?c" for k
    using ex by (intro stats.balanced_drained [OF _ assms(2) none]) (simp add: explains_def)
  moreover have "mset (metrics b) = mset (metrics ?c)"
    using ex by (intro recorded.balanced_drained [OF _ assms(2) none]) (simp add: explains_def)
  ultimately show ?thesis
    using all by (intro exI [of _ "hs @ map FrontEnd rest"] exI [of _ acc'] exI [of _ ?c]) simp
qed

text \<open>
  C4: every concurrent run of the system has a sequential explanation. However the tasks of the
  front ends, the deliveries and the refreshes interleave, there is a history of whole handlers,
  deliveries and refreshes with exactly the same deliveries, made of events that have arrived,
  each at most once, after which the worker cache, the channel, the buffer, the blocked leaders
  and the reported buffer size are the same. Once all tasks have ended, there is one that
  consists of all the events that arrived and also agrees on every statistic and, up to their
  order, on the metrics recorded.
\<close>

theorem concurrent_runs_linearise:
  assumes "concurrent_reach d wd ts recv api w w0 (es, tk, recs, w', b)"
  shows "(\<exists>hs acc c. system_run d wd ts recv api hs w w0 = (acc, recs, w', c) \<and>
      mset (fronts hs) \<subseteq># mset es \<and> same_core b c) \<and>
    ((\<forall>as \<in> set tk. as = []) \<longrightarrow>
      (\<exists>hs acc c. system_run d wd ts recv api hs w w0 = (acc, recs, w', c) \<and>
        mset (fronts hs) = mset es \<and> same_core b c \<and>
        (\<forall>k. counter k b = counter k c) \<and> mset (metrics b) = mset (metrics c)))"
proof -
  obtain hs rest c where ex: "explains d wd ts recv api w w0 hs rest c (es, tk, recs, w', b)"
    using reachable_explained [OF assms] by blast
  obtain acc where run: "system_run d wd ts recv api hs w w0 = (acc, recs, w', c)"
    using ex by (auto simp: explains_def)
  have all: "mset es = mset (fronts hs) + mset rest" and core: "same_core b c"
    using ex by (simp_all add: explains_def)
  have "mset (fronts hs) \<subseteq># mset es" using all by simp
  with run core drained_explained [OF assms] show ?thesis by blast
qed

text \<open>A blocked window that is handed an unprotected transaction.\<close>

abbreviation sample_blocked_history :: "unit system_event list" where
  "sample_blocked_history \<equiv>
     [RefreshRound (Refreshed (Ok [addr_n 2])), FrontEnd (QuicStream 1 1 (ReadOk [9])),
      Deliver [addr_n 2]]"

abbreviation sample_reach ::
  "(unit, bytes list, unit, unit) concurrent_state \<Rightarrow> bool" where
  "sample_reach s \<equiv> concurrent_reach sample_rpc sample_packet sample_send sample_recv null_api ()
     empty_world s"

lemma sample_blocked_reach:
  obtains recs b where
    "sample_reach ([QuicStream 1 1 (ReadOk [9])], [[]], recs, (), b)"
    "hd recs \<in> set recs" "addr_n 2 \<in> set (sr_leaders (hd recs))"
    "addr_n 2 \<in> sr_blocked (hd recs)" "TrySend (addr_n 2) [9] \<in> set (sr_calls (hd recs))"
proof -
  let ?run = "system_run sample_rpc sample_packet sample_send sample_recv
    (null_api :: (unit, unit) workers_api) sample_blocked_history () empty_world"
  obtain acc recs w b where run: "?run = (acc, recs, w, b)" by (rule prod_cases4)
  have "hd recs \<in> set recs \<and> addr_n 2 \<in> set (sr_leaders (hd recs)) \<and>
      addr_n 2 \<in> sr_blocked (hd recs) \<and> TrySend (addr_n 2) [9] \<in> set (sr_calls (hd recs))"
    using run by (auto simp: sample_system_eval Let_def TpuClientPayload_decode_def)
  moreover have "fronts sample_blocked_history = [QuicStream 1 1 (ReadOk [9])]"
    by (simp add: fronts_def List.map_filter_simps)
  ultimately show thesis using that sequential_runs_reachable [OF run] by simp
qed

theorem concurrent_runs_linearise_witness:
  "\<exists>hs acc c recs b. sample_reach ([QuicStream 1 1 (ReadOk [9])], [[]], recs, (), b) \<and>
     system_run sample_rpc sample_packet sample_send sample_recv null_api hs () empty_world =
       (acc, recs, (), c) \<and>
     mset (fronts hs) = {#QuicStream 1 1 (ReadOk [9])#} \<and> recs \<noteq> [] \<and>
     counter TpuEnqueued b = counter TpuEnqueued c"
proof (rule sample_blocked_reach)
  fix recs :: "unit send_record list" and b
  assume reach: "sample_reach ([QuicStream 1 1 (ReadOk [9])], [[]], recs, (), b)"
    and "hd recs \<in> set recs"
  then have "recs \<noteq> []" by auto
  with reach concurrent_runs_linearise [OF reach] show ?thesis by fastforce
qed

text \<open>
  C7: the protection holds under concurrency. However handlers, deliveries and refreshes
  interleave, a delivery whose window held a leader that was blocked at that moment transmitted
  at most the unprotected transaction of its own message.
\<close>

theorem concurrent_runs_protect:
  assumes "concurrent_reach d wd ts recv api w w0 (es, tk, recs, w', b)"
    and "r \<in> set recs" "l \<in> set (sr_leaders r)" "l \<in> sr_blocked r" "TrySend a t \<in> set (sr_calls r)"
  shows "\<exists>p. TpuClientPayload_decode (sr_message r) = Some p \<and>
    \<not> is_mev_protected p \<and> wire_transaction p = Some t"
proof -
  obtain hs rest c where "explains d wd ts recv api w w0 hs rest c (es, tk, recs, w', b)"
    using reachable_explained [OF assms(1)] by blast
  then obtain acc where "system_run d wd ts recv api hs w w0 = (acc, recs, w', c)"
    by (auto simp: explains_def)
  then have "queue_inv [] (recs, w', c)"
    using system_run_queue_inv [of d wd ts recv api hs w w0] by simp
  from queue_inv_blocked [OF this assms(2-5)] show ?thesis .
qed

theorem concurrent_runs_protect_witness:
  "\<exists>recs b p. sample_reach ([QuicStream 1 1 (ReadOk [9])], [[]], recs, (), b) \<and>
     TpuClientPayload_decode (sr_message (hd recs)) = Some p \<and> wire_transaction p = Some [9] \<and>
     \<not> is_mev_protected p"
proof (rule sample_blocked_reach)
  fix recs :: "unit send_record list" and b
  assume r: "sample_reach ([QuicStream 1 1 (ReadOk [9])], [[]], recs, (), b)"
    "hd recs \<in> set recs" "addr_n 2 \<in> set (sr_leaders (hd recs))"
    "addr_n 2 \<in> sr_blocked (hd recs)" "TrySend (addr_n 2) [9] \<in> set (sr_calls (hd recs))"
  from concurrent_runs_protect [OF r] r(1) show ?thesis by blast
qed

end
