(* ===== verification/Draining.thy ===== *)
theory Draining
  imports Linearisation
begin

text \<open>
  The front ends by themselves. Interleaved tasks on the shared statistics and the channel are
  a concurrent run of \<open>Linearisation\<close> in which nothing is delivered, seen through the part of
  the broadcaster's state they touch; so what they leave behind once they have ended is what
  the handlers would have left, one after the other.
\<close>

section \<open>The part of the world the tasks touch\<close>

lemma counter_truncate [simp]: "counter k (sender_world.truncate b) = counter k b"
  by (cases b; cases k) (simp_all add: sender_world.truncate_def counter.simps)

lemma truncate_reads [simp]:
  "chan (sender_world.truncate b) = chan b" "metrics (sender_world.truncate b) = metrics b"
  by (simp_all add: sender_world.truncate_def)

lemma truncate_start [simp]: "sender_world.truncate (MevProtectedBroadcaster_run w0) = w0"
  by (simp add: MevProtectedBroadcaster_run_def sender_world.defs)

lemma truncate_add_stat: "add_stat k n (sender_world.truncate b) = sender_world.truncate (add_stat k n b)"
  by (cases b; cases k)
     (simp_all only: sender_world.truncate_def sender_world.simps globals.simps statics.simps
       add_stat.simps)

lemma truncate_updates:
  "emit m (sender_world.truncate b) = sender_world.truncate (emit m b)"
  "(sender_world.truncate b)\<lparr>chan := c\<rparr> = sender_world.truncate (b\<lparr>chan := c\<rparr>)"
  by (simp_all add: sender_world.truncate_def emit_def)

lemma truncate_exec:
  "exec_action ts a (sender_world.truncate b) =
     (fst (exec_action ts a b), sender_world.truncate (snd (exec_action ts a b)))"
  by (cases "(ts, a, b)" rule: exec_action.cases)
     (auto simp: truncate_add_stat truncate_updates Let_def simp del: add_stat.simps split: prod.split)

lemma truncate_run_task:
  "run_task ts as (sender_world.truncate b) = sender_world.truncate (run_task ts as b)"
  by (induction ts as b rule: run_task.induct) (simp_all add: truncate_exec)

lemma truncate_ingress:
  "ingress_step d wd ts e (sender_world.truncate b) =
     sender_world.truncate (ingress_step d wd ts e b)"
  using truncate_run_task [of ts "handler_actions d wd e" b] by (simp add: run_handler)

lemma truncate_refresh [simp]: "sender_world.truncate (refresh_step r b) = sender_world.truncate b"
  by (auto simp: refresh_step_def sender_world.truncate_def
      split: refresh_event.split rust_result.split)

section \<open>Tasks are a concurrent run without deliveries\<close>

lemma tasks_concurrent:
  assumes "tasks_reach d wd ts w0 (es, tk, w)"
  shows "\<exists>b. sender_world.truncate b = w \<and>
    concurrent_reach d wd ts (\<lambda>_. None) null_api () w0 (es, tk, [], (), b)"
  using assms
proof (induction "(es, tk, w)" arbitrary: es tk w rule: rtranclp_induct)
  case base
  show ?case by (intro exI [of _ "MevProtectedBroadcaster_run w0"]) simp
next
  case (step s)
  from step.hyps(2) show ?case
  proof cases
    case (arrive es1 tk1 e)
    with step.hyps(3) obtain b where b: "sender_world.truncate b = w"
        "concurrent_reach d wd ts (\<lambda>_. None) null_api () w0 (es1, tk1, [], (), b)"
      by blast
    from rtranclp.rtrancl_into_rtrancl [OF this(2) concurrent_step.arrival] arrive b(1)
    show ?thesis by blast
  next
    case (run tk1 w1)
    then obtain b where b: "sender_world.truncate b = w1"
        "concurrent_reach d wd ts (\<lambda>_. None) null_api () w0 (es, tk1, [], (), b)"
      using step.hyps(3) by blast
    from run(2) obtain i a as where move: "i < length tk1" "tk1 ! i = a # as"
        "tk = tk1[i := fst (exec_action ts a w1) @ as]" "w = snd (exec_action ts a w1)"
      by (rule task_moveE)
    have same: "fst (exec_action ts a w1) = fst (exec_action ts a b)"
        "w = sender_world.truncate (snd (exec_action ts a b))"
      using truncate_exec [of ts a b] b(1) move(4) by simp_all
    have "concurrent_step d wd ts (\<lambda>_. None) null_api (es, tk1, [], (), b)
        (es, tk, [], (), snd (exec_action ts a b))"
      unfolding move(3) same(1) by (rule concurrent_step.action [OF move(1,2)]) simp
    from rtranclp.rtrancl_into_rtrancl [OF b(2) this] same(2) show ?thesis by blast
  qed
qed

lemma undelivered_run:
  "sender_world.truncate (snd (snd (snd (system_run d wd ts (\<lambda>_. None) api hs w w0)))) =
     fold (ingress_step d wd ts) (fronts hs) w0"
proof (induction hs rule: rev_induct)
  case Nil
  show ?case by (simp add: system_run_def)
next
  case (snoc h hs)
  obtain acc recs w' b where run: "system_run d wd ts (\<lambda>_. None) api hs w w0 = (acc, recs, w', b)"
    by (rule prod_cases4)
  with snoc show ?case
    by (cases h) (simp_all add: system_run_steps system_step_def broadcaster_step_def
        truncate_ingress [symmetric])
qed

text \<open>What the tasks leave behind when they have ended.\<close>

lemma drained_tasks:
  assumes "tasks_reach d wd ts w0 (es, tk, w)" "\<forall>as \<in> set tk. as = []"
  shows "\<exists>es'. mset es' = mset es \<and>
    (let v = fold (ingress_step d wd ts) es' w0 in
       (\<forall>k. counter k w = counter k v) \<and> chan w = chan v \<and> mset (metrics w) = mset (metrics v))"
proof -
  obtain b where b: "sender_world.truncate b = w"
      "concurrent_reach d wd ts (\<lambda>_. None) null_api () w0 (es, tk, [], (), b)"
    using tasks_concurrent [OF assms(1)] by blast
  obtain hs acc c where run: "system_run d wd ts (\<lambda>_. None) null_api hs () w0 = (acc, [], (), c)"
    and all: "mset (fronts hs) = mset es" and core: "same_core b c"
    and same: "\<forall>k. counter k b = counter k c" "mset (metrics b) = mset (metrics c)"
    using drained_explained [OF b(2) assms(2)] by blast
  have v: "sender_world.truncate c = fold (ingress_step d wd ts) (fronts hs) w0"
    using undelivered_run [of d wd ts null_api hs "()" w0] run by simp
  have "counter k w = counter k (sender_world.truncate c)" for k
    using same(1) by (simp flip: b(1))
  moreover have "chan w = chan (sender_world.truncate c)"
    using core by (simp add: same_core_def flip: b(1))
  moreover have "mset (metrics w) = mset (metrics (sender_world.truncate c))"
    using same(2) by (simp flip: b(1))
  ultimately show ?thesis
    using all by (intro exI [of _ "fronts hs"]) (simp add: Let_def v)
qed

section \<open>Properties\<close>

text \<open>
  C13: the tasks always finish, and add up. From any reachable state, and whatever the order in
  which the tasks move, no run of moves is longer than the work left; the tasks can always be
  run to their end, and a run that cannot go on has ended them all. Then there is an order of
  the events that arrived such that the handlers, run one after the other in this order, leave
  exactly the same statistics, the same channel and, up to their order, the same metrics.
\<close>

theorem tasks_drain:
  assumes "tasks_reach d wd ts w0 (es, tk, w)"
  shows "(\<forall>n tk' w'. (task_move ts ^^ n) (tk, w) (tk', w') \<longrightarrow> n \<le> work tk) \<and>
    (\<exists>tk' w'. (task_move ts)\<^sup>*\<^sup>* (tk, w) (tk', w') \<and> (\<nexists>s. task_move ts (tk', w') s)) \<and>
    (\<forall>tk' w'. (task_move ts)\<^sup>*\<^sup>* (tk, w) (tk', w') \<and> (\<nexists>s. task_move ts (tk', w') s) \<longrightarrow>
       (\<forall>as \<in> set tk'. as = []) \<and>
       (\<exists>es'. mset es' = mset es \<and>
          (let v = fold (ingress_step d wd ts) es' w0 in
             (\<forall>k. counter k w' = counter k v) \<and> chan w' = chan v \<and>
             mset (metrics w') = mset (metrics v))))"
proof (intro conjI allI impI)
  fix n tk' w'
  assume "(task_move ts ^^ n) (tk, w) (tk', w')"
  then show "n \<le> work tk" using task_moves_work by fastforce
next
  show "\<exists>tk' w'. (task_move ts)\<^sup>*\<^sup>* (tk, w) (tk', w') \<and> (\<nexists>s. task_move ts (tk', w') s)"
    using tasks_drain_exists [of ts tk w] task_move_progress [of ts] by metis
next
  fix tk' w'
  assume run: "(task_move ts)\<^sup>*\<^sup>* (tk, w) (tk', w') \<and> (\<nexists>s. task_move ts (tk', w') s)"
  then show ended: "\<forall>as \<in> set tk'. as = []" using task_move_progress [of ts tk' w'] by blast
  have "tasks_reach d wd ts w0 (es, tk', w')"
    using assms task_moves_steps [of ts tk w tk' w' d wd es] run by simp
  from drained_tasks [OF this ended] show "\<exists>es'. mset es' = mset es \<and>
      (let v = fold (ingress_step d wd ts) es' w0 in
         (\<forall>k. counter k w' = counter k v) \<and> chan w' = chan v \<and>
         mset (metrics w') = mset (metrics v))" .
qed

text \<open>A request counted as received whose transaction is still to be sent.\<close>

theorem tasks_drain_witness:
  "let tk = [drop 2 (handler_actions sample_rpc sample_packet (QuicStream 1 1 (ReadOk [7])))];
       w = add_stat QuicReceived 1 (emit (HistogramRecord ''quic_packet_data_size'' [] 1) empty_world)
   in counter TpuEnqueued w = 0 \<and> chan w = [] \<and>
      (\<exists>tk' w'. (task_move sample_send)\<^sup>*\<^sup>* (tk, w) (tk', w') \<and>
         counter QuicReceived w' = 1 \<and> counter TpuEnqueued w' = 1 \<and> counter TpuDropped w' = 0 \<and>
         chan w' = [[7, 1]])"
proof -
  let ?e = "QuicStream 1 1 (ReadOk [7]) :: unit ingress_event"
  let ?tk = "[drop 2 (handler_actions sample_rpc sample_packet ?e)]"
  let ?w = "add_stat QuicReceived 1 (emit (HistogramRecord ''quic_packet_data_size'' [] 1) empty_world)"
  obtain tk' w' where run: "(task_move sample_send)\<^sup>*\<^sup>* (?tk, ?w) (tk', w')"
      "\<nexists>s. task_move sample_send (tk', w') s"
    using tasks_drain [OF one_request_in_flight] by blast
  then obtain es' where es': "mset es' = mset [?e]"
    and v: "let v = fold (ingress_step sample_rpc sample_packet sample_send) es' empty_world in
       (\<forall>k. counter k w' = counter k v) \<and> chan w' = chan v \<and> mset (metrics w') = mset (metrics v)"
    using tasks_drain [OF one_request_in_flight] by blast
  from es' have "es' = [?e]" by simp
  with v have "counter QuicReceived w' = 1 \<and> counter TpuEnqueued w' = 1 \<and>
      counter TpuDropped w' = 0 \<and> chan w' = [[7, 1]]"
    by (simp add: sample_system_eval Let_def counter.simps)
  moreover have "counter TpuEnqueued ?w = 0 \<and> chan ?w = []"
    by (simp add: empty_world_def sender_world.defs globals.defs globals_init_def statics_init_def
        statics.defs emit_def counter.simps)
  ultimately show ?thesis using run(1) by (auto simp: Let_def)
qed

end
