(* ===== verification/Progress.thy ===== *)
theory Progress
  imports End_To_End
begin

text \<open>
  What the composed system achieves in the long run, over infinite histories of the events of
  \<open>End_To_End\<close>, and what never changes about the messages in its channel.
\<close>

section \<open>Infinite histories\<close>

definition state_at ::
  "('enc, 'sig) rpc_deps \<Rightarrow> (bytes \<Rightarrow> string + transaction_packet) \<Rightarrow> 'c try_send \<Rightarrow>
   ('c \<Rightarrow> (bytes \<times> 'c) option) \<Rightarrow> ('w, 'k) workers_api \<Rightarrow> 'w \<Rightarrow> 'c sender_world \<Rightarrow>
   (nat \<Rightarrow> 'enc system_event) \<Rightarrow> nat \<Rightarrow> ('c, 'w, 'k) system_state" where
  "state_at d wd ts recv api w w0 \<sigma> n = system_run d wd ts recv api (map \<sigma> [0..<n]) w w0"

text \<open>The client takes a message while no address of a blocked leader is in the window.\<close>

definition clear_delivery ::
  "('c \<Rightarrow> (bytes \<times> 'c) option) \<Rightarrow> 'enc system_event \<Rightarrow> ('c, 'w, 'k) system_state \<Rightarrow> bool" where
  "clear_delivery recv e s \<longleftrightarrow>
     (case (e, s) of
        (Deliver leaders, (acc, recs, w, b)) \<Rightarrow>
          recv (chan b) \<noteq> None \<and> \<not> has_blocked_send_target leaders (blocked_leaders b)
      | _ \<Rightarrow> False)"

definition records_of :: "('c, 'w, 'k) system_state \<Rightarrow> 'k send_record list" where
  "records_of s = fst (snd s)"

definition accepted_of :: "('c, 'w, 'k) system_state \<Rightarrow> (bytes \<times> bool) list" where
  "accepted_of s = fst s"

text \<open>All messages that ever got into the channel, oldest first.\<close>

definition message_log :: "('c \<Rightarrow> bytes list) \<Rightarrow> ('c, 'w, 'k) system_state \<Rightarrow> bytes list" where
  "message_log contents s =
     (case s of (acc, recs, w, b) \<Rightarrow> map sr_message recs @ contents (chan b))"

lemma state_at_Suc:
  "state_at d wd ts recv api w w0 \<sigma> (Suc n) =
     system_step d wd ts recv api (\<sigma> n) (state_at d wd ts recv api w w0 \<sigma> n)"
  by (simp add: state_at_def system_run_def)

section \<open>Logs only grow\<close>

lemma system_step_log:
  assumes fifo: "fifo_channel ts recv contents" and inv: "system_inv contents s"
  shows "\<exists>ms. message_log contents (system_step d wd ts recv api e s) = message_log contents s @ ms \<and>
    (\<forall>m \<in> set ms. \<exists>ie. e = FrontEnd ie \<and> offered d wd ie = Some m)"
proof -
  obtain acc recs w b where s: "s = (acc, recs, w, b)" by (cases s)
  show ?thesis
  proof (cases e)
    case (FrontEnd ie)
    then show ?thesis
      by (auto simp: s system_step_def message_log_def ingress_step_chan fifo_send [OF fifo]
          split: option.split sum.split)
  next
    case (RefreshRound r)
    then show ?thesis by (simp add: s system_step_def message_log_def broadcaster_step_def)
  next
    case (Deliver leaders)
    show ?thesis
    proof (cases "recv (chan b)")
      case None
      with Deliver show ?thesis by (simp add: s system_step_def)
    next
      case (Some mc)
      obtain m c where mc: "mc = (m, c)" by (cases mc)
      have "\<not> buffer_poisoned (b\<lparr>chan := c\<rparr>)" using inv by (simp add: s system_inv_def queue_inv_def)
      note after = send_to_workers_chan [OF this, of api leaders m w]
      have "contents (chan b) = m # contents c" using fifo_recv [OF fifo] Some mc by blast
      with Deliver Some mc after show ?thesis
        by (simp add: s system_step_def message_log_def broadcaster_step_message case_prod_unfold)
    qed
  qed
qed

lemma system_step_records: "length (records_of s) \<le> length (records_of (system_step d wd ts recv api e s))"
  by (auto simp: records_of_def system_step_def broadcaster_step_def case_prod_unfold Let_def
      split: system_event.split option.split)

lemma clear_delivery_step:
  assumes "clear_delivery recv e s" "case s of (acc, recs, w, b) \<Rightarrow> \<not> buffer_poisoned b"
  shows "length (records_of (system_step d wd ts recv api e s)) = Suc (length (records_of s))"
    and "case system_step d wd ts recv api e s of (acc, recs, w, b) \<Rightarrow> buffered_transactions b = []"
proof -
  obtain acc recs w b where s: "s = (acc, recs, w, b)" by (cases s)
  obtain leaders m c where e: "e = Deliver leaders" "recv (chan b) = Some (m, c)"
    and clear: "\<not> has_blocked_send_target leaders (blocked_leaders b)"
    using assms(1) by (auto simp: clear_delivery_def s split: system_event.splits)
  let ?b = "b\<lparr>chan := c\<rparr>"
  have np: "\<not> buffer_poisoned ?b" using assms(2) by (simp add: s)
  obtain res calls w' b' where sw: "send_to_workers api leaders m w ?b = (res, calls, w', b')"
    by (metis surj_pair)
  have "buffered_transactions b' = []"
    using send_to_workers_queue(3) [OF np sw] clear by (cases "decode_payload m") auto
  then show "case system_step d wd ts recv api e s of (acc, recs, w, b) \<Rightarrow> buffered_transactions b = []"
    by (simp add: s e system_step_def broadcaster_step_message sw)
  show "length (records_of (system_step d wd ts recv api e s)) = Suc (length (records_of s))"
    by (simp add: s e system_step_def broadcaster_step_message records_of_def)
qed

section \<open>Progress\<close>

lemma state_at_queue_inv:
  "case state_at d wd ts recv api w w0 \<sigma> n of (acc, recs, w', b) \<Rightarrow> queue_inv [] (recs, w', b)"
  unfolding state_at_def by (rule system_run_queue_inv)

lemma state_at_not_poisoned:
  "case state_at d wd ts recv api w w0 \<sigma> n of (acc, recs, w', b) \<Rightarrow> \<not> buffer_poisoned b"
  using state_at_queue_inv [of d wd ts recv api w w0 \<sigma> n] by (auto simp: queue_inv_def split: prod.splits)

interpretation deliveries: recurring "state_at d wd ts recv api w w0 \<sigma>" "\<lambda>s. length (records_of s)"
    "\<lambda>n. clear_delivery recv (\<sigma> n) (state_at d wd ts recv api w w0 \<sigma> n)"
  for d wd ts recv api w w0 \<sigma>
  by unfold_locales
     (simp_all add: state_at_Suc system_step_records clear_delivery_step(1) state_at_not_poisoned)

lemma state_at_inv:
  "fifo_channel ts recv contents \<Longrightarrow> contents (chan w0) = [] \<Longrightarrow>
     system_inv contents (state_at d wd ts recv api w w0 \<sigma> n)"
  unfolding state_at_def by (rule system_run_inv)

lemma state_at_log:
  assumes "fifo_channel ts recv contents" "contents (chan w0) = []" "n \<le> m"
  shows "\<exists>ms. message_log contents (state_at d wd ts recv api w w0 \<sigma> m) =
    message_log contents (state_at d wd ts recv api w w0 \<sigma> n) @ ms"
  using assms(3)
proof (induction m)
  case (Suc m)
  show ?case
  proof (cases "n = Suc m")
    case False
    with Suc show ?thesis
      using system_step_log [OF assms(1) state_at_inv [OF assms(1,2)], of d wd api "\<sigma> m" d wd api w \<sigma> m]
      by (auto simp: state_at_Suc)
  qed simp
qed simp

lemma decode_records:
  "List.map_filter decode_payload (map sr_message recs) =
     List.map_filter (\<lambda>r. decode_payload (sr_message r)) recs"
  by (induction recs) (simp_all add: List.map_filter_simps split: option.split)

lemma accepted_in_log:
  "system_inv contents s \<Longrightarrow>
     accepted_of s = List.map_filter decode_payload (message_log contents s)"
  by (auto simp: system_inv_def accepted_of_def message_log_def in_flight_def decode_records)

text \<open>A transaction that left the abstract queue was transmitted to a whole window.\<close>

lemma departed_transmitted:
  assumes "queue_inv [] (recs, w, b)"
    and "t \<in> set (departures p (fst (tagged_run (map input_of recs) [])))"
  obtains r where "r \<in> set recs" "\<forall>a \<in> set (sr_leaders r). TrySend a t \<in> set (sr_calls r)"
    "p \<Longrightarrow> \<not> has_blocked_send_target (sr_leaders r) (sr_blocked r)"
proof -
  let ?outs = "fst (tagged_run (map input_of recs) [])"
  from assms(2) obtain out where "out \<in> set ?outs" "(t, p) \<in> set out"
    by (auto simp: departures_def)
  then obtain i where i: "i < length recs" "(t, p) \<in> set (?outs ! i)"
    by (auto simp: in_set_conv_nth)
  have "map (\<lambda>r. sends_of (sr_calls r)) recs = map2 (\<lambda>r. transmissions (sr_leaders r)) recs ?outs"
    using assms(1) by (simp add: queue_inv_def)
  then have "sends_of (sr_calls (recs ! i)) = transmissions (sr_leaders (recs ! i)) (?outs ! i)"
    using i(1) by (auto dest: arg_cong [where f = "\<lambda>xs. xs ! i"])
  then have "\<forall>a \<in> set (sr_leaders (recs ! i)). TrySend a t \<in> set (sr_calls (recs ! i))"
    using i(2) by (force simp: transmissions_def simp flip: sends_of_iff)
  moreover have "\<not> has_blocked_send_target (sr_leaders (recs ! i)) (sr_blocked (recs ! i))" if p
  proof
    assume "has_blocked_send_target (sr_leaders (recs ! i)) (sr_blocked (recs ! i))"
    moreover obtain q where "?outs ! i = fst (tagged_step (input_of (recs ! i)) q)"
      using tagged_run_nth [of i "map input_of recs" "[]"] i(1) by auto
    ultimately have "(t, p) \<in> set (fst (tagged_step (decode_payload (sr_message (recs ! i)), True) q))"
      using i(2) by (simp add: input_of_def)
    then show False using tagged_step_blocked that by fastforce
  qed
  moreover have "recs ! i \<in> set recs" using i(1) by simp
  ultimately show thesis using that by blast
qed

lemma windows_not_empty:
  assumes "\<forall>n. \<sigma> n \<noteq> Deliver []"
  shows "\<forall>r \<in> set (records_of (state_at d wd ts recv api w w0 \<sigma> k)). sr_leaders r \<noteq> []"
proof (induction k)
  case 0
  then show ?case by (simp add: state_at_def system_run_def records_of_def)
next
  case (Suc k)
  have "\<sigma> k \<noteq> Deliver []" using assms by blast
  with Suc show ?case
    by (auto simp: state_at_Suc records_of_def system_step_def broadcaster_step_def
        case_prod_unfold Let_def split: system_event.splits option.splits)
qed

text \<open>At a clear delivery late enough, all that had been accepted has left.\<close>

lemma accepted_departs:
  assumes "fifo_channel ts recv contents" "contents (chan w0) = []"
    and "n \<le> m" "clear_delivery recv (\<sigma> m) (state_at d wd ts recv api w w0 \<sigma> m)"
    and "length (message_log contents (state_at d wd ts recv api w w0 \<sigma> n)) \<le>
      length (records_of (state_at d wd ts recv api w w0 \<sigma> (Suc m)))"
    and "(t, p) \<in> set (accepted_of (state_at d wd ts recv api w w0 \<sigma> n))"
  shows "t \<in> set (departures p (fst (tagged_run
    (map input_of (records_of (state_at d wd ts recv api w w0 \<sigma> (Suc m)))) [])))"
proof -
  let ?st = "state_at d wd ts recv api w w0 \<sigma>"
  obtain acc recs w' b where s: "?st (Suc m) = (acc, recs, w', b)" by (cases "?st (Suc m)")
  have "buffered_transactions b = []"
    using clear_delivery_step(2) [OF assms(4) state_at_not_poisoned, of d wd ts api] s
    by (simp add: state_at_Suc)
  moreover have q: "queue_inv [] (recs, w', b)"
    using state_at_queue_inv [of d wd ts recv api w w0 \<sigma> "Suc m"] s by simp
  ultimately have "snd (tagged_run (map input_of recs) []) = []"
    by (simp add: queue_inv_def prod_eq_iff)
  then have dep: "departures p (fst (tagged_run (map input_of recs) [])) = arrivals p (map input_of recs)"
    using tagged_run_fifo [of "map input_of recs" "[]"] by (cases p) simp_all
  obtain ms where "message_log contents (?st (Suc m)) = message_log contents (?st n) @ ms"
    using state_at_log [OF assms(1,2), of n "Suc m" d wd api w \<sigma>] assms(3) by auto
  then have "message_log contents (?st n) @ ms = map sr_message recs @ contents (chan b)"
    by (simp add: message_log_def s)
  moreover have "length (message_log contents (?st n)) \<le> length (map sr_message recs)"
    using assms(5) by (simp add: s records_of_def)
  ultimately have "message_log contents (?st n) =
      take (length (message_log contents (?st n))) (map sr_message recs)"
    unfolding append_eq_append_conv_if by simp
  then obtain us where "map sr_message recs = message_log contents (?st n) @ us"
    by (metis append_take_drop_id)
  moreover have "(t, p) \<in> set (List.map_filter decode_payload (message_log contents (?st n)))"
    using assms(6) accepted_in_log [OF state_at_inv [OF assms(1,2)], of d wd api w \<sigma> n] by simp
  ultimately have "(t, p) \<in> set (List.map_filter decode_payload (map sr_message recs))" by simp
  then show ?thesis
    by (force simp: s records_of_def dep arrivals_records of_protection_def decode_records)
qed

section \<open>Properties\<close>

text \<open>
  C5: every accepted transaction is eventually transmitted. In any infinite history over a
  FIFO channel in which the client never delivers to an empty window, and again and again takes
  a message while its window is clear of blocked leaders, each submission the channel has
  accepted is, from some later moment on, among the transmissions of a delivery to a window of
  at least one leader: it was offered to every address of that window, and, if it is
  protected, none of these addresses was blocked.
\<close>

theorem accepted_eventually_transmitted:
  assumes "fifo_channel ts recv contents" "contents (chan w0) = []"
    and "\<forall>n. \<exists>m\<ge>n. clear_delivery recv (\<sigma> m) (state_at d wd ts recv api w w0 \<sigma> m)"
    and "\<forall>n. \<sigma> n \<noteq> Deliver []"
    and "(t, p) \<in> set (accepted_of (state_at d wd ts recv api w w0 \<sigma> n))"
  shows "\<exists>m\<ge>n. \<exists>r \<in> set (records_of (state_at d wd ts recv api w w0 \<sigma> m)).
    sr_leaders r \<noteq> [] \<and> (\<forall>a \<in> set (sr_leaders r). TrySend a t \<in> set (sr_calls r)) \<and>
    (p \<longrightarrow> (\<forall>a \<in> set (sr_leaders r). a \<notin> sr_blocked r))"
proof -
  let ?st = "state_at d wd ts recv api w w0 \<sigma>"
  obtain m where m: "n \<le> m" "clear_delivery recv (\<sigma> m) (?st m)"
    "length (message_log contents (?st n)) \<le> length (records_of (?st (Suc m)))"
    using deliveries.exceeds [OF assms(3)] by blast
  obtain acc recs w' b where s: "?st (Suc m) = (acc, recs, w', b)" by (cases "?st (Suc m)")
  then have q: "queue_inv [] (recs, w', b)"
    using state_at_queue_inv [of d wd ts recv api w w0 \<sigma> "Suc m"] by simp
  have "t \<in> set (departures p (fst (tagged_run (map input_of recs) [])))"
    using accepted_departs [OF assms(1,2) m assms(5)] by (simp add: s records_of_def)
  from departed_transmitted [OF q this] obtain r where r: "r \<in> set recs"
    "\<forall>a \<in> set (sr_leaders r). TrySend a t \<in> set (sr_calls r)"
    "p \<Longrightarrow> \<not> has_blocked_send_target (sr_leaders r) (sr_blocked r)" by metis
  have "\<forall>r \<in> set (records_of (?st k)). sr_leaders r \<noteq> []" for k
    by (rule windows_not_empty [OF assms(4)])
  then have "sr_leaders r \<noteq> []" using r(1) s by (metis fst_conv records_of_def snd_conv)
  with m(1) r s show ?thesis
    by (intro exI [of _ "Suc m"]) (auto simp: records_of_def has_blocked_iff intro!: bexI [of _ r])
qed

text \<open>A history that submits the same protected packet and delivers it, for ever.\<close>

definition sample_forever :: "nat \<Rightarrow> unit system_event" where
  "sample_forever n =
     (if even n then FrontEnd (QuicStream 1 1 (ReadOk [7])) else Deliver [addr_n 1])"

abbreviation sample_state :: "nat \<Rightarrow> (bytes list, unit, unit) system_state" where
  "sample_state n \<equiv> state_at sample_rpc sample_packet sample_send sample_recv null_api ()
     empty_world sample_forever n"

lemma sample_offered:
  "offered sample_rpc sample_packet (QuicStream 1 1 (ReadOk [7])) = Some (encode_payload [7] True)"
  by (simp add: offered_def submission_def sample_packet_def)

lemma sample_odd:
  assumes "sample_state (2 * k) = (acc, recs, u, b)" "chan b = []" "blocked_leaders b = {}"
  shows "\<exists>acc' b'. sample_state (Suc (2 * k)) = (acc', recs, u, b') \<and>
    chan b' = [encode_payload [7] True] \<and> blocked_leaders b' = {}"
  using assms
  by (simp add: state_at_Suc sample_forever_def system_step_def ingress_step_chan sample_offered
      sample_send_def)

lemma sample_even:
  "\<exists>acc recs u b. sample_state (2 * k) = (acc, recs, u, b) \<and> chan b = [] \<and> blocked_leaders b = {}"
proof (induction k)
  case 0
  show ?case by (simp add: state_at_def system_run_def empty_world_def globals.defs)
next
  case (Suc k)
  then obtain acc recs u b where s: "sample_state (2 * k) = (acc, recs, u, b)" "chan b = []"
    "blocked_leaders b = {}" by blast
  from sample_odd [OF this] obtain acc' b' where
    s': "sample_state (Suc (2 * k)) = (acc', recs, u, b')" "chan b' = [encode_payload [7] True]"
    "blocked_leaders b' = {}" by blast
  have np: "\<not> buffer_poisoned (b'\<lparr>chan := []\<rparr>)"
    using state_at_not_poisoned [of sample_rpc sample_packet sample_send sample_recv null_api "()"
        empty_world sample_forever "Suc (2 * k)"] s'(1) by simp
  have "sample_state (2 * Suc k) =
      system_step sample_rpc sample_packet sample_send sample_recv null_api (Deliver [addr_n 1])
        (acc', recs, u, b')"
    using s'(1) by (simp add: state_at_Suc sample_forever_def)
  moreover obtain r cs x b1 where
    sw: "send_to_workers null_api [addr_n 1] (encode_payload [7] True) u (b'\<lparr>chan := []\<rparr>) = (r, cs, x, b1)"
    by (rule prod_cases4)
  moreover have "chan b1 = []" "blocked_leaders b1 = {}"
    using send_to_workers_chan [OF np, of null_api "[addr_n 1]" "encode_payload [7] True" u]
      send_to_workers_blocked [OF np, of null_api "[addr_n 1]" "encode_payload [7] True" u] sw s'(3)
    by simp_all
  ultimately show ?case
    using s'(2) by (simp add: system_step_def broadcaster_step_message)
qed

lemma sample_clear:
  "clear_delivery sample_recv (sample_forever (Suc (2 * k))) (sample_state (Suc (2 * k)))"
proof -
  obtain acc recs u b where "sample_state (2 * k) = (acc, recs, u, b)" "chan b = []"
    "blocked_leaders b = {}" using sample_even [of k] by blast
  from sample_odd [OF this] show ?thesis
    by (auto simp: clear_delivery_def sample_forever_def has_blocked_send_target_def)
qed

lemma sample_again: "\<forall>n. \<exists>m\<ge>n. clear_delivery sample_recv (sample_forever m) (sample_state m)"
proof (intro allI exI conjI)
  show "n \<le> Suc (2 * n)" for n :: nat by simp
qed (rule sample_clear)

lemma sample_accepted: "([7], True) \<in> set (accepted_of (sample_state (Suc 0)))"
  by (simp add: state_at_def sample_forever_def system_run_def system_step_def accepted_of_def
      accepted_submission_def submission_def sample_packet_def channel_accepts_def sample_send_def
      empty_world_def globals.defs)

theorem accepted_eventually_transmitted_witness:
  "\<exists>m\<ge>Suc 0. \<exists>r \<in> set (records_of (sample_state m)). sr_leaders r \<noteq> [] \<and>
     (\<forall>a \<in> set (sr_leaders r). TrySend a [7] \<in> set (sr_calls r)) \<and>
     (True \<longrightarrow> (\<forall>a \<in> set (sr_leaders r). a \<notin> sr_blocked r))"
proof (rule accepted_eventually_transmitted [OF sample_channel _ sample_again _ sample_accepted])
  show "chan empty_world = []" by (simp add: empty_world_def globals.defs)
  show "\<forall>n. sample_forever n \<noteq> Deliver []" by (simp add: sample_forever_def)
qed

section \<open>What is in the channel\<close>

text \<open>
  A message is the empty one of the flush task, or the encoding of a transaction with a flag
  byte of 0 or 1 and a wire transaction of at most \<open>n\<close> bytes.
\<close>

definition message_ok :: "nat \<Rightarrow> bytes \<Rightarrow> bool" where
  "message_ok n m \<longleftrightarrow> m = [] \<or> (last m \<in> {0, 1} \<and> length m \<le> Suc n)"

text \<open>
  What the two readers guarantee: \<open>read_to_end(QUIC_MAX_SIZE)\<close> never yields more than its
  limit, and a decoded packet has no wire transaction longer than the bytes it was read from.
\<close>

fun read_within :: "nat \<Rightarrow> 'enc system_event \<Rightarrow> bool" where
  "read_within n (FrontEnd (QuicStream _ _ (ReadOk data))) \<longleftrightarrow> length data \<le> n"
| "read_within n _ \<longleftrightarrow> True"

definition packet_within :: "(bytes \<Rightarrow> string + transaction_packet) \<Rightarrow> bool" where
  "packet_within wd \<longleftrightarrow>
     (\<forall>data p. wd data = Inr p \<longrightarrow> length (packet_wire_transaction p) \<le> length data)"

lemma offered_ok:
  assumes "packet_within wd" "solana_sizes (rpc_codec d)" "read_within n (FrontEnd e)" "4096 \<le> n"
    and "offered d wd e = Some m"
  shows "message_ok n m"
proof -
  have enc: "message_ok n (encode_payload wire b)" if "length wire \<le> n" for wire b
    using that by (cases b) (simp_all add: message_ok_def encode_payload_def into_encoded_new)
  show ?thesis
  proof (cases e)
    case (JsonRequest txn params mev)
    with assms(5) obtain wire b be where "m = encode_payload wire b"
      "decode_transaction (rpc_codec d) txn be = Inr wire"
      by (auto simp: offered_def submission_def split: option.splits sum.splits list.splits)
    moreover from this(2) have "length wire \<le> 4096"
      using assms(2) decode_within [of "rpc_codec d" txn be wire] by (auto simp: solana_sizes_def)
    ultimately show ?thesis using enc assms(4) by simp
  next
    case (QuicStream a l out)
    with assms(5) obtain data p where "out = ReadOk data" "wd data = Inr p"
      "m = encode_payload (packet_wire_transaction p) (packet_mev_protect p)"
      by (auto simp: offered_def submission_def split: read_outcome.splits sum.splits)
    with QuicStream assms(1,3) enc show ?thesis by (fastforce simp: packet_within_def)
  next
    case FlushMessage
    with assms(5) show ?thesis by (simp add: offered_def message_ok_def)
  qed
qed

text \<open>
  C14: the channel is well typed. Over a FIFO channel that starts empty, with a packet decoder
  that never yields more than it read, the size constants of Solana and streams read up to \<open>QUIC_MAX_SIZE\<close>
  bytes, every message that ever was in the channel is the empty one or ends in a flag byte of
  0 or 1 and is at most one byte longer than that limit.
\<close>

theorem channel_well_typed:
  assumes fifo: "fifo_channel ts recv contents" "contents (chan w0) = []"
    and deps: "packet_within wd" "solana_sizes (rpc_codec d)"
    and reads: "\<forall>e \<in> set es. read_within (QUIC_MAX_SIZE 4096) e"
  shows "\<forall>m \<in> set (message_log contents (system_run d wd ts recv api es w w0)).
    message_ok (QUIC_MAX_SIZE 4096) m"
  using reads
proof (induction es rule: rev_induct)
  case Nil
  show ?case using fifo(2) by (simp add: system_run_def message_log_def)
next
  case (snoc e es)
  obtain ms where ms: "message_log contents (system_run d wd ts recv api (es @ [e]) w w0) =
      message_log contents (system_run d wd ts recv api es w w0) @ ms"
    "\<forall>m \<in> set ms. \<exists>ie. e = FrontEnd ie \<and> offered d wd ie = Some m"
    using system_step_log [OF fifo(1) system_run_inv [OF fifo], of d wd api e d wd api es w]
    by (auto simp: system_run_steps)
  have "message_ok (QUIC_MAX_SIZE 4096) m" if "m \<in> set ms" for m
    using ms(2) that snoc.prems offered_ok [OF deps] by (auto simp: QUIC_MAX_SIZE_def)
  with snoc ms(1) show ?case by auto
qed

text \<open>The sample instances, for a stream read to its end.\<close>

theorem channel_well_typed_witness:
  "list_all (message_ok (QUIC_MAX_SIZE 4096)) (message_log (\<lambda>c. c)
     (system_run sample_rpc sample_packet sample_send sample_recv
       (null_api :: (unit, unit) workers_api)
       [FrontEnd (QuicStream 1 1 (ReadOk [7])), FrontEnd FlushMessage, Deliver [addr_n 1]]
       () empty_world))"
proof -
  have empty: "chan empty_world = []" by (simp add: empty_world_def globals.defs)
  have packet: "packet_within sample_packet" by (simp add: packet_within_def sample_packet_def)
  have sizes: "solana_sizes (rpc_codec sample_rpc)"
    by (simp add: sample_rpc_def sample_codec_laws)
  show ?thesis
    unfolding list_all_iff
    by (rule channel_well_typed [OF sample_channel empty packet sizes])
       (simp_all add: QUIC_MAX_SIZE_def)
qed

end
