(* ===== verification/Ws_Address_Service.thy ===== *)
theory Ws_Address_Service
  imports Iris_Prelude
begin

text \<open>
  \<open>src/websocket_node_address_service.rs\<close>: the fail-fast source of slot events. A task reads
  slot updates from a websocket, forwards the two kinds that leader tracking needs, and aborts
  the process when the subscription ends, stalls or loses its consumer without having been
  cancelled. The pubsub client, the node address service and the channel between them belong
  to other crates: they appear as the values their futures complete with.
\<close>

section \<open>Slot updates\<close>

text \<open>The updates the code tells apart; every other one is ignored.\<close>

datatype slot_update = FirstShredReceived u64 | SlotCompleted u64 | OtherUpdate

datatype slot_event = SlotStart u64 | SlotEnd u64

fun map_websocket_update_to_slot_event :: "slot_update \<Rightarrow> slot_event option" where
  "map_websocket_update_to_slot_event (FirstShredReceived slot) = Some (SlotStart slot)"
| "map_websocket_update_to_slot_event (SlotCompleted slot) = Some (SlotEnd slot)"
| "map_websocket_update_to_slot_event OtherUpdate = None"

section \<open>Waiting for a notification\<close>

definition WEBSOCKET_STALL_TIMEOUT_secs :: nat where
  "WEBSOCKET_STALL_TIMEOUT_secs = 30"

definition SLOT_EVENT_SEND_TIMEOUT_ms :: nat where
  "SLOT_EVENT_SEND_TIMEOUT_ms = 100"

datatype notification_error = NotificationClosed | NotificationStalled nat

text \<open>Which future of the \<open>select!\<close> completes: the cancellation, the next item of the stream
  (\<open>None\<close> at its end), or the time-out around it.\<close>

datatype 'n wait = CancelReady | StreamNext "'n option" | TimeoutElapsed

fun next_notification :: "nat \<Rightarrow> 'n wait \<Rightarrow> notification_error + 'n option" where
  "next_notification stall_timeout CancelReady = Inr None"
| "next_notification stall_timeout (StreamNext (Some n)) = Inr (Some n)"
| "next_notification stall_timeout (StreamNext None) = Inl NotificationClosed"
| "next_notification stall_timeout TimeoutElapsed = Inl (NotificationStalled stall_timeout)"

fun notification_error_message :: "notification_error \<Rightarrow> string" where
  "notification_error_message NotificationClosed = ''slot-update websocket subscription ended''"
| "notification_error_message (NotificationStalled secs) =
     ''slot-update websocket received no events for '' @ show_nat secs @ ''s''"

section \<open>The subscription\<close>

text \<open>
  How \<open>send_timeout\<close> completes; with a closed channel the code also asks whether it was
  cancelled. A round of the loop is what the wait finds and, if an event is to be forwarded,
  how sending it goes.
\<close>

datatype send_outcome = Sent | ConsumerClosed bool | SendTimeout

type_synonym ws_round = "slot_update wait \<times> send_outcome"

text \<open>The loop is left by \<open>break\<close>, by an error, or not at all yet.\<close>

datatype ws_exit = Broke | Failed "string list" | Waiting

fun ws_loop :: "ws_round list \<Rightarrow> slot_event list \<times> ws_exit" where
  "ws_loop [] = ([], Waiting)"
| "ws_loop ((w, snd_outcome) # rounds) =
     (case next_notification WEBSOCKET_STALL_TIMEOUT_secs w of
        Inl e \<Rightarrow> ([], Failed [notification_error_message e])
      | Inr None \<Rightarrow> ([], Broke)
      | Inr (Some update) \<Rightarrow>
          (case map_websocket_update_to_slot_event update of
             None \<Rightarrow> ws_loop rounds
           | Some event \<Rightarrow>
               (case snd_outcome of
                  Sent \<Rightarrow> (let (evs, x) = ws_loop rounds in (event # evs, x))
                | ConsumerClosed cancelled \<Rightarrow>
                    if cancelled then ([], Broke)
                    else ([], Failed [''slot-event consumer unexpectedly stopped''])
                | SendTimeout \<Rightarrow> ws_loop rounds)))"

text \<open>
  The whole subscription: \<open>connect\<close>, \<open>subscribe\<close> and \<open>shutdown\<close> are the answers of the pubsub
  client. The result is the events forwarded and, once the function has returned, its result.
\<close>

definition run_websocket_subscription ::
  "string list + unit \<Rightarrow> string list + unit \<Rightarrow> ws_round list \<Rightarrow> string list + unit \<Rightarrow>
   slot_event list \<times> (string list, unit) rust_result option" where
  "run_websocket_subscription connect subscribe rounds shutdown =
     (case connect of
        Inl e \<Rightarrow> ([], Some (Err (''cannot connect to slot-update websocket'' # e)))
      | Inr _ \<Rightarrow>
          (case subscribe of
             Inl e \<Rightarrow> ([], Some (Err (''cannot subscribe to slot updates'' # e)))
           | Inr _ \<Rightarrow>
               (case ws_loop rounds of
                  (evs, Waiting) \<Rightarrow> (evs, None)
                | (evs, Failed e) \<Rightarrow> (evs, Some (Err e))
                | (evs, Broke) \<Rightarrow>
                    (case shutdown of
                       Inl e \<Rightarrow>
                         (evs, Some (Err (''cannot shut down slot-update websocket'' # e)))
                     | Inr _ \<Rightarrow> (evs, Some (Ok ()))))))"

text \<open>The task around it.\<close>

datatype task_state = TaskRunning | TaskFinished | ProcessAborted

definition websocket_task_state :: "(string list, unit) rust_result option \<Rightarrow> task_state" where
  "websocket_task_state r =
     (case r of
        None \<Rightarrow> TaskRunning
      | Some (Err _) \<Rightarrow> ProcessAborted
      | Some _ \<Rightarrow> TaskFinished)"

definition websocket_slot_event_stream ::
  "string list + unit \<Rightarrow> string list + unit \<Rightarrow> ws_round list \<Rightarrow> string list + unit \<Rightarrow>
   slot_event list \<times> task_state" where
  "websocket_slot_event_stream connect subscribe rounds shutdown =
     (let (evs, r) = run_websocket_subscription connect subscribe rounds shutdown
      in (evs, websocket_task_state r))"

section \<open>The service\<close>

text \<open>\<open>'sv\<close> is the node address service, \<open>'h\<close> the handle of the websocket task.\<close>

record ('sv, 'h) ws_service =
  ws_inner :: 'sv
  websocket_task :: "'h option"

definition service_run ::
  "'h \<Rightarrow> string list + 'sv \<Rightarrow> (string list, ('sv, 'h) ws_service) rust_result" where
  "service_run task node_service =
     (case node_service of
        Inl e \<Rightarrow> Err (''cannot start node address service'' # e)
      | Inr sv \<Rightarrow> Ok \<lparr>ws_inner = sv, websocket_task = Some task\<rparr>)"

text \<open>\<open>inner_shutdown\<close> is \<open>NodeAddressService::shutdown\<close>, \<open>join\<close> what awaiting the task yields.\<close>

definition service_shutdown ::
  "('sv \<Rightarrow> (string list + unit) \<times> 'sv) \<Rightarrow> ('h \<Rightarrow> string list + unit) \<Rightarrow> ('sv, 'h) ws_service \<Rightarrow>
   (string list, unit) rust_result \<times> ('sv, 'h) ws_service" where
  "service_shutdown inner_shutdown join s =
     (let (r, sv) = inner_shutdown (ws_inner s); s1 = s\<lparr>ws_inner := sv\<rparr>
      in case r of
           Inl e \<Rightarrow> (Err e, s1)
         | Inr _ \<Rightarrow>
             (case websocket_task s1 of
                None \<Rightarrow> (Ok (), s1)
              | Some handle \<Rightarrow>
                  (case join handle of
                     Inl e \<Rightarrow> (Err (''websocket task panicked'' # e), s1\<lparr>websocket_task := None\<rparr>)
                   | Inr _ \<Rightarrow> (Ok (), s1\<lparr>websocket_task := None\<rparr>))))"

definition service_stop ::
  "('sv \<Rightarrow> (string list + unit) \<times> 'sv) \<Rightarrow> ('h \<Rightarrow> string list + unit) \<Rightarrow> ('sv, 'h) ws_service \<Rightarrow>
   ('sv, 'h) ws_service" where
  "service_stop inner_shutdown join s = snd (service_shutdown inner_shutdown join s)"

definition service_next_leaders ::
  "(nat \<Rightarrow> 'sv \<Rightarrow> socket_addr list \<times> 'sv) \<Rightarrow> nat \<Rightarrow> ('sv, 'h) ws_service \<Rightarrow>
   socket_addr list \<times> ('sv, 'h) ws_service" where
  "service_next_leaders inner_next lookahead_leaders s =
     (let (ls, sv) = inner_next lookahead_leaders (ws_inner s) in (ls, s\<lparr>ws_inner := sv\<rparr>))"

section \<open>Rounds\<close>

text \<open>How a single round ends the loop, if it does, and what it forwards, if it does not.\<close>

fun round_exit :: "ws_round \<Rightarrow> ws_exit" where
  "round_exit (CancelReady, _) = Broke"
| "round_exit (StreamNext None, _) = Failed [''slot-update websocket subscription ended'']"
| "round_exit (TimeoutElapsed, _) =
     Failed [''slot-update websocket received no events for '' @ show_nat 30 @ ''s'']"
| "round_exit (StreamNext (Some OtherUpdate), _) = Waiting"
| "round_exit (StreamNext (Some _), ConsumerClosed True) = Broke"
| "round_exit (StreamNext (Some _), ConsumerClosed False) =
     Failed [''slot-event consumer unexpectedly stopped'']"
| "round_exit (StreamNext (Some _), _) = Waiting"

fun round_event :: "ws_round \<Rightarrow> slot_event option" where
  "round_event (StreamNext (Some u), Sent) = map_websocket_update_to_slot_event u"
| "round_event _ = None"

lemma round_event_Other [simp]: "round_event (StreamNext (Some OtherUpdate), x) = None"
  by (cases x) simp_all

lemma ws_loop_round:
  "ws_loop (r # rounds) =
     (if round_exit r = Waiting
      then (let (evs, x) = ws_loop rounds
            in (case round_event r of None \<Rightarrow> evs | Some e \<Rightarrow> e # evs, x))
      else ([], round_exit r))"
  by (cases r rule: round_exit.cases)
     (auto simp: WEBSOCKET_STALL_TIMEOUT_secs_def split: slot_update.splits send_outcome.splits)

lemma ws_loop_rounds:
  "ws_loop rounds =
     (List.map_filter round_event (takeWhile (\<lambda>r. round_exit r = Waiting) rounds),
      case dropWhile (\<lambda>r. round_exit r = Waiting) rounds of
        [] \<Rightarrow> Waiting | r # _ \<Rightarrow> round_exit r)"
proof (induction rounds)
  case (Cons r rounds)
  then show ?case
    unfolding ws_loop_round by (simp add: List.map_filter_simps split: option.splits)
qed (simp add: List.map_filter_simps)

section \<open>Properties\<close>

text \<open>
  C30: what the leader tracker gets to see. The websocket task forwards, in order, the slot
  events of exactly those updates whose send went through, up to the first round that ends
  its loop; an update of no interest and a send that timed out lose only that event, and
  without a connection and a subscription nothing is forwarded.
\<close>

theorem websocket_forwards_in_order:
  "fst (websocket_slot_event_stream connect subscribe rounds shutdown) =
     (case (connect, subscribe) of
        (Inr _, Inr _) \<Rightarrow>
          List.map_filter round_event (takeWhile (\<lambda>r. round_exit r = Waiting) rounds)
      | _ \<Rightarrow> [])"
  by (auto simp: websocket_slot_event_stream_def run_websocket_subscription_def ws_loop_rounds
      split: sum.splits ws_exit.splits)

text \<open>
  C29: fail-fast. The websocket task aborts the process exactly when it could not connect or
  subscribe, when the first round that ends its loop is a failure (the subscription ended,
  30 silent seconds, or a consumer gone without cancellation), or when the orderly shutdown
  after a clean end fails. It never aborts while every round goes on, and after a cancellation
  only a failed shutdown aborts.
\<close>

theorem websocket_task_fail_fast:
  "snd (websocket_slot_event_stream connect subscribe rounds shutdown) = ProcessAborted \<longleftrightarrow>
     (\<exists>e. connect = Inl e) \<or> (\<exists>e. subscribe = Inl e) \<or>
     (\<exists>live r rest. rounds = live @ r # rest \<and> list_all (\<lambda>q. round_exit q = Waiting) live \<and>
        ((\<exists>e. round_exit r = Failed e) \<or> (round_exit r = Broke \<and> (\<exists>e. shutdown = Inl e))))"
  (is "?lhs \<longleftrightarrow> ?connect \<or> ?subscribe \<or> ?round")
proof (cases "?connect \<or> ?subscribe")
  case True
  then show ?thesis
    by (cases connect; cases subscribe)
       (simp_all add: websocket_slot_event_stream_def run_websocket_subscription_def
         websocket_task_state_def)
next
  case False
  then obtain u v where ok: "connect = Inr u" "subscribe = Inr v"
    by (cases connect; cases subscribe) auto
  let ?bad = "\<lambda>r. (\<exists>e. round_exit r = Failed e) \<or> (round_exit r = Broke \<and> (\<exists>e. shutdown = Inl e))"
  let ?live = "\<lambda>r. round_exit r = Waiting"
  obtain d where d: "dropWhile ?live rounds = d" by blast
  have "?lhs \<longleftrightarrow> (\<exists>r rest. d = r # rest \<and> ?bad r)"
  proof (cases d)
    case Nil
    then show ?thesis
      using ok d by (simp add: websocket_slot_event_stream_def run_websocket_subscription_def
        websocket_task_state_def ws_loop_rounds del: dropWhile_eq_Nil_conv)
  next
    case (Cons r rest)
    then have "\<not> ?live r" using d dropWhile_eq_ConsD by fastforce
    with Cons show ?thesis
      using ok d by (cases "round_exit r"; cases shutdown)
        (simp_all add: websocket_slot_event_stream_def run_websocket_subscription_def
          websocket_task_state_def ws_loop_rounds)
  qed
  also have "\<dots> \<longleftrightarrow> ?round"
  proof
    assume "\<exists>r rest. d = r # rest \<and> ?bad r"
    then obtain r rest where "dropWhile ?live rounds = r # rest" "?bad r" using d by blast
    then show ?round using dropWhile_eq_ConsD [of ?live rounds r rest] by metis
  next
    assume ?round
    then obtain live r rest where "rounds = live @ r # rest" "list_all ?live live" "?bad r" by blast
    moreover from this have "\<not> ?live r" by auto
    ultimately have "d = r # rest" using d dropWhile_append_hit [of ?live live r rest] by simp
    with \<open>?bad r\<close> show "\<exists>r rest. d = r # rest \<and> ?bad r" by blast
  qed
  finally show ?thesis using False by blast
qed

text \<open>
  An orderly stop: when the inner service shuts down without an error, stopping the
  service takes the handle of the websocket task, so that the task is awaited exactly once
  however often the service is stopped; when the inner shutdown fails, the handle stays.
\<close>

lemma stop_awaits_task_once:
  "let (r, s') = service_shutdown inner_shutdown join s in
     (case fst (inner_shutdown (ws_inner s)) of
        Inl e \<Rightarrow> r = Err e \<and> websocket_task s' = websocket_task s
      | Inr _ \<Rightarrow> websocket_task s' = None \<and>
          r = (case websocket_task s of
                 None \<Rightarrow> Ok ()
               | Some h \<Rightarrow> (case join h of
                     Inl e \<Rightarrow> Err (''websocket task panicked'' # e) | Inr _ \<Rightarrow> Ok ()))) \<and>
     ws_inner s' = snd (inner_shutdown (ws_inner s))"
  by (auto simp: service_shutdown_def Let_def split: prod.splits sum.splits option.splits)

end
