(* ===== verification/Unit_Tests.thy ===== *)
theory Unit_Tests
  imports Broadcaster Shield Solana_Rpc Quic_Server Ws_Address_Service
begin

text \<open>
  The unit tests of the repository, one definition per test function, run on the model: a test
  is the conjunction of its assertions, and an \<open>unwrap\<close> that would panic makes it fail. They
  are a check of the model on the inputs its authors chose, beside the general properties of
  the components. The two that query a live node take its answers as arguments, as they assert
  what the chain holds; the one of \<open>src/types.rs\<close> takes the two functions of the wincode crate,
  which it is a test of.
\<close>

section \<open>Tests of \<open>src/broadcaster.rs\<close>\<close>

text \<open>The structure literal of the tests: no thread runs.\<close>

definition test_broadcaster :: "socket_addr set \<Rightarrow> 'c sender_world \<Rightarrow> 'c broadcaster" where
  "test_broadcaster blocked w = sender_world.extend w
     \<lparr>blocked_leaders = blocked, buffered_transactions = [], buffer_poisoned = False,
      refresh_alive = False\<rparr>"

lemma test_broadcaster_simps [simp]:
  "blocked_leaders (test_broadcaster bl w) = bl"
  "buffered_transactions (test_broadcaster bl w) = []"
  "\<not> buffer_poisoned (test_broadcaster bl w)"
  by (simp_all add: test_broadcaster_def sender_world.defs)

definition localhost :: "u16 \<Rightarrow> socket_addr" where
  "localhost port = SocketAddr (V4 127 0 0 1) port"

definition test_blocked_validators_list :: "'c sender_world \<Rightarrow> bool" where
  "test_blocked_validators_list w =
     (let addrs = set [localhost 8001, localhost 8002, SocketAddr (V4 192 168 1 10) 9000];
          broadcaster = test_broadcaster addrs w;
          loaded = blocked_leaders broadcaster;
          listed = loaded
      in listed = addrs)"

definition detects_blocked_target_anywhere_in_send_fanout :: bool where
  "detects_blocked_target_anywhere_in_send_fanout =
     (let leaders = [localhost 8001, localhost 8002, localhost 8003];
          blocked = {leaders ! 2}
      in has_blocked_send_target leaders blocked)"

definition test_mev_protected_transactions_are_buffered_until_safe :: "'c sender_world \<Rightarrow> bool" where
  "test_mev_protected_transactions_are_buffered_until_safe w =
     (let broadcaster = test_broadcaster {} w;
          (ready1, b1) = prepare_transactions [1, 2, 3, 1] True broadcaster;
          (ready2, b2) = prepare_transactions [4, 5, 6, 0] False b1
      in ready1 = Some [] \<and>
         \<not> buffer_poisoned b1 \<and> length (buffered_transactions b1) = 1 \<and>
         ready2 = Some [[1, 2, 3], [4, 5, 6]] \<and>
         \<not> buffer_poisoned b2 \<and> buffered_transactions b2 = [])"

definition test_mev_protect_serialization_deserialization_case_true :: bool where
  "test_mev_protect_serialization_deserialization_case_true =
     (case TpuClientPayload_decode [0, 128, 1] of
        None \<Rightarrow> False
      | Some payload \<Rightarrow> is_mev_protected payload \<and> wire_transaction payload = Some [0, 128])"

definition test_mev_protect_serialization_deserialization_case_false :: bool where
  "test_mev_protect_serialization_deserialization_case_false =
     (case TpuClientPayload_decode [0, 128, 0] of
        None \<Rightarrow> False
      | Some payload \<Rightarrow> \<not> is_mev_protected payload \<and> wire_transaction payload = Some [0, 128])"

section \<open>Test of \<open>src/types.rs\<close>\<close>

definition decodes_legacy_iris_quic_packet ::
  "(transaction_packet \<Rightarrow> string + bytes) \<Rightarrow> (bytes \<Rightarrow> string + transaction_packet) \<Rightarrow> bool" where
  "decodes_legacy_iris_quic_packet serialize deserialize =
     (case serialize \<lparr>packet_wire_transaction = [1, 2, 3], packet_mev_protect = True,
                      packet_max_retry = Some 3\<rparr> of
        Inl _ \<Rightarrow> False
      | Inr enc \<Rightarrow>
          (case deserialize enc of
             Inl _ \<Rightarrow> False
           | Inr decoded \<Rightarrow>
               packet_wire_transaction decoded = [1, 2, 3] \<and> packet_mev_protect decoded \<and>
               packet_max_retry decoded = Some 3))"

section \<open>Tests of \<open>src/vendor/solana_rpc.rs\<close>\<close>

definition accepts_max_size_v1_base64_payload :: "codec_deps \<Rightarrow> u8 \<Rightarrow> bool" where
  "accepts_max_size_v1_base64_payload d V1_PREFIX =
     (let transaction = (replicate (MAX_TRANSACTION_SIZE d) 0)[0 := V1_PREFIX];
          text = base64_encode transaction
      in decode_transaction d text Base64 = Inr transaction)"

definition rejects_legacy_base64_payload_over_packet_size :: "codec_deps \<Rightarrow> bool" where
  "rejects_legacy_base64_payload_over_packet_size d =
     (let transaction = replicate (PACKET_DATA_SIZE d + 1) 0;
          text = base64_encode transaction
      in isl (decode_transaction d text Base64))"

section \<open>Tests of \<open>src/websocket_node_address_service.rs\<close>\<close>

text \<open>
  The stream of a test, when it is polled: an item or its end is there, or it stays pending for
  ever. From this and the state of the token follow the branches that \<open>select!\<close> can complete
  with, in a test that does nothing else meanwhile. A token that is cancelled makes the first
  branch ready at once. The second is ready at once if the stream is, as \<open>timeout\<close> polls its
  future before its timer, and when the timer has run out otherwise. Of two branches that are
  ready at once \<open>select!\<close> takes either.
\<close>

datatype 'n stream_poll = PollReady "'n option" | PollPending

definition select_waits :: "bool \<Rightarrow> 'n stream_poll \<Rightarrow> 'n wait list" where
  "select_waits cancelled poll =
     (let at_once = (if cancelled then [CancelReady] else []) @
            (case poll of PollReady item \<Rightarrow> [StreamNext item] | PollPending \<Rightarrow> [])
      in if at_once = [] then [TimeoutElapsed] else at_once)"

text \<open>An assertion on the result holds if it does for every branch that can be taken.\<close>

definition next_notification_is ::
  "nat \<Rightarrow> bool \<Rightarrow> 'n stream_poll \<Rightarrow> (notification_error + 'n option) \<Rightarrow> bool" where
  "next_notification_is stall_timeout cancelled notifications expected =
     list_all (\<lambda>w. next_notification stall_timeout w = expected)
       (select_waits cancelled notifications)"

text \<open>Time is in milliseconds here.\<close>

definition notification_is_returned_before_deadline :: bool where
  "notification_is_returned_before_deadline =
     (let notifications = PollReady (Some (42::nat)); cancelled = False
      in next_notification_is 20 cancelled notifications (Inr (Some 42)))"

definition cancellation_is_not_a_failure :: bool where
  "cancellation_is_not_a_failure =
     (let notifications = PollPending :: unit stream_poll; cancelled = True
      in next_notification_is 20 cancelled notifications (Inr None))"

definition closed_subscription_is_a_failure :: bool where
  "closed_subscription_is_a_failure =
     (let notifications = PollReady None :: unit stream_poll; cancelled = False
      in next_notification_is 20 cancelled notifications (Inl NotificationClosed))"

definition silent_subscription_stalls :: bool where
  "silent_subscription_stalls =
     (let notifications = PollPending :: unit stream_poll; cancelled = False; timeout = 10
      in next_notification_is timeout cancelled notifications (Inl (NotificationStalled timeout)))"

section \<open>Tests against a live node\<close>

text \<open>The policy account is fetched once by the first test and twice by the second.\<close>

definition test_fetch_blocked_validators_from_chain ::
  "'pk shield_deps \<Rightarrow> (string \<Rightarrow> string + 'pk) \<Rightarrow> ('pk \<Rightarrow> string list + bytes) \<Rightarrow> bool" where
  "test_fetch_blocked_validators_from_chain d pubkey_from_str account =
     (case pubkey_from_str ''4QXuzwHutRGjMHRfpGgZpaC9LEYR2wqVmLJBbPbK1zQo'' of
        Inl _ \<Rightarrow> False
      | Inr key \<Rightarrow>
          (case get_blocked_identities d key (account key) of
             Ok blocked_ips \<Rightarrow> blocked_ips \<noteq> []
           | _ \<Rightarrow> False))"

definition test_get_identities_for_key ::
  "'pk shield_deps \<Rightarrow> (string \<Rightarrow> string + 'pk) \<Rightarrow> ('pk \<Rightarrow> string list + bytes) \<Rightarrow>
   string list + contact_info list \<Rightarrow> ('pk \<Rightarrow> string list + bytes) \<Rightarrow> bool" where
  "test_get_identities_for_key d pubkey_from_str account cluster_nodes account2 =
     (case pubkey_from_str ''8LXyNpkdnCKCCaUWBku1wD2B1HHaZ41FRgFEN6jNmytv'' of
        Inl _ \<Rightarrow> False
      | Inr key \<Rightarrow>
          (case get_blocked_identities d key (account key) of
             Ok identities \<Rightarrow>
               identities \<noteq> [] \<and>
               (case get_blocked_ips d key cluster_nodes (account2 key) of
                  Ok addresses \<Rightarrow> addresses \<noteq> []
                | _ \<Rightarrow> False)
           | _ \<Rightarrow> False))"

text \<open>Both pass on a node that serves a Deny policy with an identity of a reachable validator.\<close>

lemma live_tests_pass:
  assumes "borsh_policy d" "borsh_policy_v2 d"
    and ids: "\<forall>c \<in> set ids. pubkey_try_from_slice d c = Some (pk c) \<and> length c = 32" "c0 \<in> set ids"
    and "mint = None \<or> (\<exists>m mpk. mint = Some m \<and> length m = 32 \<and> pubkey_try_from_slice d m = Some mpk)"
    and "length l = 4" "\<And>s. \<exists>k. pubkey_from_str s = Inr k"
    and account: "\<And>key. account key = Inr (policy_account mint 0 n l ids)"
    and node: "nd \<in> set nodes" "node_pubkey nd = pubkey_to_string d (pk c0)" "node_tpu_quic nd \<noteq> None"
  shows "test_fetch_blocked_validators_from_chain d pubkey_from_str account"
    and "test_get_identities_for_key d pubkey_from_str account (Inr nodes) account"
proof -
  have idents: "get_blocked_identities d key (account key) =
      Ok (map (\<lambda>c. pubkey_to_string d (pk c)) ids)" for key
    using deny_policy_identities [OF assms(1,2) ids(1) assms(5,6), of "[]" key n] by (simp add: account)
  have ne: "ids \<noteq> []" using ids(2) by auto
  obtain a where a: "node_tpu_quic nd = Some a" using node(3) by blast
  obtain k1 k2 where keys:
    "pubkey_from_str ''4QXuzwHutRGjMHRfpGgZpaC9LEYR2wqVmLJBbPbK1zQo'' = Inr k1"
    "pubkey_from_str ''8LXyNpkdnCKCCaUWBku1wD2B1HHaZ41FRgFEN6jNmytv'' = Inr k2"
    using assms(7) by metis
  obtain ips where "get_blocked_ips d k2 (Inr nodes) (account k2) = Ok ips" "a \<in> set ips"
    using blocked_ips_listed [OF idents [of k2] node(1) _ a] node(2) ids(2) by fastforce
  with ne keys(2) show "test_get_identities_for_key d pubkey_from_str account (Inr nodes) account"
    by (auto simp: test_get_identities_for_key_def idents)
  show "test_fetch_blocked_validators_from_chain d pubkey_from_str account"
    using ne keys(1) by (simp add: test_fetch_blocked_validators_from_chain_def idents)
qed

section \<open>The tests pass\<close>

lemma buffered_until_safe: "test_mev_protected_transactions_are_buffered_until_safe w"
proof -
  have "TpuClientPayload_decode ([1, 2, 3] @ [1]) = Some \<lparr>encoded = [1, 2, 3] @ [1]\<rparr>"
    "TpuClientPayload_decode ([4, 5, 6] @ [0]) = Some \<lparr>encoded = [4, 5, 6] @ [0]\<rparr>"
    by (rule decode_snoc)+
  moreover have "wire_transaction \<lparr>encoded = [1, 2, 3] @ [1]\<rparr> = Some [1, 2, 3]"
    "wire_transaction \<lparr>encoded = [4, 5, 6] @ [0]\<rparr> = Some [4, 5, 6]"
    by (rule wire_transaction_snoc)+
  moreover have "is_mev_protected \<lparr>encoded = [1, 2, 3] @ [1]\<rparr>"
    by (subst is_mev_protected_snoc) simp
  ultimately show ?thesis
    by (simp add: test_mev_protected_transactions_are_buffered_until_safe_def
        prepare_transactions_def Let_def)
qed

lemma payload_tests:
  "test_mev_protect_serialization_deserialization_case_true"
  "test_mev_protect_serialization_deserialization_case_false"
  using decode_snoc [of "[0, 128]" 1] wire_transaction_snoc [of "[0, 128]" 1]
    is_mev_protected_snoc [of "[0, 128]" 1]
    decode_snoc [of "[0, 128]" 0] wire_transaction_snoc [of "[0, 128]" 0]
    is_mev_protected_snoc [of "[0, 128]" 0]
  by (simp_all add: test_mev_protect_serialization_deserialization_case_true_def
      test_mev_protect_serialization_deserialization_case_false_def)

lemma codec_tests:
  assumes "base64_standard d" "solana_sizes d"
  shows "accepts_max_size_v1_base64_payload d 129"
    and "rejects_legacy_base64_payload_over_packet_size d"
proof -
  have "(replicate 4096 (0::u8))[0 := 129] = 129 # replicate 4095 0"
    by (simp add: numeral_eq_Suc)
  moreover have "decode_transaction d (base64_encode (129 # replicate 4095 0)) Base64 =
      Inr (129 # replicate 4095 0)"
    using decode_encoded [OF assms, of "129 # replicate 4095 0"]
      v1_prefixed_encode(2) [of "129 # replicate 4095 0"] by simp
  ultimately show "accepts_max_size_v1_base64_payload d 129"
    using assms(2) by (simp add: accepts_max_size_v1_base64_payload_def solana_sizes_def)
  have "\<not> v1_prefixed (base64_encode (replicate 1233 0))"
    by (rule v1_prefixed_encode(1)) simp_all
  then have over: "\<not> length (replicate 1233 (0::u8)) \<le>
      (if v1_prefixed (base64_encode (replicate 1233 0)) then 4096 else 1232)" by simp
  have "base64_decode d (base64_encode (replicate 1233 0)) = Inr (replicate 1233 0)"
    using assms(1) by (simp add: base64_standard_def)
  with over have "isl (decode_transaction d (base64_encode (replicate 1233 0)) Base64)"
    using assms(2) \<open>\<not> v1_prefixed _\<close>
    by (simp add: decode_transaction_def solana_sizes_def)
  then show "rejects_legacy_base64_payload_over_packet_size d"
    using assms(2) by (simp add: rejects_legacy_base64_payload_over_packet_size_def solana_sizes_def)
qed

text \<open>
  The eleven tests of the repository's own code that need no network, in any world: every
  assertion holds and no \<open>unwrap\<close> panics.
\<close>

lemma unit_tests_pass:
  assumes "base64_standard d" "solana_sizes d"
  shows "list_all (\<lambda>test. test)
    [test_blocked_validators_list w, detects_blocked_target_anywhere_in_send_fanout,
     test_mev_protected_transactions_are_buffered_until_safe w,
     test_mev_protect_serialization_deserialization_case_true,
     test_mev_protect_serialization_deserialization_case_false,
     accepts_max_size_v1_base64_payload d 129, rejects_legacy_base64_payload_over_packet_size d,
     notification_is_returned_before_deadline, cancellation_is_not_a_failure,
     closed_subscription_is_a_failure, silent_subscription_stalls]"
  by (simp add: buffered_until_safe payload_tests codec_tests [OF assms]
      test_blocked_validators_list_def detects_blocked_target_anywhere_in_send_fanout_def
      has_blocked_send_target_def notification_is_returned_before_deadline_def
      cancellation_is_not_a_failure_def closed_subscription_is_a_failure_def
      silent_subscription_stalls_def next_notification_is_def select_waits_def Let_def)

end
