(* ===== verification/Runtime_Config.thy ===== *)
theory Runtime_Config
  imports Iris_Prelude
begin

text \<open>
  \<open>src/runtime.rs\<close>: the configuration of a tokio runtime and the pinning of its threads to
  CPUs. What building a runtime comes to is decided by tokio: \<open>worker_threads(0)\<close> panics, and
  the operating system may refuse the threads. The hook that pins a thread is run by tokio on
  every thread it starts; the shared counter is the only state.
\<close>

section \<open>Configuration\<close>

record tokio_rt_config =
  num_threads :: usize
  cpus :: "usize list"

definition TokioRtConfig_threads :: "usize \<Rightarrow> tokio_rt_config" where
  "TokioRtConfig_threads n = \<lparr>num_threads = n, cpus = []\<rparr>"

text \<open>A runtime: its name, its number of workers, and the CPUs its start hook pins to, if it has one.\<close>

record tokio_runtime =
  rt_thread_name :: string
  rt_worker_threads :: usize
  rt_thread_start :: "usize list option"

text \<open>\<open>os\<close> says whether the operating system lets tokio build the runtime.\<close>

definition build_current_runtime :: "string + 'rt \<Rightarrow> (string list, 'rt) rust_result" where
  "build_current_runtime os = (case os of Inl _ \<Rightarrow> Panic | Inr rt \<Rightarrow> Ok rt)"

definition build_runtime ::
  "string \<Rightarrow> tokio_rt_config \<Rightarrow> string + unit \<Rightarrow> (string list, tokio_runtime) rust_result" where
  "build_runtime name config os =
     (if num_threads config = 0 then Panic
      else let hook = (if cpus config \<noteq> [] then Some (cpus config) else None)
           in case os of
                Inl _ \<Rightarrow> Panic
              | Inr _ \<Rightarrow> Ok \<lparr>rt_thread_name = name, rt_worker_threads = num_threads config,
                             rt_thread_start = hook\<rparr>)"

lemma build_runtime_Ok:
  "build_runtime name config os = Ok rt \<longleftrightarrow>
     num_threads config \<noteq> 0 \<and> os = Inr () \<and>
     rt = \<lparr>rt_thread_name = name, rt_worker_threads = num_threads config,
           rt_thread_start = (if cpus config = [] then None else Some (cpus config))\<rparr>"
  by (auto simp: build_runtime_def split: sum.splits)

lemma build_runtime_not_Err [simp]: "build_runtime name config os \<noteq> Err e"
  by (auto simp: build_runtime_def Let_def split: sum.splits)

section \<open>Pinning\<close>

text \<open>
  The hook on one thread: \<open>fetch_add\<close> returns the counter and moves it on, wrapping. The first
  component is the CPU the thread is pinned to; the outer \<open>None\<close> is a panic (an index out of
  range or a remainder by zero), the inner one that there is no hook.
\<close>

definition on_thread_start :: "usize list option \<Rightarrow> usize \<Rightarrow> usize option option \<times> usize" where
  "on_thread_start hook counter =
     (case hook of
        None \<Rightarrow> (Some None, counter)
      | Some cs \<Rightarrow>
          (let idx = unat counter; counter = counter + 1
           in if length cs = 0 then (None, counter)
              else let i = idx mod length cs
                   in if i < length cs then (Some (Some (cs ! i)), counter) else (None, counter)))"

text \<open>The threads a runtime starts, in the order in which they pass the counter.\<close>

fun start_threads ::
  "usize list option \<Rightarrow> nat \<Rightarrow> usize \<Rightarrow> usize option option list \<times> usize" where
  "start_threads hook 0 c = ([], c)"
| "start_threads hook (Suc n) c =
     (let (p, c1) = on_thread_start hook c; (ps, c2) = start_threads hook n c1 in (p # ps, c2))"

lemma on_thread_start_Some:
  "cs \<noteq> [] \<Longrightarrow> on_thread_start (Some cs) c = (Some (Some (cs ! (unat c mod length cs))), c + 1)"
  by (simp add: on_thread_start_def)

lemma length_start_threads [simp]: "length (fst (start_threads hook n c)) = n"
  by (induction n arbitrary: c) (simp_all add: case_prod_unfold Let_def)

lemma start_threads_nth:
  assumes "cs \<noteq> []" "k < n"
  shows "fst (start_threads (Some cs) n c) ! k =
    Some (Some (cs ! (unat (c + of_nat k) mod length cs)))"
  using assms(2)
proof (induction n arbitrary: c k)
  case (Suc n)
  then show ?case
    by (cases k) (simp_all add: on_thread_start_Some [OF assms(1)] case_prod_unfold Let_def add.assoc)
qed simp

lemma start_threads_unpinned:
  "start_threads None n c = (replicate n (Some None), c)"
  by (induction n) (simp_all add: on_thread_start_def)

text \<open>How many of the first \<open>n\<close> numbers leave the remainder \<open>i\<close>.\<close>

lemma length_filter_mod:
  fixes i m :: nat
  assumes "i < m"
  shows "length (filter (\<lambda>k. k mod m = i) [0..<n]) = (n + (m - 1 - i)) div m"
proof (induction n)
  case 0
  with assms show ?case by simp
next
  case (Suc n)
  let ?c = "m - 1 - i"
  have "Suc (n + ?c) mod m = 0 \<longleftrightarrow> n mod m = i"
  proof -
    have "Suc (n + ?c) = n + (m - i)" using assms by simp
    moreover have "(n + (m - i)) mod m = (n mod m + (m - i)) mod m" by (simp add: mod_add_left_eq)
    moreover have "(n mod m + (m - i)) mod m = 0 \<longleftrightarrow> n mod m = i"
    proof
      assume "(n mod m + (m - i)) mod m = 0"
      then obtain q where q: "n mod m + (m - i) = m * q" by (auto simp: mod_eq_0_iff_dvd dvd_def)
      have "n mod m + (m - i) < m * 2" "0 < n mod m + (m - i)"
        using assms mod_less_divisor [of m n] by linarith+
      with q have "q = 1" by (cases q) auto
      with q assms show "n mod m = i" by simp
    qed (use assms in simp)
    ultimately show ?thesis by metis
  qed
  with Suc show ?case by (simp add: div_Suc)
qed

section \<open>Properties\<close>

text \<open>
  C39: threads are pinned round-robin and fairly. The runtime of a configuration that names
  CPUs pins the \<open>k\<close>-th thread it starts to entry \<open>k mod n\<close> of the list of \<open>n\<close> CPUs, never
  running out of its bounds, so that of the first \<open>t\<close> threads every entry gets \<open>t / n\<close>,
  rounded up or down. Without CPUs no thread is pinned and the counter stays.
\<close>

theorem threads_pinned_round_robin:
  assumes "build_runtime name config os = Ok rt" and "t \<le> 2 ^ 64"
  shows "let pins = fst (start_threads (rt_thread_start rt) t 0); n = length (cpus config) in
    (if cpus config = [] then pins = replicate t (Some None)
     else (\<forall>k < t. pins ! k = Some (Some (cpus config ! (k mod n)))) \<and>
       (\<forall>i < n. length (filter (\<lambda>k. k mod n = i) [0..<t]) = (t + (n - 1 - i)) div n \<and>
          (t + (n - 1 - i)) div n \<in> {t div n, t div n + 1}))"
proof (cases "cpus config = []")
  case True
  with assms(1) have "rt_thread_start rt = None"
    by (simp add: build_runtime_Ok)
  with True show ?thesis by (simp add: start_threads_unpinned)
next
  case False
  let ?n = "length (cpus config)"
  have hook: "rt_thread_start rt = Some (cpus config)"
    using False assms(1) by (simp add: build_runtime_Ok)
  have nth: "fst (start_threads (rt_thread_start rt) t 0) ! k = Some (Some (cpus config ! (k mod ?n)))"
    if "k < t" for k
    using that assms(2) by (simp add: hook start_threads_nth [OF False] unat_of_nat)
  have fair: "(t + (?n - 1 - i)) div ?n \<in> {t div ?n, t div ?n + 1}" if "i < ?n" for i
  proof -
    have "t div ?n \<le> (t + (?n - 1 - i)) div ?n" by (rule div_le_mono) simp
    moreover have "(t + (?n - 1 - i)) div ?n \<le> (t + ?n) div ?n" by (rule div_le_mono) simp
    moreover have "(t + ?n) div ?n = t div ?n + 1" using False by (simp add: div_add_self2)
    ultimately show ?thesis by auto
  qed
  show ?thesis using False nth fair length_filter_mod by (simp add: Let_def)
qed

theorem threads_pinned_round_robin_witness:
  "\<exists>rt. build_runtime ''rt'' \<lparr>num_threads = 5, cpus = [8, 9]\<rparr> (Inr ()) = Ok rt \<and>
     fst (start_threads (rt_thread_start rt) 5 0) ! 4 = Some (Some 8)"
proof -
  obtain rt where rt: "build_runtime ''rt'' \<lparr>num_threads = 5, cpus = [8, 9]\<rparr> (Inr ()) = Ok rt"
    by (simp add: build_runtime_def)
  moreover have "(4::nat) mod Suc (Suc 0) = 0" by (simp flip: numeral_2_eq_2)
  ultimately show ?thesis using threads_pinned_round_robin [OF rt, of 5] by (simp add: Let_def)
qed

end
