(* ===== verification/Quic_Config.thy ===== *)
theory Quic_Config
  imports Quic_Server Runtime_Config
begin

text \<open>
  \<open>src/quic_server.rs\<close>, \<open>configure_server\<close> and \<open>spawn_new\<close>: the transport settings of the QUIC
  server and its start-up. The TLS layer of \<open>rustls\<close> and \<open>quinn\<close>, the default settings of
  \<open>quinn\<close> and the two constants of \<open>solana_streamer\<close> are parameters.
\<close>

section \<open>Settings\<close>

record ack_frequency =
  ack_eliciting_threshold :: nat
  max_ack_delay_ms :: "nat option"
  reordering_threshold :: nat

record transport_config =
  initial_rtt_ms :: nat
  ack_frequency_config :: "ack_frequency option"
  max_concurrent_uni_streams :: nat
  max_concurrent_bidi_streams :: nat
  max_idle_timeout_ms :: "nat option"
  datagram_receive_buffer_size :: "nat option"
  send_fairness :: bool
  segmentation_offload :: bool

text \<open>\<open>'crypto\<close> is the TLS configuration as \<open>quinn\<close> takes it.\<close>

record 'crypto quic_server_config =
  server_crypto :: 'crypto
  server_migration :: bool
  server_transport :: transport_config

record 'tls tls_settings =
  tls_config :: 'tls
  alpn_protocols :: "bytes list"
  key_log_to_file :: bool

record ('kp, 'cert, 'key, 'tls, 'crypto) quic_deps =
  new_dummy_x509_certificate :: "'kp \<Rightarrow> 'cert \<times> 'key"
  cert_pem :: "'cert \<Rightarrow> string"
  with_single_cert :: "'cert \<Rightarrow> 'key \<Rightarrow> string + 'tls"
  quic_server_config_try_from :: "'tls tls_settings \<Rightarrow> string + 'crypto"
  transport_default :: transport_config
  ack_frequency_default :: ack_frequency
  ALPN_TPU_PROTOCOL_ID :: bytes
  QUIC_MAX_TIMEOUT_ms :: nat

text \<open>A QUIC idle time-out is a variable-length integer of at most 62 bits.\<close>

definition idle_timeout_try_from :: "nat \<Rightarrow> nat option" where
  "idle_timeout_try_from ms = (if ms < 2 ^ 62 then Some ms else None)"

definition configure_server ::
  "('kp, 'cert, 'key, 'tls, 'crypto) quic_deps \<Rightarrow> 'kp \<Rightarrow> bool \<Rightarrow>
   (string, 'crypto quic_server_config \<times> string) rust_result" where
  "configure_server q identity_keypair is_colo =
     (let (cert, priv_key) = new_dummy_x509_certificate q identity_keypair;
          cert_chain_pem = cert_pem q cert
      in case with_single_cert q cert priv_key of
           Inl e \<Rightarrow> Err e
         | Inr tls \<Rightarrow>
             (case quic_server_config_try_from q
                     \<lparr>tls_config = tls, alpn_protocols = [ALPN_TPU_PROTOCOL_ID q],
                      key_log_to_file = True\<rparr> of
                Inl e \<Rightarrow> Err e
              | Inr crypto \<Rightarrow>
                  (let config = transport_default q;
                       config = (if is_colo
                                 then config\<lparr>initial_rtt_ms := 5,
                                        ack_frequency_config := Some
                                          ((ack_frequency_default q)\<lparr>ack_eliciting_threshold := 0,
                                             max_ack_delay_ms := Some 1,
                                             reordering_threshold := 2\<rparr>)\<rparr>
                                 else config);
                       config = config\<lparr>max_concurrent_uni_streams := 16384\<rparr>
                   in case idle_timeout_try_from (QUIC_MAX_TIMEOUT_ms q) of
                        None \<Rightarrow> Panic
                      | Some timeout \<Rightarrow>
                          (let config = config\<lparr>max_idle_timeout_ms := Some timeout,
                                 max_concurrent_bidi_streams := 0,
                                 datagram_receive_buffer_size := None,
                                 send_fairness := False,
                                 segmentation_offload := False\<rparr>
                           in Ok (\<lparr>server_crypto = crypto, server_migration = False,
                                   server_transport = config\<rparr>, cert_chain_pem)))))"

section \<open>Starting the server\<close>

text \<open>The thread of the server: what its closure captures.\<close>

record 'crypto quic_thread =
  qt_name :: string
  qt_config :: "'crypto quic_server_config"
  qt_bind_addr :: socket_addr
  qt_runtime :: tokio_runtime

definition quic_spawn_new ::
  "('kp, 'cert, 'key, 'tls, 'crypto) quic_deps \<Rightarrow> string + unit \<Rightarrow> string + unit \<Rightarrow>
   string \<Rightarrow> socket_addr \<Rightarrow> tokio_rt_config \<Rightarrow> 'kp \<Rightarrow> bool \<Rightarrow>
   (string list, 'crypto quic_thread) rust_result" where
  "quic_spawn_new q rt_os thread_os thread_name bind_addr rt_config identity_keypair is_colo =
     (case configure_server q identity_keypair is_colo of
        Panic \<Rightarrow> Panic
      | Err e \<Rightarrow> Err [e]
      | Ok (config, _) \<Rightarrow>
          rust_bind (build_runtime ''quic-server-rt'' rt_config rt_os)
            (\<lambda>rt. case thread_os of
                    Inl _ \<Rightarrow> Panic
                  | Inr _ \<Rightarrow> Ok \<lparr>qt_name = thread_name, qt_config = config,
                                 qt_bind_addr = bind_addr, qt_runtime = rt\<rparr>))"

text \<open>The body of the thread: \<open>endpoint\<close> is what \<open>Endpoint::server\<close> answers.\<close>

definition quic_thread_body ::
  "string + unit \<Rightarrow> 'conn endpoint_event list \<Rightarrow> 'z globals_scheme \<Rightarrow>
   'conn list \<times> 'z globals_scheme \<times> loop_exit" where
  "quic_thread_body endpoint es g =
     (case endpoint of Inl _ \<Rightarrow> ([], g, Panicked) | Inr _ \<Rightarrow> quic_server_loop es g)"

section \<open>Properties\<close>

text \<open>What the settings promise whatever \<open>quinn\<close> sets by default.\<close>

definition receive_only :: "transport_config \<Rightarrow> bool" where
  "receive_only c \<longleftrightarrow>
     max_concurrent_uni_streams c = 16384 \<and> max_concurrent_bidi_streams c = 0 \<and>
     datagram_receive_buffer_size c = None \<and> \<not> send_fairness c \<and> \<not> segmentation_offload c"

lemma configure_server_Ok:
  assumes "configure_server q kp is_colo = Ok (config, pem)"
  shows "receive_only (server_transport config) \<and> \<not> server_migration config \<and>
    max_idle_timeout_ms (server_transport config) = Some (QUIC_MAX_TIMEOUT_ms q) \<and>
    (\<not> is_colo \<longrightarrow> initial_rtt_ms (server_transport config) = initial_rtt_ms (transport_default q) \<and>
       ack_frequency_config (server_transport config) = ack_frequency_config (transport_default q))"
  using assms
  by (auto simp: configure_server_def receive_only_def idle_timeout_try_from_def Let_def
      split: prod.splits sum.splits if_splits)

text \<open>
  C36: a QUIC server that starts is receive-only. It takes at most 16384 concurrent
  unidirectional streams per connection, no bidirectional stream and no datagram, does not
  follow a peer to another address, closes idle connections after the time-out of the
  streamer, keeps the acknowledgement settings of \<open>quinn\<close> unless it is co-located, and runs on
  a runtime with at least one worker. It fails to start with an error only if the TLS layer
  refuses the certificate or the configuration.
\<close>

theorem quic_server_receive_only:
  "case quic_spawn_new q rt_os thread_os name addr rt_config kp is_colo of
     Ok t \<Rightarrow>
       receive_only (server_transport (qt_config t)) \<and> \<not> server_migration (qt_config t) \<and>
       max_idle_timeout_ms (server_transport (qt_config t)) = Some (QUIC_MAX_TIMEOUT_ms q) \<and>
       (is_colo \<or> ack_frequency_config (server_transport (qt_config t)) =
          ack_frequency_config (transport_default q)) \<and>
       qt_bind_addr t = addr \<and> rt_worker_threads (qt_runtime t) \<noteq> 0
   | Err e \<Rightarrow>
       (case new_dummy_x509_certificate q kp of (cert, key) \<Rightarrow>
          case with_single_cert q cert key of
            Inl x \<Rightarrow> e = [x]
          | Inr tls \<Rightarrow> \<exists>x. e = [x] \<and> quic_server_config_try_from q
              \<lparr>tls_config = tls, alpn_protocols = [ALPN_TPU_PROTOCOL_ID q], key_log_to_file = True\<rparr> = Inl x)
   | Panic \<Rightarrow> \<not> (0 < num_threads rt_config \<and> rt_os = Inr () \<and> thread_os = Inr () \<and>
       QUIC_MAX_TIMEOUT_ms q < 2 ^ 62)"
proof (cases "quic_spawn_new q rt_os thread_os name addr rt_config kp is_colo")
  case Panic
  then show ?thesis
    by (auto simp: quic_spawn_new_def configure_server_def idle_timeout_try_from_def Let_def
        build_runtime_def word_neq_0_conv split: rust_result.splits prod.splits sum.splits if_splits)
next
  case (Err e)
  then show ?thesis
    by (auto simp: quic_spawn_new_def configure_server_def Let_def
        split: rust_result.splits prod.splits sum.splits option.splits)
next
  case (Ok t)
  then obtain config pem where c: "configure_server q kp is_colo = Ok (config, pem)"
    by (auto simp: quic_spawn_new_def split: rust_result.splits)
  with Ok have "qt_config t = config" "qt_bind_addr t = addr" "rt_worker_threads (qt_runtime t) \<noteq> 0"
    by (auto simp: quic_spawn_new_def build_runtime_Ok split: sum.splits)
  with Ok configure_server_Ok [OF c] show ?thesis by auto
qed

end
