(* ===== verification/Otel_Tracer.thy ===== *)
theory Otel_Tracer
  imports Iris_Prelude
begin

text \<open>
  \<open>src/otel_tracer.rs\<close>: the subscribers that the process installs for its log output. A
  subscriber is the list of the layers put on top of the registry, each with the settings the
  code gives it. Parameters are the answers of the tracing and opentelemetry crates and of the
  web service that tells the public address.
\<close>

section \<open>Subscribers\<close>

text \<open>A filter, by its directives; the sink is the only one the program passes.\<close>

datatype env_filter = EnvFilter (directives: string)

datatype sink = Stdout

record otlp_export =
  export_endpoint :: string
  export_service_name :: string

datatype tracing_layer =
    TelemetryLayer string otlp_export
  | LoggingLayer otlp_export
  | FilterLayer env_filter
  | FormatLayer sink

type_synonym subscriber = "tracing_layer list"

record ip_response =
  response_ip :: string

text \<open>
  The answers: of the \<open>RUST_LOG\<close> variable, of the web service (a response is its text), of the
  two exporter builders, and of the two process-wide registrations.
\<close>

record tracing_env =
  filter_from_default_env :: "string + env_filter"
  http_get :: "string \<Rightarrow> string + string"
  response_json :: "string \<Rightarrow> string + ip_response"
  build_span_exporter :: "string \<Rightarrow> string + unit"
  build_log_exporter :: "string \<Rightarrow> string + unit"
  init_log_tracer :: "string + unit"
  set_global_default :: "string + unit"

section \<open>Building\<close>

definition default_env_filter :: "tracing_env \<Rightarrow> env_filter" where
  "default_env_filter t =
     (case filter_from_default_env t of Inl _ \<Rightarrow> EnvFilter ''info'' | Inr f \<Rightarrow> f)"

definition get_server_public_ip :: "tracing_env \<Rightarrow> string + string" where
  "get_server_public_ip t =
     (case http_get t ''https://api.ipify.org?format=json'' of
        Inl e \<Rightarrow> Inl e
      | Inr response \<Rightarrow>
          (case response_json t response of
             Inl e \<Rightarrow> Inl e
           | Inr ip_data \<Rightarrow> Inr (response_ip ip_data)))"

definition service_name :: "string + string \<Rightarrow> u16 \<Rightarrow> string" where
  "service_name public_ip bind_port =
     ''iris_'' @ (case public_ip of Inl _ \<Rightarrow> ''CANT_GET_IP'' | Inr ip \<Rightarrow> ip) @
     '':'' @ show_nat (unat bind_port)"

text \<open>\<open>None\<close> is the panic of one of the two \<open>expect\<close>s.\<close>

definition get_subscriber_with_otpl ::
  "tracing_env \<Rightarrow> env_filter \<Rightarrow> string \<Rightarrow> u16 \<Rightarrow> sink \<Rightarrow> subscriber option" where
  "get_subscriber_with_otpl t env_filter otpl_endpoint bind_port sink =
     (let export = \<lparr>export_endpoint = otpl_endpoint,
                    export_service_name = service_name (get_server_public_ip t) bind_port\<rparr>
      in case build_span_exporter t otpl_endpoint of
           Inl _ \<Rightarrow> None
         | Inr _ \<Rightarrow>
             (let telemetry_layer = TelemetryLayer ''iris'' export
              in case build_log_exporter t otpl_endpoint of
                   Inl _ \<Rightarrow> None
                 | Inr _ \<Rightarrow>
                     Some [telemetry_layer, LoggingLayer export, FilterLayer env_filter,
                           FormatLayer sink]))"

section \<open>Installing\<close>

text \<open>The subscriber that is the global default afterwards; \<open>None\<close> is a panic.\<close>

definition init_subscriber :: "tracing_env \<Rightarrow> subscriber \<Rightarrow> subscriber option" where
  "init_subscriber t subscriber =
     (case init_log_tracer t of
        Inl _ \<Rightarrow> None
      | Inr _ \<Rightarrow> (case set_global_default t of Inl _ \<Rightarrow> None | Inr _ \<Rightarrow> Some subscriber))"

definition init_subscriber_without_signoz :: "tracing_env \<Rightarrow> sink \<Rightarrow> subscriber option" where
  "init_subscriber_without_signoz t sink =
     (let env_filter = default_env_filter t;
          subscriber = [FormatLayer sink, FilterLayer env_filter]
      in case init_log_tracer t of
           Inl _ \<Rightarrow> None
         | Inr _ \<Rightarrow> (case set_global_default t of Inl _ \<Rightarrow> None | Inr _ \<Rightarrow> Some subscriber))"

section \<open>What is installed\<close>

definition registers :: "tracing_env \<Rightarrow> bool" where
  "registers t \<longleftrightarrow> init_log_tracer t = Inr () \<and> set_global_default t = Inr ()"

lemma init_subscriber_Some:
  "init_subscriber t sub = Some s \<longleftrightarrow> registers t \<and> s = sub"
  by (auto simp: init_subscriber_def registers_def split: sum.splits)

lemma init_subscriber_without_signoz_Some:
  "init_subscriber_without_signoz t sink = Some s \<longleftrightarrow>
     registers t \<and> s = [FormatLayer sink, FilterLayer (default_env_filter t)]"
  by (auto simp: init_subscriber_without_signoz_def registers_def Let_def split: sum.splits)

lemma get_subscriber_with_otpl_Some:
  "get_subscriber_with_otpl t f ep port sink = Some s \<longleftrightarrow>
     build_span_exporter t ep = Inr () \<and> build_log_exporter t ep = Inr () \<and>
     (let x = \<lparr>export_endpoint = ep,
               export_service_name = service_name (get_server_public_ip t) port\<rparr>
      in s = [TelemetryLayer ''iris'' x, LoggingLayer x, FilterLayer f, FormatLayer sink])"
  by (auto simp: get_subscriber_with_otpl_def Let_def split: sum.splits)

section \<open>Properties\<close>

text \<open>The port starts after the last colon, as a port has no colon.\<close>

lemma split_at_last_colon:
  assumes "a @ CHR '':'' # p = b @ CHR '':'' # q"
    and "CHR '':'' \<notin> set p" "CHR '':'' \<notin> set q"
  shows "a = b \<and> p = q"
proof -
  have r: "takeWhile (\<lambda>c. c \<noteq> CHR '':'') (rev (x @ CHR '':'' # z)) = rev z"
    if "CHR '':'' \<notin> set z" for x z :: string
    using that by (subst rev_append, simp) (auto simp: takeWhile_append)
  have "rev p = rev q" using r [OF assms(2), of a] r [OF assms(3), of b] assms(1) by simp
  with assms(1) show ?thesis by simp
qed

text \<open>
  Instances are told apart by their service name. Whatever the web service answers, two
  processes export under the same name exactly if they bind the same port and the addresses
  they were told are the same, where a failed lookup stands for the address
  \<open>CANT_GET_IP\<close>: an address with colons in it, as of IPv6, causes no confusion.
\<close>

lemma service_name_identifies:
  "service_name a p = service_name b q \<longleftrightarrow>
     (case a of Inl _ \<Rightarrow> ''CANT_GET_IP'' | Inr ip \<Rightarrow> ip) =
     (case b of Inl _ \<Rightarrow> ''CANT_GET_IP'' | Inr ip \<Rightarrow> ip) \<and> p = q"
proof -
  have "CHR '':'' \<notin> set (show_nat n)" for n
    using show_nat_digits [of "CHR '':''" n] by auto
  then show ?thesis
    by (auto simp: service_name_def dest!: split_at_last_colon intro: word_unat_eq_iff [THEN iffD2])
qed

end
