(* ===== verification/Main_Run.thy ===== *)
theory Main_Run
  imports Quic_Config Otel_Tracer
begin

text \<open>
  \<open>src/main.rs\<close>: the configuration, the start-up of the process (\<open>run\<close>), its end, and the two
  client commands. What the environment, the operating system and the other crates answer is
  the record \<open>run_env\<close>; what the process does to the outside is its list of effects, in order.
\<close>

section \<open>Configuration\<close>

record config =
  rpc_url :: string
  ws_url :: string
  address :: socket_addr
  identity_keypair_file :: "string option"
  num_connections :: usize
  tpu_client_rt :: "tokio_rt_config option"
  sender_channel_size :: "usize option"
  worker_channel_size :: usize
  max_reconnect_attempts :: usize
  leaders_fanout :: u8
  prometheus_addr :: socket_addr
  shield_policy_key :: "string option"
  otpl_endpoint :: "string option"
  otel_rt :: "tokio_rt_config option"
  rpc_rt :: "tokio_rt_config option"
  quic_rt :: "tokio_rt_config option"
  quic_bind_address :: "socket_addr option"
  is_colocated :: bool
  admin_bind_port :: "u16 option"

definition DEFAULT_TPU_SENDER_CHANNEL_SIZE :: usize where
  "DEFAULT_TPU_SENDER_CHANNEL_SIZE = 256"

definition DEFAULT_ADMIN_RPC_PORT :: u16 where
  "DEFAULT_ADMIN_RPC_PORT = 1504"

definition unwrap_or :: "'a option \<Rightarrow> 'a \<Rightarrow> 'a" where
  "unwrap_or m a = (case m of None \<Rightarrow> a | Some x \<Rightarrow> x)"

section \<open>Effects\<close>

record json_server_config =
  max_request_body_size :: nat
  max_connections :: nat
  keep_alive_secs :: "nat option"

definition json_rpc_server_config :: json_server_config where
  "json_rpc_server_config =
     \<lparr>max_request_body_size = 8 * 1024, max_connections = 10000, keep_alive_secs = Some 60\<rparr>"

datatype ('kp, 'pk) run_effect =
    InstalledCrypto
  | InstalledTracing "tokio_runtime option" subscriber
  | ListeningPrometheus socket_addr
  | StartedBroadcaster 'pk
  | BuiltTpuRuntime tokio_runtime
  | SpawnedReport
  | TpuEffect "'kp spawn_effect"
  | StartedAdmin 'pk socket_addr
  | StartedQuic socket_addr tokio_runtime
  | StartedJsonRpc socket_addr
  | JoinedJsonRpc
  | Cancelled
  | StoredShutdown
  | JoinedQuic

text \<open>
  An action ends with a value, by a panic, with an error of the function \<open>run\<close>, or it is still
  waiting for another thread; with each goes the list of what it did so far.
\<close>

datatype 'a outcome = Done 'a | Aborted | Returned_Err "string list" | Waits

type_synonym ('kp, 'pk, 'a) action = "'a outcome \<times> ('kp, 'pk) run_effect list"

definition act_bind ::
  "('kp, 'pk, 'a) action \<Rightarrow> ('a \<Rightarrow> ('kp, 'pk, 'b) action) \<Rightarrow> ('kp, 'pk, 'b) action" where
  "act_bind m f =
     (case m of
        (Done a, es) \<Rightarrow> (let (r, fs) = f a in (r, es @ fs))
      | (Aborted, es) \<Rightarrow> (Aborted, es)
      | (Returned_Err e, es) \<Rightarrow> (Returned_Err e, es)
      | (Waits, es) \<Rightarrow> (Waits, es))"

definition effect :: "('kp, 'pk) run_effect \<Rightarrow> ('kp, 'pk, unit) action" where
  "effect e = (Done (), [e])"

text \<open>\<open>expect\<close> of an option or a result, and the \<open>?\<close> operator after a call that may panic.\<close>

definition expect :: "'a option \<Rightarrow> ('kp, 'pk, 'a) action" where
  "expect m = (case m of None \<Rightarrow> (Aborted, []) | Some a \<Rightarrow> (Done a, []))"

definition expect_ok :: "'e + 'a \<Rightarrow> ('kp, 'pk, 'a) action" where
  "expect_ok m = (case m of Inl _ \<Rightarrow> (Aborted, []) | Inr a \<Rightarrow> (Done a, []))"

definition question_mark :: "(string list, 'a) rust_result \<Rightarrow> ('kp, 'pk, 'a) action" where
  "question_mark r =
     (case r of Panic \<Rightarrow> (Aborted, []) | Err e \<Rightarrow> (Returned_Err e, []) | Ok a \<Rightarrow> (Done a, []))"

lemma act_bind_simps [simp]:
  "act_bind (Done a, es) f = (fst (f a), es @ snd (f a))"
  "act_bind (Aborted, es) f = (Aborted, es)"
  "act_bind (Returned_Err e, es) f = (Returned_Err e, es)"
  "act_bind (Waits, es) f = (Waits, es)"
  by (simp_all add: act_bind_def case_prod_unfold Let_def)

section \<open>The environment\<close>

text \<open>How the future of the JSON-RPC server completes: the server stopped, or the token fired.\<close>

datatype json_end = JsonStopped | JsonCancelled | JsonRunning

record ('kp, 'pk, 'sock, 'up, 'cl, 'cert, 'key, 'tls, 'crypto) run_env =
  install_crypto :: "string + unit"
  extract_config :: "string + config"
  tracing :: tracing_env
  read_keypair_file :: "string \<Rightarrow> string + 'kp"
  keypair_pubkey :: "'kp \<Rightarrow> 'pk"
  pubkey_from_str :: "string \<Rightarrow> string + 'pk"
  install_prometheus :: "socket_addr \<Rightarrow> string + unit"
  runtime_os :: "string \<Rightarrow> string + unit"
  thread_os :: "string \<Rightarrow> string + unit"
  bind_udp :: "string list + 'sock"
  run_service :: "u8 \<Rightarrow> string list + 'up"
  build_client :: "'kp client_config \<Rightarrow> string list + 'cl"
  keypair_new :: 'kp
  quic :: "('kp, 'cert, 'key, 'tls, 'crypto) quic_deps"
  bind_json :: "socket_addr \<Rightarrow> string + unit"
  json_end :: json_end
  quic_exit :: loop_exit

section \<open>Starting and joining the threads\<close>

definition init_tracing ::
  "('kp, 'pk, 'sock, 'up, 'cl, 'cert, 'key, 'tls, 'crypto) run_env \<Rightarrow> config \<Rightarrow> env_filter \<Rightarrow>
   ('kp, 'pk, unit) action" where
  "init_tracing env config env_filter =
     (case otpl_endpoint config of
        Some endpoint \<Rightarrow>
          act_bind (question_mark (build_runtime ''otel-rt''
                      (unwrap_or (otel_rt config) (TokioRtConfig_threads 1))
                      (runtime_os env ''otel-rt'')))
            (\<lambda>rt. act_bind (expect (get_subscriber_with_otpl (tracing env) env_filter endpoint
                              (addr_port (address config)) Stdout))
              (\<lambda>subscriber. act_bind (expect (init_subscriber (tracing env) subscriber))
                (\<lambda>s. effect (InstalledTracing (Some rt) s))))
      | None \<Rightarrow>
          act_bind (expect (init_subscriber_without_signoz (tracing env) Stdout))
            (\<lambda>s. effect (InstalledTracing None s)))"

text \<open>How the thread of the JSON-RPC server ends, if it does.\<close>

definition json_rpc_thread ::
  "('kp, 'pk, 'sock, 'up, 'cl, 'cert, 'key, 'tls, 'crypto) run_env \<Rightarrow> tokio_rt_config \<Rightarrow>
   socket_addr \<Rightarrow> loop_exit" where
  "json_rpc_thread env rt_config bind_address =
     (case build_runtime ''json_rpc_next_rt'' rt_config (runtime_os env ''json_rpc_next_rt'') of
        Ok rt \<Rightarrow>
          (case bind_json env bind_address of
             Inl _ \<Rightarrow> Panicked
           | Inr _ \<Rightarrow>
               (case json_end env of
                  JsonStopped \<Rightarrow> Stopped
                | JsonCancelled \<Rightarrow> Stopped
                | JsonRunning \<Rightarrow> StillRunning))
      | _ \<Rightarrow> Panicked)"

definition spawn_json_rpc_server ::
  "('kp, 'pk, 'sock, 'up, 'cl, 'cert, 'key, 'tls, 'crypto) run_env \<Rightarrow> tokio_rt_config \<Rightarrow>
   socket_addr \<Rightarrow> ('kp, 'pk, loop_exit) action" where
  "spawn_json_rpc_server env rt_config bind_address =
     act_bind (expect_ok (thread_os env ''rpc-t''))
       (\<lambda>_. (Done (json_rpc_thread env rt_config bind_address), [StartedJsonRpc bind_address]))"

text \<open>Joining a thread and unwrapping the result: a panic of the thread is one of the joiner.\<close>

definition join_expect :: "loop_exit \<Rightarrow> ('kp, 'pk, unit) action" where
  "join_expect x =
     (case x of Stopped \<Rightarrow> (Done (), []) | Panicked \<Rightarrow> (Aborted, []) | StillRunning \<Rightarrow> (Waits, []))"

definition start_tpu ::
  "('kp, 'pk, 'sock, 'up, 'cl, 'cert, 'key, 'tls, 'crypto) run_env \<Rightarrow> config \<Rightarrow> u8 \<Rightarrow> 'kp \<Rightarrow>
   ('kp, 'pk, 'cl) action" where
  "start_tpu env config lookahead_leaders identity_keypair =
     (case spawn_tpu_client_next (bind_udp env) (run_service env lookahead_leaders)
             (build_client env) (ucast (leaders_fanout config)) (num_connections config)
             identity_keypair
             (unwrap_or (sender_channel_size config) DEFAULT_TPU_SENDER_CHANNEL_SIZE)
             (worker_channel_size config) (max_reconnect_attempts config) of
        (Ok client, effects) \<Rightarrow> (Done client, map TpuEffect effects)
      | (_, effects) \<Rightarrow> (Aborted, map TpuEffect effects))"

definition zip_option :: "'a option \<Rightarrow> 'b option \<Rightarrow> ('a \<times> 'b) option" where
  "zip_option a b = (case (a, b) of (Some x, Some y) \<Rightarrow> Some (x, y) | _ \<Rightarrow> None)"

definition start_quic ::
  "('kp, 'pk, 'sock, 'up, 'cl, 'cert, 'key, 'tls, 'crypto) run_env \<Rightarrow> config \<Rightarrow>
   ('kp, 'pk, loop_exit option) action" where
  "start_quic env config =
     (case zip_option (quic_rt config) (quic_bind_address config) of
        Some (quic_rt_config, bind_addr) \<Rightarrow>
          act_bind (question_mark (quic_spawn_new (quic env) (runtime_os env ''quic-server-rt'')
                      (thread_os env ''iris-quic-server'') ''iris-quic-server'' bind_addr
                      quic_rt_config (keypair_new env) (is_colocated config)))
            (\<lambda>t. (Done (Some (quic_exit env)), [StartedQuic (qt_bind_addr t) (qt_runtime t)]))
      | None \<Rightarrow> (Done None, []))"

text \<open>\<open>SocketAddr::from(([127, 0, 0, 1], port))\<close>\<close>

definition admin_address :: "config \<Rightarrow> socket_addr" where
  "admin_address config =
     SocketAddr (V4 127 0 0 1) (unwrap_or (admin_bind_port config) DEFAULT_ADMIN_RPC_PORT)"

text \<open>What follows the start: wait for the JSON-RPC server, then cancel and wait for QUIC.\<close>

definition await_shutdown :: "loop_exit \<Rightarrow> loop_exit option \<Rightarrow> ('kp, 'pk, unit) action" where
  "await_shutdown rpc_t maybe_quic_server =
     act_bind (join_expect rpc_t) (\<lambda>_.
     act_bind (effect JoinedJsonRpc) (\<lambda>_.
     act_bind (effect Cancelled) (\<lambda>_.
     act_bind (effect StoredShutdown) (\<lambda>_.
       case maybe_quic_server of
         None \<Rightarrow> (Done (), [])
       | Some quic_t \<Rightarrow> act_bind (join_expect quic_t) (\<lambda>_. effect JoinedQuic)))))"

section \<open>The whole start-up\<close>

definition identity_of_config ::
  "('kp, 'pk, 'sock, 'up, 'cl, 'cert, 'key, 'tls, 'crypto) run_env \<Rightarrow> config \<Rightarrow> 'kp option" where
  "identity_of_config env config =
     Option.bind (identity_keypair_file config)
       (\<lambda>file. case read_keypair_file env file of Inl _ \<Rightarrow> None | Inr kp \<Rightarrow> Some kp)"

definition shield_key_of_config ::
  "('kp, 'pk, 'sock, 'up, 'cl, 'cert, 'key, 'tls, 'crypto) run_env \<Rightarrow> config \<Rightarrow> 'pk option" where
  "shield_key_of_config env config =
     Option.bind (shield_policy_key config)
       (\<lambda>s. case pubkey_from_str env s of Inl _ \<Rightarrow> None | Inr k \<Rightarrow> Some k)"

text \<open>The servers, once the configuration has been read: how their threads end is known only
  when they are joined.\<close>

definition run_servers ::
  "build_profile \<Rightarrow> ('kp, 'pk, 'sock, 'up, 'cl, 'cert, 'key, 'tls, 'crypto) run_env \<Rightarrow> config \<Rightarrow>
   'kp \<Rightarrow> 'pk \<Rightarrow> ('kp, 'pk, loop_exit \<times> loop_exit option) action" where
  "run_servers pr env config identity_keypair shield_key =
     act_bind (expect_ok (install_prometheus env (prometheus_addr config))) (\<lambda>_.
     act_bind (effect (ListeningPrometheus (prometheus_addr config))) (\<lambda>_.
     act_bind (expect (add_profile pr (leaders_fanout config) 1)) (\<lambda>lookahead_leaders.
     act_bind (expect_ok (thread_os env ''mev-broadcast-refrest'')) (\<lambda>_.
     act_bind (effect (StartedBroadcaster shield_key)) (\<lambda>_.
     act_bind (question_mark (build_runtime ''tpu_client_next_rt''
                 (unwrap_or (tpu_client_rt config) (TokioRtConfig_threads 2))
                 (runtime_os env ''tpu_client_next_rt''))) (\<lambda>rt.
     act_bind (effect (BuiltTpuRuntime rt)) (\<lambda>_.
     act_bind (effect SpawnedReport) (\<lambda>_.
     act_bind (start_tpu env config lookahead_leaders identity_keypair) (\<lambda>client.
     act_bind (expect_ok (thread_os env ''admin-rpc-server'')) (\<lambda>_.
     act_bind (effect (StartedAdmin (keypair_pubkey env identity_keypair) (admin_address config)))
       (\<lambda>_.
     act_bind (start_quic env config) (\<lambda>maybe_quic_server.
     act_bind (spawn_json_rpc_server env (unwrap_or (rpc_rt config) (TokioRtConfig_threads 4))
                 (address config)) (\<lambda>rpc_t.
     (Done (rpc_t, maybe_quic_server), []))))))))))))))"

definition run_start ::
  "build_profile \<Rightarrow> ('kp, 'pk, 'sock, 'up, 'cl, 'cert, 'key, 'tls, 'crypto) run_env \<Rightarrow>
   ('kp, 'pk, loop_exit \<times> loop_exit option) action" where
  "run_start pr env =
     act_bind (expect_ok (install_crypto env)) (\<lambda>_.
     act_bind (effect InstalledCrypto) (\<lambda>_.
     let env_filter = default_env_filter (tracing env) in
     act_bind (expect_ok (extract_config env)) (\<lambda>config.
     act_bind (init_tracing env config env_filter) (\<lambda>_.
     act_bind (expect (identity_of_config env config)) (\<lambda>identity_keypair.
     act_bind (expect (shield_key_of_config env config)) (\<lambda>shield_key.
     run_servers pr env config identity_keypair shield_key))))))"

definition run ::
  "build_profile \<Rightarrow> ('kp, 'pk, 'sock, 'up, 'cl, 'cert, 'key, 'tls, 'crypto) run_env \<Rightarrow>
   ('kp, 'pk, unit) action" where
  "run pr env = act_bind (run_start pr env)
     (\<lambda>(rpc_t, maybe_quic_server). await_shutdown rpc_t maybe_quic_server)"

section \<open>Lemmas\<close>

lemma act_bind_Done:
  "fst (act_bind m f) = Done b \<longleftrightarrow> (\<exists>a. fst m = Done a \<and> fst (f a) = Done b)"
  by (cases m; cases "fst m") auto

lemma act_bind_effects:
  "e \<in> set (snd (act_bind m f)) \<longleftrightarrow>
     e \<in> set (snd m) \<or> (\<exists>a. fst m = Done a \<and> e \<in> set (snd (f a)))"
  by (cases m; cases "fst m") auto

lemma effect_simps [simp]:
  "fst (effect e) = Done ()" "snd (effect e) = [e]"
  "act_bind (effect e) f = (fst (f ()), e # snd (f ()))"
  by (simp_all add: effect_def)

lemma expect_simps [simp]:
  "fst (expect m) = Done a \<longleftrightarrow> m = Some a" "snd (expect m) = []"
  "fst (expect_ok r) = Done b \<longleftrightarrow> r = Inr b" "snd (expect_ok r) = []"
  "fst (question_mark q) = Done c \<longleftrightarrow> q = Ok c" "snd (question_mark q) = []"
  by (auto simp: expect_def expect_ok_def question_mark_def split: option.splits sum.splits rust_result.splits)

lemma expect_ok_Inr: "expect_ok (Inr a) = (Done a, [])"
  by (simp add: expect_ok_def)

lemma got:
  "expect_ok (Inr a) = (Done a, [])" "expect (Some b) = (Done b, [])"
  "question_mark (Ok c) = (Done c, [])"
  by (simp_all add: expect_ok_def expect_def question_mark_def)

lemma fst_act_bind:
  "fst (act_bind m f) =
     (case fst m of Done a \<Rightarrow> fst (f a) | Aborted \<Rightarrow> Aborted | Returned_Err e \<Rightarrow> Returned_Err e
      | Waits \<Rightarrow> Waits)"
  by (cases m; cases "fst m") simp_all

lemma snd_act_bind:
  "snd (act_bind m f) = snd m @ (case fst m of Done a \<Rightarrow> snd (f a) | _ \<Rightarrow> [])"
  by (cases m; cases "fst m") simp_all

lemmas act_simps = act_bind_Done act_bind_effects

definition shutdown_sequence :: "('kp, 'pk) run_effect list" where
  "shutdown_sequence = [JoinedJsonRpc, Cancelled, StoredShutdown, JoinedQuic]"

definition quic_started :: "('kp, 'pk) run_effect list \<Rightarrow> bool" where
  "quic_started es \<longleftrightarrow> (\<exists>a rt. StartedQuic a rt \<in> set es)"

lemma await_shutdown_cases:
  "await_shutdown rpc_t mq =
     (case rpc_t of
        Panicked \<Rightarrow> (Aborted, [])
      | StillRunning \<Rightarrow> (Waits, [])
      | Stopped \<Rightarrow>
          (case mq of
             None \<Rightarrow> (Done (), take 3 shutdown_sequence)
           | Some Stopped \<Rightarrow> (Done (), shutdown_sequence)
           | Some Panicked \<Rightarrow> (Aborted, take 3 shutdown_sequence)
           | Some StillRunning \<Rightarrow> (Waits, take 3 shutdown_sequence)))"
  by (auto simp: await_shutdown_def join_expect_def shutdown_sequence_def
      split: loop_exit.split option.split)

lemma init_tracing_effects:
  "e \<in> set (snd (init_tracing env config f)) \<Longrightarrow> \<exists>m s. e = InstalledTracing m s"
  by (auto simp: init_tracing_def act_simps split: option.splits)

lemma start_tpu_effects:
  "e \<in> set (snd (start_tpu env config l kp)) \<Longrightarrow> \<exists>t. e = TpuEffect t"
  by (auto simp: start_tpu_def split: prod.splits rust_result.splits)

lemma start_quic_effects:
  "e \<in> set (snd (start_quic env config)) \<Longrightarrow>
     (\<exists>a rt. e = StartedQuic a rt) \<and> fst (start_quic env config) = Done (Some (quic_exit env))"
  by (auto simp: start_quic_def act_simps act_bind_def question_mark_def Let_def
      split: option.splits prod.splits rust_result.splits)

lemma quic_spawn_new_Ok:
  "quic_spawn_new q ros tos name addr c kp colo = Ok t \<Longrightarrow> qt_bind_addr t = addr"
  by (cases tos) (auto simp: quic_spawn_new_def split: rust_result.splits)

lemma start_quic_Done:
  "fst (start_quic env config) = Done mq \<Longrightarrow>
     (mq = None \<and> snd (start_quic env config) = [] \<and>
        (quic_rt config = None \<or> quic_bind_address config = None)) \<or>
     (mq = Some (quic_exit env) \<and> (\<exists>a rt c. snd (start_quic env config) = [StartedQuic a rt] \<and>
        quic_bind_address config = Some a \<and> quic_rt config = Some c))"
  by (auto simp: start_quic_def zip_option_def act_bind_def question_mark_def Let_def
      dest!: quic_spawn_new_Ok split: option.splits prod.splits rust_result.splits)

lemma run_servers_no_shutdown:
  "e \<in> set (snd (run_servers pr env config kp sk)) \<Longrightarrow> e \<notin> set shutdown_sequence"
  by (auto simp: run_servers_def act_simps spawn_json_rpc_server_def shutdown_sequence_def
      dest!: start_tpu_effects start_quic_effects)

lemma shutdown_sequence_early [simp]:
  "InstalledCrypto \<notin> set shutdown_sequence" "InstalledTracing m s \<notin> set shutdown_sequence"
  by (simp_all add: shutdown_sequence_def)

lemma run_start_no_shutdown: "set (snd (run_start pr env)) \<inter> set shutdown_sequence = {}"
  by (auto simp: run_start_def act_simps dest!: init_tracing_effects run_servers_no_shutdown)

lemma run_servers_quic:
  assumes "fst (run_servers pr env config kp sk) = Done (rpc_t, mq)"
  shows "mq = (if quic_started (snd (run_servers pr env config kp sk))
    then Some (quic_exit env) else None)"
proof -
  from assms have mq: "fst (start_quic env config) = Done mq"
    by (auto simp: run_servers_def act_simps)
  have "quic_started (snd (run_servers pr env config kp sk)) \<longleftrightarrow>
      quic_started (snd (start_quic env config))"
    using assms by (auto simp: run_servers_def act_simps quic_started_def spawn_json_rpc_server_def
        dest!: start_tpu_effects)
  with start_quic_Done [OF mq] show ?thesis by (auto simp: quic_started_def)
qed

lemma run_start_quic:
  assumes "fst (run_start pr env) = Done (rpc_t, mq)"
  shows "mq = (if quic_started (snd (run_start pr env)) then Some (quic_exit env) else None)"
proof -
  from assms obtain config kp sk where
    s: "fst (run_servers pr env config kp sk) = Done (rpc_t, mq)"
    and "extract_config env = Inr config" "identity_of_config env config = Some kp"
      "shield_key_of_config env config = Some sk" "install_crypto env = Inr ()"
      "fst (init_tracing env config (default_env_filter (tracing env))) = Done ()"
    by (auto simp: run_start_def act_simps)
  then have "quic_started (snd (run_start pr env)) \<longleftrightarrow>
      quic_started (snd (run_servers pr env config kp sk))"
    by (auto simp: run_start_def act_simps quic_started_def dest!: init_tracing_effects)
  with run_servers_quic [OF s] show ?thesis by simp
qed

text \<open>What \<open>init_tracing\<close> comes to, if it does not panic.\<close>

definition subscriber_of :: "tracing_env \<Rightarrow> config \<Rightarrow> subscriber" where
  "subscriber_of t config =
     (case otpl_endpoint config of
        None \<Rightarrow> [FormatLayer Stdout, FilterLayer (default_env_filter t)]
      | Some endpoint \<Rightarrow>
          (let export = \<lparr>export_endpoint = endpoint, export_service_name =
                 service_name (get_server_public_ip t) (addr_port (address config))\<rparr>
           in [TelemetryLayer ''iris'' export, LoggingLayer export,
               FilterLayer (default_env_filter t), FormatLayer Stdout]))"

lemma init_tracing_cases:
  "(\<exists>rt. init_tracing env config (default_env_filter (tracing env)) =
      (Done (), [InstalledTracing rt (subscriber_of (tracing env) config)]) \<and>
      (rt = None \<longleftrightarrow> otpl_endpoint config = None)) \<or>
   init_tracing env config (default_env_filter (tracing env)) = (Aborted, [])"
  by (auto simp: init_tracing_def subscriber_of_def expect_def question_mark_def effect_def Let_def
      init_subscriber_without_signoz_Some init_subscriber_Some get_subscriber_with_otpl_Some
      split: option.splits rust_result.split)

section \<open>What has been started\<close>

definition client_config_of :: "config \<Rightarrow> 'kp \<Rightarrow> 'kp client_config" where
  "client_config_of config kp =
     \<lparr>cfg_identity = kp,
      cfg_sender_channel_size = (case sender_channel_size config of None \<Rightarrow> 256 | Some n \<Rightarrow> n),
      cfg_worker_channel_size = worker_channel_size config,
      cfg_max_reconnect_attempts = max_reconnect_attempts config,
      cfg_leader_send_fanout = ucast (leaders_fanout config),
      cfg_max_cache_size = num_connections config\<rparr>"

lemma start_tpu_client:
  assumes "TpuEffect (BuiltClient c) \<in> set (snd (start_tpu env config l kp))"
  shows "c = client_config_of config kp \<and> num_connections config \<noteq> 0 \<and> (\<exists>u. run_service env l = Inr u)"
  using assms
  by (auto simp: start_tpu_def spawn_tpu_client_next_def client_config_of_def unwrap_or_def
      DEFAULT_TPU_SENDER_CHANNEL_SIZE_def Let_def split: prod.splits sum.splits if_splits)

lemma start_tpu_Done:
  assumes "fst (start_tpu env config l kp) = Done cl"
  shows "TpuEffect (BuiltClient (client_config_of config kp)) \<in> set (snd (start_tpu env config l kp)) \<and>
    TpuEffect SpawnedFlushTask \<in> set (snd (start_tpu env config l kp))"
  using assms
  by (auto simp: start_tpu_def spawn_tpu_client_next_def client_config_of_def unwrap_or_def
      DEFAULT_TPU_SENDER_CHANNEL_SIZE_def Let_def split: prod.splits sum.splits if_splits)

lemma await_effects: "e \<in> set (snd (await_shutdown rpc_t mq)) \<Longrightarrow> e \<in> set shutdown_sequence"
  by (auto simp: await_shutdown_cases dest: in_set_takeD split: loop_exit.splits option.splits)

text \<open>An effect of the process that is none of its end comes from the servers, or from before them.\<close>

lemma run_effects:
  assumes "e \<in> set (snd (run pr env))" "e \<notin> set shutdown_sequence"
    "e \<noteq> InstalledCrypto" "\<And>m s. e \<noteq> InstalledTracing m s"
  obtains config kp sk where "extract_config env = Inr config" "identity_of_config env config = Some kp"
    "shield_key_of_config env config = Some sk"
    "e \<in> set (snd (run_servers pr env config kp sk))"
    "set (snd (run_servers pr env config kp sk)) \<subseteq> set (snd (run pr env))"
proof -
  have "e \<in> set (snd (run_start pr env))"
    using assms(1,2) by (auto simp: run_def act_simps dest: await_effects split: prod.splits)
  with assms(3,4) show thesis
    by (auto simp: run_start_def act_simps run_def intro!: that dest!: init_tracing_effects)
qed

lemma run_effects_config:
  assumes "e \<in> set (snd (run pr env))" "extract_config env = Inr config" "e \<notin> set shutdown_sequence"
    "e \<noteq> InstalledCrypto" "\<And>m s. e \<noteq> InstalledTracing m s"
  shows "\<exists>kp sk. identity_of_config env config = Some kp \<and> shield_key_of_config env config = Some sk \<and>
    e \<in> set (snd (run_servers pr env config kp sk))"
proof (rule run_effects [OF assms(1,3,4,5)])
  fix config' kp sk
  assume "extract_config env = Inr config'" "identity_of_config env config' = Some kp"
    "shield_key_of_config env config' = Some sk" "e \<in> set (snd (run_servers pr env config' kp sk))"
  with assms(2) show ?thesis by auto
qed

lemma run_servers_admin:
  assumes "StartedAdmin pk a \<in> set (snd (run_servers pr env config kp sk))"
  shows "pk = keypair_pubkey env kp \<and> a = admin_address config \<and>
    {ListeningPrometheus (prometheus_addr config), StartedBroadcaster sk, SpawnedReport,
     TpuEffect (BuiltClient (client_config_of config kp)), TpuEffect SpawnedFlushTask} \<subseteq>
       set (snd (run_servers pr env config kp sk))"
  using assms
  by (auto simp: run_servers_def act_simps spawn_json_rpc_server_def
      dest!: start_tpu_effects start_quic_effects dest: start_tpu_Done)

lemma run_servers_json:
  assumes "StartedJsonRpc a \<in> set (snd (run_servers pr env config kp sk))"
  shows "a = address config \<and>
    StartedAdmin (keypair_pubkey env kp) (admin_address config) \<in>
      set (snd (run_servers pr env config kp sk)) \<and>
    (case zip_option (quic_rt config) (quic_bind_address config) of
       None \<Rightarrow> \<not> quic_started (snd (run_servers pr env config kp sk))
     | Some (_, b) \<Rightarrow> \<exists>rt. StartedQuic b rt \<in> set (snd (run_servers pr env config kp sk)))"
  using assms
  by (auto simp: run_servers_def act_simps spawn_json_rpc_server_def quic_started_def zip_option_def
      dest!: start_tpu_effects start_quic_effects start_quic_Done split: option.splits)

text \<open>A start that gets through leaves its effects in this order.\<close>

lemma run_servers_Done:
  assumes "fst (run_servers pr env config kp sk) = Done v"
  obtains l rt cl where
    "snd (run_servers pr env config kp sk) =
      [ListeningPrometheus (prometheus_addr config), StartedBroadcaster sk, BuiltTpuRuntime rt,
       SpawnedReport] @ snd (start_tpu env config l kp) @
      [StartedAdmin (keypair_pubkey env kp) (admin_address config)] @
      snd (start_quic env config) @ [StartedJsonRpc (address config)]"
    "fst (start_tpu env config l kp) = Done cl" "fst (start_quic env config) = Done (snd v)"
    "fst v = json_rpc_thread env (unwrap_or (rpc_rt config) (TokioRtConfig_threads 4)) (address config)"
proof -
  from assms obtain l rt cl mq where
    ok: "install_prometheus env (prometheus_addr config) = Inr ()"
      "add_profile pr (leaders_fanout config) 1 = Some l"
      "thread_os env ''mev-broadcast-refrest'' = Inr ()"
      "build_runtime ''tpu_client_next_rt''
         (unwrap_or (tpu_client_rt config) (TokioRtConfig_threads 2))
         (runtime_os env ''tpu_client_next_rt'') = Ok rt"
      "fst (start_tpu env config l kp) = Done cl" "thread_os env ''admin-rpc-server'' = Inr ()"
      "fst (start_quic env config) = Done mq" "thread_os env ''rpc-t'' = Inr ()" "snd v = mq"
      "fst v = json_rpc_thread env (unwrap_or (rpc_rt config) (TokioRtConfig_threads 4)) (address config)"
    by (auto simp: run_servers_def act_bind_Done spawn_json_rpc_server_def)
  obtain es where tpu: "start_tpu env config l kp = (Done cl, es)"
    using ok(5) by (metis prod.collapse)
  obtain qs where quic: "start_quic env config = (Done mq, qs)"
    using ok(7) by (metis prod.collapse)
  have "snd (run_servers pr env config kp sk) =
      [ListeningPrometheus (prometheus_addr config), StartedBroadcaster sk, BuiltTpuRuntime rt,
       SpawnedReport] @ snd (start_tpu env config l kp) @
      [StartedAdmin (keypair_pubkey env kp) (admin_address config)] @
      snd (start_quic env config) @ [StartedJsonRpc (address config)]"
    using ok tpu quic
    by (simp add: run_servers_def spawn_json_rpc_server_def got)
  with ok that show thesis by simp
qed

lemma run_servers_json_Done:
  assumes "StartedJsonRpc a \<in> set (snd (run_servers pr env config kp sk))"
  shows "\<exists>v. fst (run_servers pr env config kp sk) = Done v"
  using assms
  by (auto simp: run_servers_def act_simps spawn_json_rpc_server_def
      dest!: start_tpu_effects start_quic_effects)

lemma split_at_unique:
  assumes "pre @ e # post = xs @ e' # ys" "e \<notin> set xs" "e \<notin> set ys"
  shows "pre = xs \<and> e = e' \<and> post = ys"
  using assms by (auto simp: append_eq_append_conv2 Cons_eq_append_conv append_eq_Cons_conv)

lemma await_take: "\<exists>n. snd (await_shutdown rpc_t mq) = take n shutdown_sequence"
proof -
  have "[] = take 0 (shutdown_sequence :: ('a, 'b) run_effect list)"
    "shutdown_sequence = take 4 (shutdown_sequence :: ('a, 'b) run_effect list)"
    by (simp_all add: shutdown_sequence_def)
  then show ?thesis
    unfolding await_shutdown_cases by (cases rpc_t; cases mq; cases "the mq") auto
qed

text \<open>A start that gets through, from the first effect to the last.\<close>

lemma run_start_Done:
  assumes "fst (run_start pr env) = Done v"
  obtains config kp sk m s l rt cl where
    "extract_config env = Inr config" "identity_of_config env config = Some kp"
    "shield_key_of_config env config = Some sk"
    "snd (run_start pr env) =
      ([InstalledCrypto, InstalledTracing m s, ListeningPrometheus (prometheus_addr config),
        StartedBroadcaster sk, BuiltTpuRuntime rt, SpawnedReport] @
       snd (start_tpu env config l kp) @
       [StartedAdmin (keypair_pubkey env kp) (admin_address config)] @ snd (start_quic env config)) @
      [StartedJsonRpc (address config)]"
    "fst (start_tpu env config l kp) = Done cl" "fst (start_quic env config) = Done (snd v)"
    "fst v = json_rpc_thread env (unwrap_or (rpc_rt config) (TokioRtConfig_threads 4)) (address config)"
proof -
  from assms obtain config kp sk where env: "install_crypto env = Inr ()"
      "extract_config env = Inr config"
      "fst (init_tracing env config (default_env_filter (tracing env))) = Done ()"
      "identity_of_config env config = Some kp" "shield_key_of_config env config = Some sk"
    and v: "fst (run_servers pr env config kp sk) = Done v"
    by (auto simp: run_start_def act_bind_Done Let_def)
  obtain m s where tr: "init_tracing env config (default_env_filter (tracing env)) =
      (Done (), [InstalledTracing m s])"
    using env(3) init_tracing_cases [of env config] by auto
  obtain l rt cl where servers: "snd (run_servers pr env config kp sk) =
      [ListeningPrometheus (prometheus_addr config), StartedBroadcaster sk, BuiltTpuRuntime rt,
       SpawnedReport] @ snd (start_tpu env config l kp) @
      [StartedAdmin (keypair_pubkey env kp) (admin_address config)] @
      snd (start_quic env config) @ [StartedJsonRpc (address config)]"
    "fst (start_tpu env config l kp) = Done cl" "fst (start_quic env config) = Done (snd v)"
    "fst v = json_rpc_thread env (unwrap_or (rpc_rt config) (TokioRtConfig_threads 4)) (address config)"
    by (rule run_servers_Done [OF v])
  have "snd (run_start pr env) =
      InstalledCrypto # InstalledTracing m s # snd (run_servers pr env config kp sk)"
    using env tr unfolding run_start_def by (simp add: got Let_def)
  then show thesis using that env servers by simp
qed

lemma run_start_json_Done:
  assumes "StartedJsonRpc a \<in> set (snd (run_start pr env))"
  obtains v where "fst (run_start pr env) = Done v"
  using assms run_servers_json_Done
  by (fastforce simp: run_start_def act_simps Let_def dest!: init_tracing_effects)

lemma snd_run_Done:
  assumes "fst (run_start pr env) = Done (rpc_t, mq)"
  shows "snd (run pr env) = snd (run_start pr env) @ snd (await_shutdown rpc_t mq)"
  using assms by (simp add: run_def snd_act_bind)

text \<open>What has started by the time the JSON-RPC server starts.\<close>

lemma before_json:
  assumes "fst (start_tpu env config l kp) = Done cl" "fst (start_quic env config) = Done mq"
    "pre = [InstalledCrypto, InstalledTracing m s, ListeningPrometheus (prometheus_addr config),
        StartedBroadcaster sk, BuiltTpuRuntime rt, SpawnedReport] @
       snd (start_tpu env config l kp) @
       [StartedAdmin (keypair_pubkey env kp) (admin_address config)] @ snd (start_quic env config)"
  shows "StartedJsonRpc a \<notin> set pre"
    "{ListeningPrometheus (prometheus_addr config), StartedBroadcaster sk, SpawnedReport,
      TpuEffect (BuiltClient (client_config_of config kp)), TpuEffect SpawnedFlushTask,
      StartedAdmin (keypair_pubkey env kp) (admin_address config)} \<subseteq> set pre"
    "case (quic_rt config, quic_bind_address config) of
       (Some _, Some b) \<Rightarrow> \<exists>rt. StartedQuic b rt \<in> set pre
     | _ \<Rightarrow> \<not> quic_started pre"
    "quic_started pre \<longleftrightarrow> quic_rt config \<noteq> None \<and> quic_bind_address config \<noteq> None"
proof -
  note tpu = start_tpu_effects [of _ env config l kp]
  show "StartedJsonRpc a \<notin> set pre"
    unfolding assms(3) by (auto dest: tpu start_quic_effects)
  show "{ListeningPrometheus (prometheus_addr config), StartedBroadcaster sk, SpawnedReport,
      TpuEffect (BuiltClient (client_config_of config kp)), TpuEffect SpawnedFlushTask,
      StartedAdmin (keypair_pubkey env kp) (admin_address config)} \<subseteq> set pre"
    unfolding assms(3) using start_tpu_Done [OF assms(1)] by simp
  show "case (quic_rt config, quic_bind_address config) of
       (Some _, Some b) \<Rightarrow> \<exists>rt. StartedQuic b rt \<in> set pre
     | _ \<Rightarrow> \<not> quic_started pre"
    unfolding assms(3) using start_quic_Done [OF assms(2)]
    by (auto simp: quic_started_def dest: tpu split: option.split)
  show "quic_started pre \<longleftrightarrow> quic_rt config \<noteq> None \<and> quic_bind_address config \<noteq> None"
    unfolding assms(3) using start_quic_Done [OF assms(2)]
    by (auto simp: quic_started_def dest: tpu) blast
qed

section \<open>Properties\<close>

lemma run_splits_at_shutdown:
  "\<exists>n. snd (run pr env) = snd (run_start pr env) @ take n shutdown_sequence \<and> n \<in> {0, 3, 4} \<and>
     (n \<noteq> 0 \<longrightarrow> (\<exists>mq. fst (run_start pr env) = Done (Stopped, mq))) \<and>
     (fst (run pr env) = Done () \<longleftrightarrow> n = (if quic_started (snd (run_start pr env)) then 4 else 3)) \<and>
     (n = 3 \<and> quic_started (snd (run_start pr env)) \<longrightarrow> quic_exit env \<noteq> Stopped \<and>
        fst (run pr env) = (if quic_exit env = Panicked then Aborted else Waits))"
proof -
  let ?pre = "snd (run_start pr env)"
  obtain r where start: "run_start pr env = (r, ?pre)" by (cases "run_start pr env") simp
  have len: "length (shutdown_sequence :: ('a, 'b) run_effect list) = 4"
    by (simp add: shutdown_sequence_def)
  show ?thesis
  proof (cases r)
    case (Done v)
    obtain rpc_t mq where v: "v = (rpc_t, mq)" by (cases v)
    have fst_start: "fst (run_start pr env) = Done (rpc_t, mq)" using start Done v by (metis fst_conv)
    note mq = run_start_quic [OF fst_start]
    have "run pr env = (let w = await_shutdown rpc_t mq in (fst w, ?pre @ snd w))"
      unfolding run_def by (subst start) (simp add: Done v Let_def)
    then show ?thesis
      using mq fst_start len
      by (cases rpc_t; cases "quic_exit env"; cases "quic_started ?pre")
         (force simp: await_shutdown_cases
            intro: exI [of _ "0::nat"] exI [of _ "3::nat"] exI [of _ "4::nat"])+
  next
    case Aborted
    then have "run pr env = (Aborted, ?pre)" unfolding run_def by (subst start) simp
    then show ?thesis by (intro exI [of _ 0]) simp
  next
    case (Returned_Err e)
    then have "run pr env = (Returned_Err e, ?pre)" unfolding run_def by (subst start) simp
    then show ?thesis by (intro exI [of _ 0]) simp
  next
    case Waits
    then have "run pr env = (Waits, ?pre)" unfolding run_def by (subst start) simp
    then show ?thesis by (intro exI [of _ 0]) simp
  qed
qed

lemma start_complete:
  assumes "fst (run_start pr env) = Done (Stopped, mq)"
  shows "\<exists>config. extract_config env = Inr config \<and>
    (\<exists>ready k. snd (run_start pr env) = ready @ [StartedJsonRpc (address config)] \<and>
       StartedAdmin k (admin_address config) \<in> set ready) \<and>
    (quic_started (snd (run_start pr env)) \<longleftrightarrow>
       quic_rt config \<noteq> None \<and> quic_bind_address config \<noteq> None) \<and>
    json_rpc_thread env (unwrap_or (rpc_rt config) (TokioRtConfig_threads 4)) (address config) = Stopped"
proof (rule run_start_Done [OF assms])
  fix config kp sk m s l rt cl
  let ?ready = "[InstalledCrypto, InstalledTracing m s, ListeningPrometheus (prometheus_addr config),
        StartedBroadcaster sk, BuiltTpuRuntime rt, SpawnedReport] @
       snd (start_tpu env config l kp) @
       [StartedAdmin (keypair_pubkey env kp) (admin_address config)] @ snd (start_quic env config)"
  assume config: "extract_config env = Inr config"
    and shape: "snd (run_start pr env) = ?ready @ [StartedJsonRpc (address config)]"
    and ok: "fst (start_tpu env config l kp) = Done cl"
      "fst (start_quic env config) = Done (snd (Stopped, mq))"
    and thread: "fst (Stopped, mq) =
      json_rpc_thread env (unwrap_or (rpc_rt config) (TokioRtConfig_threads 4)) (address config)"
  have ready: "\<exists>ready k. snd (run_start pr env) = ready @ [StartedJsonRpc (address config)] \<and>
      StartedAdmin k (admin_address config) \<in> set ready"
    using shape before_json(2) [OF ok refl] by blast
  have "quic_started (snd (run_start pr env)) \<longleftrightarrow> quic_started ?ready"
    unfolding shape by (auto simp: quic_started_def)
  also have "\<dots> \<longleftrightarrow> quic_rt config \<noteq> None \<and> quic_bind_address config \<noteq> None"
    by (rule before_json(4) [OF ok refl])
  finally show ?thesis using config ready thread by auto
qed

text \<open>
  C21: the process starts up and shuts down in order. Whatever the outside answers, what \<open>run\<close>
  does is a start-up part, in which nothing is cancelled or joined, followed by none, three or
  all four of: join the JSON-RPC server, cancel the token all other parts hold, store the flag,
  join the QUIC server. The shutdown only begins when the start-up part is complete: the admin
  server has been started, the QUIC server has been started if and only if both its runtime and
  its address are configured, the JSON-RPC server has been started, as the last effect of the
  start-up, on the configured address, and its thread has ended without a panic. It returns \<open>Ok\<close> exactly when it got through them, the last one only if a QUIC
  server was started; if that server's thread has not ended well, \<open>run\<close> has nevertheless
  cancelled everything before it panics or waits.
\<close>

theorem run_shuts_down_in_order:
  "\<exists>pre n. snd (run pr env) = pre @ take n shutdown_sequence \<and> n \<in> {0, 3, 4} \<and>
     set pre \<inter> set shutdown_sequence = {} \<and>
     (n \<noteq> 0 \<longrightarrow> (\<exists>config ready k. extract_config env = Inr config \<and>
        pre = ready @ [StartedJsonRpc (address config)] \<and>
        StartedAdmin k (admin_address config) \<in> set ready \<and>
        (quic_started pre \<longleftrightarrow> quic_rt config \<noteq> None \<and> quic_bind_address config \<noteq> None) \<and>
        json_rpc_thread env (unwrap_or (rpc_rt config) (TokioRtConfig_threads 4)) (address config)
          = Stopped)) \<and>
     (fst (run pr env) = Done () \<longleftrightarrow> n = (if quic_started pre then 4 else 3)) \<and>
     (n = 3 \<and> quic_started pre \<longrightarrow> quic_exit env \<noteq> Stopped \<and>
        fst (run pr env) = (if quic_exit env = Panicked then Aborted else Waits))"
proof -
  obtain n where n: "snd (run pr env) = snd (run_start pr env) @ take n shutdown_sequence"
      "n \<in> {0, 3, 4}" "n \<noteq> 0 \<longrightarrow> (\<exists>mq. fst (run_start pr env) = Done (Stopped, mq))"
      "fst (run pr env) = Done () \<longleftrightarrow> n = (if quic_started (snd (run_start pr env)) then 4 else 3)"
      "n = 3 \<and> quic_started (snd (run_start pr env)) \<longrightarrow> quic_exit env \<noteq> Stopped \<and>
        fst (run pr env) = (if quic_exit env = Panicked then Aborted else Waits)"
    using run_splits_at_shutdown by blast
  have "\<exists>config ready k. extract_config env = Inr config \<and>
      snd (run_start pr env) = ready @ [StartedJsonRpc (address config)] \<and>
      StartedAdmin k (admin_address config) \<in> set ready \<and>
      (quic_started (snd (run_start pr env)) \<longleftrightarrow>
         quic_rt config \<noteq> None \<and> quic_bind_address config \<noteq> None) \<and>
      json_rpc_thread env (unwrap_or (rpc_rt config) (TokioRtConfig_threads 4)) (address config)
        = Stopped" if nz: "n \<noteq> 0"
  proof -
    obtain mq where "fst (run_start pr env) = Done (Stopped, mq)" using n(3) nz by blast
    from start_complete [OF this] show ?thesis by blast
  qed
  then show ?thesis
    using n run_start_no_shutdown
    by (intro exI [of _ "snd (run_start pr env)"] exI [of _ n] conjI impI) auto
qed

section \<open>A sample environment\<close>

definition local_addr :: "u16 \<Rightarrow> socket_addr" where
  "local_addr n = SocketAddr (V4 127 0 0 1) n"

definition sample_config :: config where
  "sample_config =
     \<lparr>rpc_url = ''http'', ws_url = ''ws'', address = local_addr 80,
      identity_keypair_file = Some ''id'', num_connections = 4, tpu_client_rt = None,
      sender_channel_size = None, worker_channel_size = 2, max_reconnect_attempts = 4,
      leaders_fanout = 255, prometheus_addr = local_addr 90, shield_policy_key = Some ''key'',
      otpl_endpoint = None, otel_rt = None, rpc_rt = None, quic_rt = None,
      quic_bind_address = None, is_colocated = False, admin_bind_port = None\<rparr>"

definition sample_transport :: transport_config where
  "sample_transport =
     \<lparr>initial_rtt_ms = 333, ack_frequency_config = None, max_concurrent_uni_streams = 100,
      max_concurrent_bidi_streams = 100, max_idle_timeout_ms = Some 30000,
      datagram_receive_buffer_size = Some 1, send_fairness = True, segmentation_offload = True\<rparr>"

definition sample_quic :: "(nat, unit, unit, unit, unit) quic_deps" where
  "sample_quic =
     \<lparr>new_dummy_x509_certificate = (\<lambda>_. ((), ())), cert_pem = (\<lambda>_. []),
      with_single_cert = (\<lambda>_ _. Inr ()), quic_server_config_try_from = (\<lambda>_. Inr ()),
      transport_default = sample_transport,
      ack_frequency_default = \<lparr>ack_eliciting_threshold = 1, max_ack_delay_ms = None,
        reordering_threshold = 2\<rparr>,
      ALPN_TPU_PROTOCOL_ID = [115], QUIC_MAX_TIMEOUT_ms = 60000\<rparr>"

definition sample_tracing :: tracing_env where
  "sample_tracing =
     \<lparr>filter_from_default_env = Inl ''unset'', http_get = (\<lambda>_. Inl ''offline''),
      response_json = (\<lambda>_. Inl ''empty''), build_span_exporter = (\<lambda>_. Inr ()),
      build_log_exporter = (\<lambda>_. Inr ()), init_log_tracer = Inr (),
      set_global_default = Inr ()\<rparr>"

definition sample_env :: "(nat, nat, unit, unit, unit, unit, unit, unit, unit) run_env" where
  "sample_env =
     \<lparr>install_crypto = Inr (), extract_config = Inr sample_config, tracing = sample_tracing,
      read_keypair_file = (\<lambda>_. Inr 7), keypair_pubkey = (\<lambda>kp. kp),
      pubkey_from_str = (\<lambda>_. Inr 9), install_prometheus = (\<lambda>_. Inr ()),
      runtime_os = (\<lambda>_. Inr ()), thread_os = (\<lambda>_. Inr ()), bind_udp = Inr (),
      run_service = (\<lambda>_. Inr ()), build_client = (\<lambda>_. Inr ()), keypair_new = 3,
      quic = sample_quic, bind_json = (\<lambda>_. Inr ()), json_end = JsonStopped,
      quic_exit = Stopped\<rparr>"

lemma sample_env_starts:
  "StartedJsonRpc (local_addr 80) \<in> set (snd (run Release sample_env)) \<and>
   StartedAdmin 7 (local_addr 1504) \<in> set (snd (run Release sample_env))"
  by (simp add: run_def run_start_def run_servers_def sample_env_def sample_config_def
      expect_ok_Inr init_tracing_def init_subscriber_without_signoz_def sample_tracing_def identity_of_config_def shield_key_of_config_def expect_def
      question_mark_def build_runtime_def unwrap_or_def TokioRtConfig_threads_def start_tpu_def
      spawn_tpu_client_next_def start_quic_def zip_option_def spawn_json_rpc_server_def
      admin_address_def DEFAULT_ADMIN_RPC_PORT_def local_addr_def Let_def)

lemma sample_env_ends:
  "fst (run Release sample_env) = Done () \<and> \<not> quic_started (snd (run Release sample_env))"
  by (simp add: run_def run_start_def run_servers_def sample_env_def sample_config_def
      expect_ok_Inr init_tracing_def init_subscriber_without_signoz_def sample_tracing_def identity_of_config_def shield_key_of_config_def expect_def
      question_mark_def build_runtime_def unwrap_or_def TokioRtConfig_threads_def start_tpu_def
      spawn_tpu_client_next_def start_quic_def zip_option_def spawn_json_rpc_server_def
      json_rpc_thread_def await_shutdown_def join_expect_def quic_started_def Let_def)

theorem run_shuts_down_in_order_witness:
  "\<exists>ready k. snd (run Release sample_env) =
       ready @ [StartedJsonRpc (local_addr 80), JoinedJsonRpc, Cancelled, StoredShutdown] \<and>
     StartedAdmin k (local_addr 1504) \<in> set ready"
proof -
  obtain pre n where run: "snd (run Release sample_env) = pre @ take n shutdown_sequence"
    and ready: "n \<noteq> 0 \<longrightarrow> (\<exists>config ready k. extract_config sample_env = Inr config \<and>
        pre = ready @ [StartedJsonRpc (address config)] \<and>
        StartedAdmin k (admin_address config) \<in> set ready)"
    and fin: "fst (run Release sample_env) = Done () \<longleftrightarrow> n = (if quic_started pre then 4 else 3)"
    using run_shuts_down_in_order [of Release sample_env] by blast
  have "\<not> quic_started pre"
    using sample_env_ends run by (auto simp: quic_started_def)
  with fin sample_env_ends have "n = 3" by simp
  with ready obtain ready k where "pre = ready @ [StartedJsonRpc (local_addr 80)]"
      "StartedAdmin k (local_addr 1504) \<in> set ready"
    by (auto simp: sample_env_def sample_config_def admin_address_def unwrap_or_def
        DEFAULT_ADMIN_RPC_PORT_def local_addr_def)
  with run \<open>n = 3\<close> show ?thesis
    by (intro exI [of _ ready] exI [of _ k]) (simp add: shutdown_sequence_def numeral_3_eq_3)
qed

section \<open>What is running when the servers start\<close>

text \<open>
  C22: the JSON-RPC server starts last. At the moment it starts, everything it needs is already
  running: the configuration was read, with an identity and a shield key that parse, the
  server's address is the configured one, and before that effect of the run the exporter was
  listening, the broadcaster refreshing from that shield key, the statistics reported, the TPU
  client built from the configuration (its channel holds 256 messages by default) and flushed,
  the admin server started, and a QUIC server started on the address configured for it, if
  both its runtime and its address are configured, and otherwise none. Nothing else is started
  after it: what follows is the shutdown sequence, or the beginning of it.
\<close>

theorem json_rpc_starts_last:
  assumes "snd (run pr env) = pre @ StartedJsonRpc a # post"
  shows "\<exists>config kp sk n. extract_config env = Inr config \<and>
    identity_of_config env config = Some kp \<and> shield_key_of_config env config = Some sk \<and>
    a = address config \<and>
    {ListeningPrometheus (prometheus_addr config), StartedBroadcaster sk, SpawnedReport,
     TpuEffect (BuiltClient (client_config_of config kp)), TpuEffect SpawnedFlushTask,
     StartedAdmin (keypair_pubkey env kp) (admin_address config)} \<subseteq> set pre \<and>
    (case (quic_rt config, quic_bind_address config) of
       (Some _, Some b) \<Rightarrow> \<exists>rt. StartedQuic b rt \<in> set pre
     | _ \<Rightarrow> \<not> quic_started pre) \<and>
    post = take n shutdown_sequence"
proof -
  have none: "StartedJsonRpc a \<notin> set shutdown_sequence" by (simp add: shutdown_sequence_def)
  have "StartedJsonRpc a \<in> set (snd (run pr env))" using assms by simp
  with none have json: "StartedJsonRpc a \<in> set (snd (run_start pr env))"
    by (auto simp: run_def act_simps dest: await_effects split: prod.splits)
  obtain rpc_t mq where v: "fst (run_start pr env) = Done (rpc_t, mq)"
    by (rule run_start_json_Done [OF json]) auto
  obtain n where n: "snd (await_shutdown rpc_t mq) = take n (shutdown_sequence :: ('a, 'b) run_effect list)"
    using await_take by blast
  show ?thesis
  proof (rule run_start_Done [OF v])
    fix config kp sk m s l rt cl
    let ?ready = "[InstalledCrypto, InstalledTracing m s, ListeningPrometheus (prometheus_addr config),
        StartedBroadcaster sk, BuiltTpuRuntime rt, SpawnedReport] @
       snd (start_tpu env config l kp) @
       [StartedAdmin (keypair_pubkey env kp) (admin_address config)] @ snd (start_quic env config)"
    assume env: "extract_config env = Inr config" "identity_of_config env config = Some kp"
        "shield_key_of_config env config = Some sk"
      and shape: "snd (run_start pr env) = ?ready @ [StartedJsonRpc (address config)]"
      and ok: "fst (start_tpu env config l kp) = Done cl"
        "fst (start_quic env config) = Done (snd (rpc_t, mq))"
    note before = before_json [OF ok refl]
    have run: "pre @ StartedJsonRpc a # post =
        ?ready @ StartedJsonRpc (address config) # take n shutdown_sequence"
      using assms snd_run_Done [OF v] shape n by simp
    have "StartedJsonRpc a \<notin> set (take n shutdown_sequence)"
      using none by (meson in_set_takeD)
    from split_at_unique [OF run before(1) this]
    have "pre = ?ready \<and> a = address config \<and> post = take n shutdown_sequence" by blast
    then show ?thesis using env before(2,3) by blast
  qed
qed

theorem json_rpc_starts_last_witness:
  "\<exists>pre post n. snd (run Release sample_env) = pre @ StartedJsonRpc (local_addr 80) # post \<and>
     StartedBroadcaster 9 \<in> set pre \<and> SpawnedReport \<in> set pre \<and>
     \<not> quic_started pre \<and> post = take n shutdown_sequence"
proof -
  obtain pre post where split: "snd (run Release sample_env) = pre @ StartedJsonRpc (local_addr 80) # post"
    using sample_env_starts [THEN conjunct1] by (meson split_list)
  then show ?thesis
    using json_rpc_starts_last [OF split]
    by (auto simp: sample_env_def sample_config_def shield_key_of_config_def)
qed

text \<open>A run in which the admin server starts: what comes before it, and nothing of that after.\<close>

lemma run_servers_admin_shape:
  assumes "StartedAdmin pk a \<in> set (snd (run_servers pr env config kp sk))"
  obtains l rt cl rest where
    "snd (run_servers pr env config kp sk) =
      [ListeningPrometheus (prometheus_addr config), StartedBroadcaster sk, BuiltTpuRuntime rt,
       SpawnedReport] @ snd (start_tpu env config l kp) @
      StartedAdmin (keypair_pubkey env kp) (admin_address config) # rest"
    "fst (start_tpu env config l kp) = Done cl"
    "\<And>e. e \<in> set rest \<Longrightarrow> (\<exists>b q. e = StartedQuic b q) \<or> (\<exists>b. e = StartedJsonRpc b)"
proof -
  from assms obtain l rt cl where ok:
      "install_prometheus env (prometheus_addr config) = Inr ()"
      "add_profile pr (leaders_fanout config) 1 = Some l"
      "thread_os env ''mev-broadcast-refrest'' = Inr ()"
      "build_runtime ''tpu_client_next_rt''
         (unwrap_or (tpu_client_rt config) (TokioRtConfig_threads 2))
         (runtime_os env ''tpu_client_next_rt'') = Ok rt"
      "fst (start_tpu env config l kp) = Done cl" "thread_os env ''admin-rpc-server'' = Inr ()"
    by (auto simp: run_servers_def act_simps spawn_json_rpc_server_def
        dest!: start_tpu_effects start_quic_effects)
  obtain es where tpu: "start_tpu env config l kp = (Done cl, es)"
    using ok(5) by (metis prod.collapse)
  let ?rest = "snd (act_bind (start_quic env config) (\<lambda>mq.
     act_bind (spawn_json_rpc_server env (unwrap_or (rpc_rt config) (TokioRtConfig_threads 4))
                 (address config)) (\<lambda>rpc_t. (Done (rpc_t, mq), []))))"
  have "snd (run_servers pr env config kp sk) =
      [ListeningPrometheus (prometheus_addr config), StartedBroadcaster sk, BuiltTpuRuntime rt,
       SpawnedReport] @ snd (start_tpu env config l kp) @
      StartedAdmin (keypair_pubkey env kp) (admin_address config) # ?rest"
    using ok tpu by (simp add: run_servers_def got)
  moreover have "(\<exists>b q. e = StartedQuic b q) \<or> (\<exists>b. e = StartedJsonRpc b)" if "e \<in> set ?rest" for e
    using that by (auto simp: act_simps spawn_json_rpc_server_def dest: start_quic_effects)
  ultimately show thesis using that ok(5) by blast
qed

text \<open>The effects of a start, around those of the servers.\<close>

lemma run_start_around:
  assumes "e \<in> set (snd (run_start pr env))" "e \<noteq> InstalledCrypto" "\<And>m s. e \<noteq> InstalledTracing m s"
  obtains config kp sk m s where
    "extract_config env = Inr config" "e \<in> set (snd (run_servers pr env config kp sk))"
    "snd (run_start pr env) =
       [InstalledCrypto, InstalledTracing m s] @ snd (run_servers pr env config kp sk)"
proof -
  have none: "e \<notin> set (snd (init_tracing env config f))" for config f
    using init_tracing_effects assms(3) by blast
  with assms(1,2) obtain config kp sk where env: "install_crypto env = Inr ()"
      "extract_config env = Inr config"
      "fst (init_tracing env config (default_env_filter (tracing env))) = Done ()"
      "identity_of_config env config = Some kp" "shield_key_of_config env config = Some sk"
    and e: "e \<in> set (snd (run_servers pr env config kp sk))"
    by (auto simp: run_start_def act_simps Let_def)
  obtain m s where tr: "init_tracing env config (default_env_filter (tracing env)) =
      (Done (), [InstalledTracing m s])"
    using env(3) init_tracing_cases [of env config] by auto
  have "snd (run_start pr env) =
      [InstalledCrypto, InstalledTracing m s] @ snd (run_servers pr env config kp sk)"
    using env tr unfolding run_start_def by (simp add: got Let_def)
  with env(2) e that show thesis by blast
qed

lemma run_around_servers:
  assumes "e \<in> set (snd (run pr env))" "e \<notin> set shutdown_sequence"
    "e \<noteq> InstalledCrypto" "\<And>m s. e \<noteq> InstalledTracing m s"
  obtains config kp sk m s n where
    "e \<in> set (snd (run_servers pr env config kp sk))"
    "snd (run pr env) = [InstalledCrypto, InstalledTracing m s] @
       snd (run_servers pr env config kp sk) @ take n shutdown_sequence"
proof -
  have here: "e \<in> set (snd (run_start pr env))"
    using assms(1,2) by (auto simp: run_def act_simps dest: await_effects split: prod.splits)
  obtain n where "snd (run pr env) = snd (run_start pr env) @ take n shutdown_sequence"
    using run_splits_at_shutdown by blast
  moreover obtain config kp sk m s where
    "e \<in> set (snd (run_servers pr env config kp sk))"
    "snd (run_start pr env) =
       [InstalledCrypto, InstalledTracing m s] @ snd (run_servers pr env config kp sk)"
    by (rule run_start_around [OF here assms(3,4)])
  ultimately show thesis using that by simp
qed

text \<open>
  C25: the admin server can only be reached from the host itself, and it starts with the truth:
  at the moment it starts, the TPU client has been built, and the identity the server will
  first report is that of the key pair this client was built with.
\<close>

theorem admin_server_local_and_consistent:
  assumes "snd (run pr env) = pre @ StartedAdmin pk a # post"
  shows "addr_ip a = V4 127 0 0 1 \<and>
    (\<exists>c. TpuEffect (BuiltClient c) \<in> set pre \<and> pk = keypair_pubkey env (cfg_identity c)) \<and>
    (\<forall>c. TpuEffect (BuiltClient c) \<notin> set post)"
proof -
  have "StartedAdmin pk a \<in> set (snd (run pr env))" using assms by simp
  then obtain config kp sk m s n where
    here: "StartedAdmin pk a \<in> set (snd (run_servers pr env config kp sk))"
    and run: "snd (run pr env) = [InstalledCrypto, InstalledTracing m s] @
       snd (run_servers pr env config kp sk) @ take n shutdown_sequence"
    by (rule run_around_servers) (simp_all add: shutdown_sequence_def)
  obtain l rt cl rest where
    servers: "snd (run_servers pr env config kp sk) =
      [ListeningPrometheus (prometheus_addr config), StartedBroadcaster sk, BuiltTpuRuntime rt,
       SpawnedReport] @ snd (start_tpu env config l kp) @
      StartedAdmin (keypair_pubkey env kp) (admin_address config) # rest"
    and tpu: "fst (start_tpu env config l kp) = Done cl"
    and rest: "\<And>e. e \<in> set rest \<Longrightarrow> (\<exists>b q. e = StartedQuic b q) \<or> (\<exists>b. e = StartedJsonRpc b)"
    by (rule run_servers_admin_shape [OF here]) blast
  let ?pre = "[InstalledCrypto, InstalledTracing m s, ListeningPrometheus (prometheus_addr config),
      StartedBroadcaster sk, BuiltTpuRuntime rt, SpawnedReport] @ snd (start_tpu env config l kp)"
  let ?post = "rest @ take n shutdown_sequence"
  have early: "StartedAdmin pk a \<notin> set ?pre" by (auto dest: start_tpu_effects)
  have tail: "e \<notin> set ?post" if "e = StartedAdmin pk a \<or> e = TpuEffect t" for e t
    using that by (auto simp: shutdown_sequence_def dest: rest dest!: in_set_takeD)
  have "pre @ StartedAdmin pk a # post =
      ?pre @ StartedAdmin (keypair_pubkey env kp) (admin_address config) # ?post"
    using assms run servers by simp
  from split_at_unique [OF this early] tail [of "StartedAdmin pk a"]
  have split: "pre = ?pre" "post = ?post" "pk = keypair_pubkey env kp" "a = admin_address config"
    by simp_all
  have "cfg_identity (client_config_of config kp) = kp" by (simp add: client_config_of_def)
  moreover have "TpuEffect (BuiltClient (client_config_of config kp)) \<in> set pre"
    using start_tpu_Done [OF tpu] split(1) by simp
  moreover have "TpuEffect (BuiltClient c) \<notin> set post" for c
    using tail [of _ "BuiltClient c"] split(2) by blast
  ultimately show ?thesis using split(3,4) by (auto simp: admin_address_def)
qed

theorem admin_server_local_and_consistent_witness:
  "\<exists>pre a post c. snd (run Release sample_env) = pre @ StartedAdmin 7 a # post \<and>
     addr_ip a = V4 127 0 0 1 \<and> TpuEffect (BuiltClient c) \<in> set pre \<and> cfg_identity c = 7"
proof -
  obtain pre post where split: "snd (run Release sample_env) = pre @ StartedAdmin 7 (local_addr 1504) # post"
    using sample_env_starts [THEN conjunct2] by (meson split_list)
  have "keypair_pubkey sample_env kp = kp" for kp by (simp add: sample_env_def)
  with admin_server_local_and_consistent [OF split] split show ?thesis by auto
qed

lemma add_profile_u8_1:
  "add_profile pr (n :: u8) 1 = (if pr = Debug \<and> n = 255 then None else Some (n + 1))"
proof -
  have "unat n < 256" using unsigned_less [of n] by simp
  then have "256 \<le> unat n + 1 \<longleftrightarrow> n = 255"
    by (auto simp: word_unat_eq_iff)
  then show ?thesis by (auto simp: add_profile_def)
qed

lemma overflow_aborts:
  assumes "leaders_fanout config = 255"
  shows "run_servers Debug env config kp sk =
    (Aborted, if install_prometheus env (prometheus_addr config) = Inr ()
       then [ListeningPrometheus (prometheus_addr config)] else [])"
  using assms
  by (cases "install_prometheus env (prometheus_addr config)")
     (simp_all add: run_servers_def add_profile_u8_1 expect_def expect_ok_def)

lemma run_start_overflow:
  assumes "extract_config env = Inr config" "leaders_fanout config = 255"
  shows "fst (run_start Debug env) = Aborted"
  using assms init_tracing_cases [of env config]
  by (auto simp: run_start_def fst_act_bind overflow_aborts expect_def expect_ok_def Let_def
      split: sum.split option.split outcome.split)

text \<open>
  C24: the leader look-ahead is one more than the fan-out, except at the top of its range. Below
  255 the debug and the release build behave alike. With a fan-out of 255 the debug build
  panics, whatever the outside answers: the broadcaster is never started, and a run that got as
  far as the exporter, just before the addition, does nothing more. The release build wraps
  around instead: any TPU client it builds sends to 255 leaders, and the address service was
  asked to look ahead 0.
\<close>

theorem fanout_255_breaks_lookahead:
  assumes "extract_config env = Inr config"
  shows "if leaders_fanout config = 255
    then fst (run Debug env) = Aborted \<and>
      (\<forall>k. StartedBroadcaster k \<notin> set (snd (run Debug env))) \<and>
      (\<forall>p. ListeningPrometheus p \<in> set (snd (run Debug env)) \<longrightarrow>
         last (snd (run Debug env)) = ListeningPrometheus p) \<and>
      (\<forall>c. TpuEffect (BuiltClient c) \<in> set (snd (run Release env)) \<longrightarrow>
         cfg_leader_send_fanout c = 255 \<and> (\<exists>u. run_service env 0 = Inr u))
    else run Debug env = run Release env"
proof (cases "leaders_fanout config = 255")
  case False
  then have "run_servers Debug env config = run_servers Release env config"
    by (intro ext) (simp add: run_servers_def add_profile_u8_1)
  then have "run_start Debug env = run_start Release env"
    using assms by (simp add: run_start_def expect_ok_Inr)
  with False show ?thesis by (simp add: run_def)
next
  case True
  have wrap: "(256 :: u8) = 0" by simp
  note dbg = overflow_aborts [OF True]
  note aborted = run_start_overflow [OF assms True]
  have "fst (run Debug env) = Aborted" using aborted by (simp add: run_def fst_act_bind)
  moreover have "StartedBroadcaster k \<notin> set (snd (run Debug env))" for k
  proof
    assume "StartedBroadcaster k \<in> set (snd (run Debug env))"
    from run_effects_config [OF this assms] show False
      by (auto simp: dbg shutdown_sequence_def split: if_splits)
  qed
  moreover have "last (snd (run Debug env)) = ListeningPrometheus p"
    if listens: "ListeningPrometheus p \<in> set (snd (run Debug env))" for p
  proof -
    have "snd (run Debug env) = snd (run_start Debug env)"
      using aborted by (simp add: run_def snd_act_bind)
    moreover obtain config' kp sk m s where "extract_config env = Inr config'"
        "ListeningPrometheus p \<in> set (snd (run_servers Debug env config' kp sk))"
        "snd (run_start Debug env) =
           [InstalledCrypto, InstalledTracing m s] @ snd (run_servers Debug env config' kp sk)"
      by (rule run_start_around [of "ListeningPrometheus p" Debug env])
         (use listens calculation in auto)
    ultimately show ?thesis using assms True by (auto simp: overflow_aborts split: if_splits)
  qed
  moreover have "cfg_leader_send_fanout c = 255 \<and> (\<exists>u. run_service env 0 = Inr u)"
    if "TpuEffect (BuiltClient c) \<in> set (snd (run Release env))" for c
  proof -
    have "\<exists>kp sk. TpuEffect (BuiltClient c) \<in> set (snd (run_servers Release env config kp sk))"
      using run_effects_config [OF that assms] by (auto simp: shutdown_sequence_def)
    then obtain kp where "TpuEffect (BuiltClient c) \<in> set (snd (start_tpu env config 0 kp))"
      by (auto simp: run_servers_def act_simps add_profile_u8_1 True wrap spawn_json_rpc_server_def
          dest!: start_quic_effects)
    from start_tpu_client [OF this] show ?thesis by (simp add: client_config_of_def True)
  qed
  ultimately show ?thesis using True by simp
qed

theorem fanout_255_breaks_lookahead_witness:
  "fst (run Debug sample_env) = Aborted"
proof -
  have "extract_config sample_env = Inr sample_config" "leaders_fanout sample_config = 255"
    by (simp_all add: sample_env_def sample_config_def)
  with fanout_255_breaks_lookahead [OF this(1)] show ?thesis by simp
qed

section \<open>Log output\<close>

lemma starts_tracing [simp]:
  "json_rpc_thread (env\<lparr>tracing := t\<rparr>) rc a = json_rpc_thread env rc a"
  "start_tpu (env\<lparr>tracing := t\<rparr>) config l kp = start_tpu env config l kp"
  "start_quic (env\<lparr>tracing := t\<rparr>) config = start_quic env config"
  by (auto simp: json_rpc_thread_def start_tpu_def start_quic_def
      split: rust_result.split sum.split option.split)

lemma run_servers_tracing [simp]:
  "run_servers pr (env\<lparr>tracing := t\<rparr>) config kp sk = run_servers pr env config kp sk"
  by (simp add: run_servers_def spawn_json_rpc_server_def)

lemma of_config_tracing [simp]:
  "identity_of_config (env\<lparr>tracing := t\<rparr>) config = identity_of_config env config"
  "shield_key_of_config (env\<lparr>tracing := t\<rparr>) config = shield_key_of_config env config"
  by (simp_all add: identity_of_config_def shield_key_of_config_def)

lemma init_tracing_ip:
  "fst (init_tracing (env\<lparr>tracing := (tracing env)\<lparr>http_get := g, response_json := h\<rparr>\<rparr>) config f) =
     fst (init_tracing env config f)"
  by (auto simp: init_tracing_def fst_act_bind init_subscriber_without_signoz_def Let_def
      init_subscriber_def default_env_filter_def get_subscriber_with_otpl_def expect_def
      question_mark_def split: option.split rust_result.split sum.split)

text \<open>
  C23: the log output is set up first and once. Whatever the outside answers, a run that gets
  past the crypto provider and the configuration does nothing else before it has installed the
  one subscriber of the process: in this order, without an endpoint the output to \<open>stdout\<close>
  under the filter of the environment (by default \<open>info\<close>), with one the span and log exporters
  to that endpoint under the service name of the JSON-RPC port, the filter and the output,
  kept alive by a runtime of their own. The web service that tells the public address has no
  influence on how the run ends, be it unreachable or not.
\<close>

theorem tracing_installed_first:
  "(snd (run pr env) \<in> {[], [InstalledCrypto]} \<or>
    (\<exists>config rt rest. extract_config env = Inr config \<and>
       snd (run pr env) =
         InstalledCrypto # InstalledTracing rt (subscriber_of (tracing env) config) # rest \<and>
       (\<nexists>m s. InstalledTracing m s \<in> set rest) \<and>
       (rt = None \<longleftrightarrow> otpl_endpoint config = None))) \<and>
   fst (run pr (env\<lparr>tracing := (tracing env)\<lparr>http_get := g, response_json := h\<rparr>\<rparr>)) =
     fst (run pr env)"
proof (rule conjI)
  let ?servers = "\<lambda>config. act_bind (expect (identity_of_config env config)) (\<lambda>kp.
    act_bind (expect (shield_key_of_config env config)) (\<lambda>sk. run_servers pr env config kp sk))"
  let ?rest = "\<lambda>config. act_bind (?servers config) (\<lambda>(r, q). await_shutdown r q)"
  have none: "InstalledTracing m s \<notin> set (snd (?rest config))" for m s config
    by (auto simp: act_simps run_servers_def spawn_json_rpc_server_def dest: await_effects
        dest!: start_tpu_effects start_quic_effects split: prod.splits)
  show "snd (run pr env) \<in> {[], [InstalledCrypto]} \<or>
    (\<exists>config rt rest. extract_config env = Inr config \<and>
       snd (run pr env) =
         InstalledCrypto # InstalledTracing rt (subscriber_of (tracing env) config) # rest \<and>
       (\<nexists>m s. InstalledTracing m s \<in> set rest) \<and>
       (rt = None \<longleftrightarrow> otpl_endpoint config = None))"
  proof (cases "install_crypto env")
    case (Inl x)
    then show ?thesis by (simp add: run_def run_start_def expect_ok_def)
  next
    case crypto: (Inr u)
    show ?thesis
    proof (cases "extract_config env")
      case (Inl x)
      with crypto show ?thesis by (simp add: run_def run_start_def expect_ok_def Let_def)
    next
      case (Inr config)
      from init_tracing_cases [of env config] show ?thesis
      proof (elim disjE exE conjE)
        fix rt
        assume "init_tracing env config (default_env_filter (tracing env)) =
          (Done (), [InstalledTracing rt (subscriber_of (tracing env) config)])"
          "rt = None \<longleftrightarrow> otpl_endpoint config = None"
        moreover from this(1) have "snd (run pr env) =
            InstalledCrypto # InstalledTracing rt (subscriber_of (tracing env) config) #
              snd (?rest config)"
          using crypto Inr by (simp add: run_def run_start_def expect_ok_def Let_def snd_act_bind fst_act_bind)
        ultimately show ?thesis
          by (intro disjI2 exI [of _ config] exI [of _ rt] exI [of _ "snd (?rest config)"])
             (simp add: none Inr)
      next
        assume "init_tracing env config (default_env_filter (tracing env)) = (Aborted, [])"
        with crypto Inr show ?thesis by (simp add: run_def run_start_def expect_ok_def Let_def)
      qed
    qed
  qed
  show "fst (run pr (env\<lparr>tracing := (tracing env)\<lparr>http_get := g, response_json := h\<rparr>\<rparr>)) =
     fst (run pr env)"
    by (simp add: run_def run_start_def fst_act_bind init_tracing_ip default_env_filter_def Let_def
        cong: outcome.case_cong)
qed

end
