(* ===== verification/Admin_Rpc.thy ===== *)
theory Admin_Rpc
  imports Rpc_Error Transaction_Stats
begin

text \<open>
  \<open>src/admin_rpc.rs\<close>: changing and reading the validator identity at run time. The server runs
  on a current-thread runtime and no handler awaits anything between its first and its last
  effect, so a handler is one atomic step. Reading and parsing key pairs, and the client whose
  certificate follows the identity, belong to other crates: they are the parameter \<open>d\<close>.
\<close>

section \<open>State\<close>

text \<open>
  \<open>'p\<close> are paths, \<open>'kp\<close> key pairs, \<open>'pk\<close> public keys and \<open>'cl\<close> the state of the TPU client.
  \<open>tpu_identity\<close> is what the client presents to its peers; the code never reads it.
\<close>

record ('p, 'kp, 'pk, 'cl) admin_deps =
  read_from_file :: "'p \<Rightarrow> string + 'kp"
  keypair_try_from :: "bytes \<Rightarrow> string + 'kp"
  pubkey :: "'kp \<Rightarrow> 'pk"
  admin_pubkey_to_string :: "'pk \<Rightarrow> string"
  update_identity :: "'kp \<Rightarrow> 'cl \<Rightarrow> (string + unit) \<times> 'cl"
  tpu_identity :: "'cl \<Rightarrow> 'pk"

record ('pk, 'cl) admin_rpc_impl =
  tpu_client :: 'cl
  identity :: 'pk
  identity_poisoned :: bool

section \<open>Handlers\<close>

text \<open>Both setters end in the same way, once there is a key pair.\<close>

definition set_identity ::
  "('p, 'kp, 'pk, 'cl) admin_deps \<Rightarrow> 'p \<Rightarrow> ('pk, 'cl) admin_rpc_impl \<Rightarrow>
   (rpc_error, unit) rust_result \<times> ('pk, 'cl) admin_rpc_impl" where
  "set_identity d path s =
     (case read_from_file d path of
        Inl e \<Rightarrow> (Err (invalid_request (''Failed to read keypair: '' @ e)), s)
      | Inr keypair \<Rightarrow>
          (let (r, cl) = update_identity d keypair (tpu_client s); s1 = s\<lparr>tpu_client := cl\<rparr>
           in case r of
                Inl e \<Rightarrow> (Err (invalid_request (''Failed to update identity: '' @ e)), s1)
              | Inr _ \<Rightarrow>
                  if identity_poisoned s1 then (Panic, s1)
                  else (Ok (), s1\<lparr>identity := pubkey d keypair\<rparr>)))"

definition set_identity_from_bytes ::
  "('p, 'kp, 'pk, 'cl) admin_deps \<Rightarrow> bytes \<Rightarrow> ('pk, 'cl) admin_rpc_impl \<Rightarrow>
   (rpc_error, unit) rust_result \<times> ('pk, 'cl) admin_rpc_impl" where
  "set_identity_from_bytes d bs s =
     (case keypair_try_from d bs of
        Inl e \<Rightarrow> (Err (invalid_request (''Failed to parse keypair: '' @ e)), s)
      | Inr keypair \<Rightarrow>
          (let (r, cl) = update_identity d keypair (tpu_client s); s1 = s\<lparr>tpu_client := cl\<rparr>
           in case r of
                Inl e \<Rightarrow> (Err (invalid_request (''Failed to update identity: '' @ e)), s1)
              | Inr _ \<Rightarrow>
                  if identity_poisoned s1 then (Panic, s1)
                  else (Ok (), s1\<lparr>identity := pubkey d keypair\<rparr>)))"

definition get_identity ::
  "('p, 'kp, 'pk, 'cl) admin_deps \<Rightarrow> ('pk, 'cl) admin_rpc_impl \<Rightarrow>
   (rpc_error, string) rust_result" where
  "get_identity d s =
     (if identity_poisoned s then Panic else Ok (admin_pubkey_to_string d (identity s)))"

section \<open>The server\<close>

datatype 'p admin_request = SetIdentity 'p | SetIdentityFromBytes bytes | GetIdentity

datatype admin_response = SetResponse "(rpc_error, unit) rust_result"
  | GetResponse "(rpc_error, string) rust_result"

fun admin_handle ::
  "('p, 'kp, 'pk, 'cl) admin_deps \<Rightarrow> 'p admin_request \<Rightarrow> ('pk, 'cl) admin_rpc_impl \<Rightarrow>
   admin_response \<times> ('pk, 'cl) admin_rpc_impl" where
  "admin_handle d (SetIdentity p) s = (let (r, s') = set_identity d p s in (SetResponse r, s'))"
| "admin_handle d (SetIdentityFromBytes bs) s =
     (let (r, s') = set_identity_from_bytes d bs s in (SetResponse r, s'))"
| "admin_handle d GetIdentity s = (GetResponse (get_identity d s), s)"

datatype 'p admin_event = AdminCall "'p admin_request" | AdminCancelled

fun admin_serve ::
  "('p, 'kp, 'pk, 'cl) admin_deps \<Rightarrow> 'p admin_event list \<Rightarrow> ('pk, 'cl) admin_rpc_impl \<Rightarrow>
   admin_response list \<times> ('pk, 'cl) admin_rpc_impl \<times> loop_exit" where
  "admin_serve d [] s = ([], s, StillRunning)"
| "admin_serve d (AdminCancelled # es) s = ([], s, Stopped)"
| "admin_serve d (AdminCall q # es) s =
     (let (r, s1) = admin_handle d q s; (rs, s2, x) = admin_serve d es s1 in (r # rs, s2, x))"

text \<open>\<open>bound\<close> is the outcome of binding the address; a failure panics the thread.\<close>

definition spawn_admin_rpc_server ::
  "('p, 'kp, 'pk, 'cl) admin_deps \<Rightarrow> 'pk \<Rightarrow> string + unit \<Rightarrow> 'cl \<Rightarrow> 'p admin_event list \<Rightarrow>
   admin_response list \<times> ('pk, 'cl) admin_rpc_impl \<times> loop_exit" where
  "spawn_admin_rpc_server d init_identity bound client events =
     (let s = \<lparr>tpu_client = client, identity = init_identity, identity_poisoned = False\<rparr>
      in case bound of Inl _ \<Rightarrow> ([], s, Panicked) | Inr _ \<Rightarrow> admin_serve d events s)"

section \<open>The contract of the client\<close>

text \<open>
  \<open>Client::update_identity\<close> switches the client to the key pair it is given, or reports an
  error and leaves the client on the identity it had.
\<close>

definition update_identity_law :: "('p, 'kp, 'pk, 'cl) admin_deps \<Rightarrow> bool" where
  "update_identity_law d \<longleftrightarrow>
     (\<forall>kp cl. case update_identity d kp cl of
        (Inr _, cl') \<Rightarrow> tpu_identity d cl' = pubkey d kp
      | (Inl _, cl') \<Rightarrow> tpu_identity d cl' = tpu_identity d cl)"

lemma update_identity_lawD:
  "update_identity_law d \<Longrightarrow> update_identity d kp cl = (Inr u, cl') \<Longrightarrow>
     tpu_identity d cl' = pubkey d kp"
  "update_identity_law d \<Longrightarrow> update_identity d kp cl = (Inl e, cl') \<Longrightarrow>
     tpu_identity d cl' = tpu_identity d cl"
  by (force simp: update_identity_law_def split: prod.splits sum.splits dest: spec)+

text \<open>A key pair of a request, and the part of the setters that follows it.\<close>

fun requested_keypair ::
  "('p, 'kp, 'pk, 'cl) admin_deps \<Rightarrow> 'p admin_request \<Rightarrow> (string + 'kp) option" where
  "requested_keypair d (SetIdentity p) = Some (read_from_file d p)"
| "requested_keypair d (SetIdentityFromBytes bs) = Some (keypair_try_from d bs)"
| "requested_keypair d GetIdentity = None"

definition switch_identity ::
  "('p, 'kp, 'pk, 'cl) admin_deps \<Rightarrow> 'kp \<Rightarrow> ('pk, 'cl) admin_rpc_impl \<Rightarrow>
   admin_response \<times> ('pk, 'cl) admin_rpc_impl" where
  "switch_identity d kp s =
     (case update_identity d kp (tpu_client s) of
        (Inl e, cl) \<Rightarrow>
          (SetResponse (Err (invalid_request (''Failed to update identity: '' @ e))),
           s\<lparr>tpu_client := cl\<rparr>)
      | (Inr _, cl) \<Rightarrow>
          if identity_poisoned s then (SetResponse Panic, s\<lparr>tpu_client := cl\<rparr>)
          else (SetResponse (Ok ()), s\<lparr>tpu_client := cl, identity := pubkey d kp\<rparr>))"

lemma admin_handle_switch:
  "requested_keypair d q = Some (Inr kp) \<Longrightarrow> admin_handle d q s = switch_identity d kp s"
  by (cases q)
     (auto simp: set_identity_def set_identity_from_bytes_def switch_identity_def Let_def
       split: prod.splits sum.splits)

lemma admin_handle_no_keypair:
  "requested_keypair d q = Some (Inl e) \<Longrightarrow>
     \<exists>msg. admin_handle d q s = (SetResponse (Err (invalid_request (msg @ e))), s)"
  by (cases q) (auto simp: set_identity_def set_identity_from_bytes_def)

definition identity_agrees ::
  "('p, 'kp, 'pk, 'cl) admin_deps \<Rightarrow> ('pk, 'cl) admin_rpc_impl \<Rightarrow> bool" where
  "identity_agrees d s \<longleftrightarrow> \<not> identity_poisoned s \<and>
     (update_identity_law d \<longrightarrow> tpu_identity d (tpu_client s) = identity s)"

lemma switch_identity_agrees:
  assumes "identity_agrees d s"
  shows "identity_agrees d (snd (switch_identity d kp s))"
proof (cases "update_identity d kp (tpu_client s)")
  case (Pair r cl)
  then show ?thesis
    using assms update_identity_lawD [of d kp "tpu_client s" _ cl]
    by (cases r) (auto simp: switch_identity_def identity_agrees_def)
qed

lemma admin_handle_agrees:
  assumes "identity_agrees d s"
  shows "identity_agrees d (snd (admin_handle d q s))"
proof (cases "requested_keypair d q")
  case None
  with assms show ?thesis by (cases q) simp_all
next
  case (Some r)
  show ?thesis
  proof (cases r)
    case (Inl e)
    with Some assms show ?thesis using admin_handle_no_keypair [of d q e s] by auto
  next
    case (Inr kp)
    with Some assms show ?thesis by (simp add: admin_handle_switch switch_identity_agrees)
  qed
qed

interpretation admin: event_machine "\<lambda>q s. snd (admin_handle d q s)" "identity_agrees d" for d
  by unfold_locales (rule admin_handle_agrees)

fun admin_request_of :: "'p admin_event \<Rightarrow> 'p admin_request option" where
  "admin_request_of (AdminCall q) = Some q"
| "admin_request_of AdminCancelled = None"

definition served :: "'p admin_event list \<Rightarrow> 'p admin_request list" where
  "served es = List.map_filter admin_request_of (takeWhile (\<lambda>e. e \<noteq> AdminCancelled) es)"

lemma served_simps [simp]:
  "served [] = []" "served (AdminCancelled # es) = []" "served (AdminCall q # es) = q # served es"
  by (simp_all add: served_def List.map_filter_simps)

lemma admin_serve_call:
  "admin_serve d (AdminCall q # es) s =
     (let t = snd (admin_handle d q s); out = admin_serve d es t
      in (fst (admin_handle d q s) # fst out, snd out))"
  by (simp add: case_prod_unfold Let_def prod_eq_iff)

lemma admin_serve_state:
  "fst (snd (admin_serve d es s)) = fold (\<lambda>q s. snd (admin_handle d q s)) (served es) s"
proof (induction es arbitrary: s)
  case (Cons e es)
  then show ?case by (cases e) (simp_all add: admin_serve_call Let_def del: admin_serve.simps(3))
qed simp

lemma admin_serve_length: "length (fst (admin_serve d es s)) = length (served es)"
proof (induction es arbitrary: s)
  case (Cons e es)
  then show ?case by (cases e) (simp_all add: admin_serve_call Let_def del: admin_serve.simps(3))
qed simp

lemma admin_serve_exit:
  "snd (snd (admin_serve d es s)) = (if AdminCancelled \<in> set es then Stopped else StillRunning)"
proof (induction es arbitrary: s)
  case (Cons e es)
  then show ?case by (cases e) (simp_all add: admin_serve_call Let_def del: admin_serve.simps(3))
qed simp

section \<open>Properties\<close>

lemma admin_serve_agrees:
  "identity_agrees d s \<Longrightarrow> identity_agrees d (fst (snd (admin_serve d es s)))"
  unfolding admin_serve_state by (rule admin.inv_run)

text \<open>
  C26: the identity the admin server reports is the one the TPU client uses. When the client
  starts on the initial identity and switches identities as documented, the two agree after
  any sequence of admin calls with any outcomes, the lock is never poisoned, and the server
  stops exactly when it is cancelled.
\<close>

theorem admin_identity_agrees:
  assumes "update_identity_law d" and "tpu_identity d client = init_identity"
  shows "case spawn_admin_rpc_server d init_identity (Inr ()) client es of (rs, s, x) \<Rightarrow>
    identity s = tpu_identity d (tpu_client s) \<and> \<not> identity_poisoned s \<and>
    length rs = length (served es) \<and> x = (if AdminCancelled \<in> set es then Stopped else StillRunning)"
proof -
  let ?s = "\<lparr>tpu_client = client, identity = init_identity, identity_poisoned = False\<rparr>"
  have "identity_agrees d ?s" using assms(2) by (simp add: identity_agrees_def)
  then have "identity_agrees d (fst (snd (admin_serve d es ?s)))" by (rule admin_serve_agrees)
  moreover obtain rs s x where "admin_serve d es ?s = (rs, s, x)" by (rule prod_cases3)
  ultimately show ?thesis
    using assms(1) admin_serve_length [of d es ?s] admin_serve_exit [of d es ?s]
    by (simp add: spawn_admin_rpc_server_def identity_agrees_def)
qed

text \<open>
  A client that takes every key pair but the one whose key is 0; key pairs and keys are
  numbers, files hold the number of their path.
\<close>

definition sample_admin :: "(nat, nat, nat, nat) admin_deps" where
  "sample_admin =
     \<lparr>read_from_file = (\<lambda>p. if p < 10 then Inr p else Inl ''no such file''),
      keypair_try_from = (\<lambda>bs. case bs of [b] \<Rightarrow> Inr (unat b) | _ \<Rightarrow> Inl ''bad length''),
      pubkey = (\<lambda>kp. kp), admin_pubkey_to_string = show_nat,
      update_identity = (\<lambda>kp cl. if kp = 0 then (Inl ''refused'', cl) else (Inr (), kp)),
      tpu_identity = (\<lambda>cl. cl)\<rparr>"

lemma sample_admin_law: "update_identity_law sample_admin"
  by (simp add: update_identity_law_def sample_admin_def)

theorem admin_identity_agrees_witness:
  "case spawn_admin_rpc_server sample_admin 3 (Inr ()) 3
     [AdminCall (SetIdentity 5), AdminCall (SetIdentity 20), AdminCall (SetIdentityFromBytes [0]),
      AdminCancelled] of (rs, s, x) \<Rightarrow>
     identity s = tpu_identity sample_admin (tpu_client s) \<and> length rs = 3 \<and> x = Stopped"
proof -
  have "tpu_identity sample_admin 3 = 3" by (simp add: sample_admin_def)
  from admin_identity_agrees [OF sample_admin_law this, where es = "[AdminCall (SetIdentity 5),
      AdminCall (SetIdentity 20), AdminCall (SetIdentityFromBytes [0]), AdminCancelled]"]
  show ?thesis by auto
qed

text \<open>The identity that the answers up to some point entitle a client to expect.\<close>

fun answered_identity ::
  "('p, 'kp, 'pk, 'cl) admin_deps \<Rightarrow> ('p admin_request \<times> admin_response) list \<Rightarrow> 'pk \<Rightarrow> 'pk" where
  "answered_identity d [] i = i"
| "answered_identity d ((q, r) # log) i = answered_identity d log
     (case (requested_keypair d q, r) of
        (Some (Inr kp), SetResponse (Ok _)) \<Rightarrow> pubkey d kp
      | _ \<Rightarrow> i)"

lemma admin_handle_identity:
  "identity (snd (admin_handle d q s)) =
     answered_identity d [(q, fst (admin_handle d q s))] (identity s)"
proof (cases "requested_keypair d q")
  case None
  then show ?thesis by (cases q) simp_all
next
  case (Some r)
  show ?thesis
  proof (cases r)
    case (Inl e)
    with Some show ?thesis using admin_handle_no_keypair [of d q e s] by auto
  next
    case (Inr kp)
    with Some show ?thesis
      by (auto simp: admin_handle_switch switch_identity_def split: prod.splits sum.splits)
  qed
qed

lemma admin_handle_not_poisoned:
  "identity_poisoned (snd (admin_handle d q s)) = identity_poisoned s"
  by (cases q) (auto simp: set_identity_def set_identity_from_bytes_def Let_def
      split: prod.splits sum.splits)

lemma answered_identity_Cons:
  "answered_identity d (e # log) i = answered_identity d log (answered_identity d [e] i)"
  by (cases e) simp

lemma admin_serve_answers:
  assumes "\<not> identity_poisoned s" "k < length (served es)"
  shows "let rs = fst (admin_serve d es s) in
    rs ! k \<noteq> SetResponse Panic \<and>
    (served es ! k = GetIdentity \<longrightarrow> rs ! k = GetResponse (Ok (admin_pubkey_to_string d
       (answered_identity d (take k (zip (served es) rs)) (identity s)))))"
  using assms
proof (induction es arbitrary: s k)
  case (Cons e es)
  show ?case
  proof (cases e)
    case (AdminCall q)
    let ?t = "snd (admin_handle d q s)"
    have "\<not> identity_poisoned ?t" using Cons.prems by (simp add: admin_handle_not_poisoned)
    note IH = Cons.IH [OF this]
    show ?thesis
    proof (cases k)
      case 0
      have "fst (admin_handle d q s) \<noteq> SetResponse Panic"
        using Cons.prems(1) by (cases q) (auto simp: set_identity_def set_identity_from_bytes_def
            Let_def split: prod.splits sum.splits)
      with 0 AdminCall Cons.prems show ?thesis
        by (auto simp: admin_serve_call Let_def get_identity_def simp del: admin_serve.simps(3))
    next
      case (Suc j)
      with AdminCall Cons.prems IH [of j] show ?thesis
        by (simp add: admin_serve_call Let_def admin_handle_identity
            answered_identity_Cons [of d "(q, fst (admin_handle d q s))" "take _ _"]
            del: admin_serve.simps(3) answered_identity.simps(2))
    qed
  qed (use Cons.prems in simp)
qed simp

text \<open>
  C27: no admin call panics, and \<open>getIdentity\<close> tells the truth about the answers before it: it
  returns the key of the last setter that was answered with success, whichever of the two it
  was, and the initial identity if there was none. A setter answered with an error has not
  changed what \<open>getIdentity\<close> returns. Nothing is assumed of the client here.
\<close>

theorem get_identity_reports_last_success:
  "case spawn_admin_rpc_server d init_identity (Inr ()) client es of (rs, s, x) \<Rightarrow>
     (\<forall>k < length (served es). rs ! k \<noteq> SetResponse Panic \<and>
        (served es ! k = GetIdentity \<longrightarrow>
           rs ! k = GetResponse (Ok (admin_pubkey_to_string d
             (answered_identity d (take k (zip (served es) rs)) init_identity)))))"
proof -
  let ?s = "\<lparr>tpu_client = client, identity = init_identity, identity_poisoned = False\<rparr>"
  obtain rs s x where run: "admin_serve d es ?s = (rs, s, x)" by (rule prod_cases3)
  show ?thesis
    using admin_serve_answers [of ?s _ es d] run by (simp add: spawn_admin_rpc_server_def)
qed

theorem get_identity_reports_last_success_witness:
  "case spawn_admin_rpc_server sample_admin 3 (Inr ()) 3
     [AdminCall (SetIdentity 5), AdminCall (SetIdentity 20), AdminCall GetIdentity] of (rs, s, x) \<Rightarrow>
     rs ! 2 = GetResponse (Ok (show_nat 5))"
proof -
  let ?es = "[AdminCall (SetIdentity 5), AdminCall (SetIdentity 20), AdminCall GetIdentity]"
  obtain rs s x where run: "spawn_admin_rpc_server sample_admin 3 (Inr ()) 3 ?es = (rs, s, x)"
    by (rule prod_cases3)
  have "rs ! 2 = GetResponse (Ok (admin_pubkey_to_string sample_admin
      (answered_identity sample_admin (take 2 (zip (served ?es) rs)) 3)))"
    using get_identity_reports_last_success [where d = sample_admin and es = ?es and client = 3 and init_identity = 3] run by simp
  with run show ?thesis
    by (auto simp: spawn_admin_rpc_server_def sample_admin_def set_identity_def)
qed

end
