(* ===== verification/Cli.thy ===== *)
theory Cli
  imports Main_Run Admin_Rpc
begin

text \<open>
  \<open>src/main.rs\<close>: the command line. Without a command the process is the server; \<open>set-identity\<close>
  and \<open>get-info\<close> are clients of the admin server of another process. The transport between
  them is the parameter \<open>call\<close>, of which \<open>answers_from_server\<close> states what is assumed; the answers of the file system, of the standard input and of
  the HTTP client are the record \<open>cli_env\<close>.
\<close>

section \<open>The client commands\<close>

record ('p, 'kp) cli_env =
  current_runtime :: "string + unit"
  http_client :: "string \<Rightarrow> string + unit"
  canonicalize :: "'p \<Rightarrow> string + 'p"
  path_display :: "'p \<Rightarrow> string"
  read_stdin_keypair :: "string + 'kp"
  keypair_to_bytes :: "'kp \<Rightarrow> bytes"
  keypair_pubkey_string :: "'kp \<Rightarrow> string"
  info_to_string_pretty :: "string \<Rightarrow> string"

text \<open>A call answers with an error of the client, or with the value the server returned.\<close>

type_synonym ('p, 's) admin_call = "'p admin_request \<Rightarrow> 's \<Rightarrow> (string + string) \<times> 's"

definition run_get_info ::
  "('p, 'kp) cli_env \<Rightarrow> ('p, 's) admin_call \<Rightarrow> string \<Rightarrow> 's \<Rightarrow>
   (string list, unit) rust_result \<times> string list \<times> 's" where
  "run_get_info e call admin_addr s =
     (case build_current_runtime (current_runtime e) of
        Ok _ \<Rightarrow>
          (case http_client e (''http://'' @ admin_addr) of
             Inl x \<Rightarrow> (Err [x], [], s)
           | Inr _ \<Rightarrow>
               (case call GetIdentity s of
                  (Inl x, s1) \<Rightarrow> (Err [x], [], s1)
                | (Inr ident, s1) \<Rightarrow> (Ok (), [info_to_string_pretty e ident], s1)))
      | _ \<Rightarrow> (Panic, [], s))"

definition run_update_identity ::
  "('p, 'kp) cli_env \<Rightarrow> ('p, 's) admin_call \<Rightarrow> string \<Rightarrow> 'p option \<Rightarrow> 's \<Rightarrow>
   (string list, unit) rust_result \<times> string list \<times> 's" where
  "run_update_identity e call admin_addr ident s =
     (case build_current_runtime (current_runtime e) of
        Ok _ \<Rightarrow>
          (case http_client e (''http://'' @ admin_addr) of
             Inl x \<Rightarrow> (Err [x], [], s)
           | Inr _ \<Rightarrow>
               (case ident of
                  Some path \<Rightarrow>
                    (case canonicalize e path of
                       Inl x \<Rightarrow> (Err [x], [], s)
                     | Inr path \<Rightarrow>
                         (let out = [''New validator identity path: '' @ path_display e path]
                          in case call (SetIdentity path) s of
                               (Inl x, s1) \<Rightarrow> (Err [x], out, s1)
                             | (Inr _, s1) \<Rightarrow> (Ok (), out @ [''Identity updated successfully''], s1)))
                | None \<Rightarrow>
                    (case read_stdin_keypair e of
                       Inl x \<Rightarrow> (Err [''Failed to read keypair from stdin: '' @ x], [], s)
                     | Inr keypair \<Rightarrow>
                         (let out = [''New validator identity: '' @ keypair_pubkey_string e keypair]
                          in case call (SetIdentityFromBytes (keypair_to_bytes e keypair)) s of
                               (Inl x, s1) \<Rightarrow> (Err [x], out, s1)
                             | (Inr _, s1) \<Rightarrow>
                                 (Ok (), out @ [''Identity updated successfully''], s1)))))
      | _ \<Rightarrow> (Panic, [], s))"

section \<open>Dispatch\<close>

datatype 'p cli_command = CliSetIdentity "'p option" | CliGetInfo

record 'p cli =
  admin_addr :: string
  command :: "'p cli_command option"

definition default_admin_addr :: string where
  "default_admin_addr = ''localhost:1504''"

text \<open>What becomes of the process: its server role, or the end of a client command.\<close>

datatype process_end = Exited | ProcessPanicked | Serving

definition process_result :: "(string list, unit) rust_result \<Rightarrow> process_end" where
  "process_result r = (case r of Ok _ \<Rightarrow> Exited | _ \<Rightarrow> ProcessPanicked)"

definition main_process ::
  "build_profile \<Rightarrow> ('kp, 'pk, 'sock, 'up, 'cl, 'cert, 'key, 'tls, 'crypto) run_env \<Rightarrow>
   ('p, 'kp) cli_env \<Rightarrow> ('p, 's) admin_call \<Rightarrow> 'p cli \<Rightarrow> 's \<Rightarrow>
   process_end \<times> string list \<times> ('kp, 'pk) run_effect list \<times> 's" where
  "main_process pr env e call cli s =
     (case command cli of
        Some (CliSetIdentity ident) \<Rightarrow>
          (let (r, out, s1) = run_update_identity e call (admin_addr cli) ident s
           in (process_result r, out, [], s1))
      | Some CliGetInfo \<Rightarrow>
          (let (r, out, s1) = run_get_info e call (admin_addr cli) s
           in (process_result r, out, [], s1))
      | None \<Rightarrow>
          (let (r, effects) = run pr env
           in ((case r of Done _ \<Rightarrow> Exited | Waits \<Rightarrow> Serving | _ \<Rightarrow> ProcessPanicked),
               [], effects, s)))"

section \<open>The commands against the admin server\<close>

text \<open>
  The transport is jsonrpsee's HTTP client and server, and the network between them. What the
  commands rely on is that a call that succeeds brings back the answer the server gave: then
  the server has handled this request, once, and answered \<open>Ok\<close>, with that value for a getter.
  A call that fails may have been lost on its way to the server or back, or have been answered
  with an error: the server has handled it or not.
\<close>

definition answers_from_server ::
  "('p, 'kp, 'pk, 'cl) admin_deps \<Rightarrow> ('p, ('pk, 'cl) admin_rpc_impl) admin_call \<Rightarrow> bool" where
  "answers_from_server d call \<longleftrightarrow>
     (\<forall>q s. case call q s of
        (Inr a, s') \<Rightarrow> s' = snd (admin_handle d q s) \<and>
          (case fst (admin_handle d q s) of
             SetResponse r \<Rightarrow> r = Ok ()
           | GetResponse r \<Rightarrow> r = Ok a)
      | (Inl _, s') \<Rightarrow> s' = s \<or> s' = snd (admin_handle d q s))"

lemma answered:
  assumes "answers_from_server d call" "call q s = (Inr a, s')"
  shows "s' = snd (admin_handle d q s)"
    "case fst (admin_handle d q s) of SetResponse r \<Rightarrow> r = Ok () | GetResponse r \<Rightarrow> r = Ok a"
proof -
  have "case call q s of
        (Inr a, s') \<Rightarrow> s' = snd (admin_handle d q s) \<and>
          (case fst (admin_handle d q s) of
             SetResponse r \<Rightarrow> r = Ok ()
           | GetResponse r \<Rightarrow> r = Ok a)
      | (Inl _, s') \<Rightarrow> s' = s \<or> s' = snd (admin_handle d q s)"
    using assms(1) by (simp add: answers_from_server_def)
  with assms(2) show "s' = snd (admin_handle d q s)"
    "case fst (admin_handle d q s) of SetResponse r \<Rightarrow> r = Ok () | GetResponse r \<Rightarrow> r = Ok a"
    by simp_all
qed

lemma unanswered:
  assumes "answers_from_server d call" "call q s = (Inl x, s')"
  shows "s' = s \<or> s' = snd (admin_handle d q s)"
proof -
  have "case call q s of
        (Inr a, s') \<Rightarrow> s' = snd (admin_handle d q s) \<and>
          (case fst (admin_handle d q s) of
             SetResponse r \<Rightarrow> r = Ok ()
           | GetResponse r \<Rightarrow> r = Ok a)
      | (Inl _, s') \<Rightarrow> s' = s \<or> s' = snd (admin_handle d q s)"
    using assms(1) by (simp add: answers_from_server_def)
  with assms(2) show ?thesis by simp
qed

text \<open>What a setter does to the identity, whatever its outcome.\<close>

lemma setter_identity:
  assumes "requested_keypair d q = Some r"
  shows "identity (snd (admin_handle d q s)) = identity s \<or>
      (\<exists>kp. r = Inr kp \<and> identity (snd (admin_handle d q s)) = pubkey d kp)"
    "fst (admin_handle d q s) = SetResponse (Ok ()) \<Longrightarrow>
      \<exists>kp. r = Inr kp \<and> identity (snd (admin_handle d q s)) = pubkey d kp \<and>
        \<not> identity_poisoned (snd (admin_handle d q s))"
proof -
  have *: "(identity (snd (admin_handle d q s)) = identity s \<or>
      (\<exists>kp. r = Inr kp \<and> identity (snd (admin_handle d q s)) = pubkey d kp)) \<and>
    (fst (admin_handle d q s) = SetResponse (Ok ()) \<longrightarrow>
      (\<exists>kp. r = Inr kp \<and> identity (snd (admin_handle d q s)) = pubkey d kp \<and>
        \<not> identity_poisoned (snd (admin_handle d q s))))"
  proof (cases r)
    case (Inl x)
    with assms admin_handle_no_keypair [of d q x s] show ?thesis by auto
  next
    case (Inr kp)
    with assms show ?thesis
      by (auto simp: admin_handle_switch switch_identity_def split: prod.splits sum.splits if_splits)
  qed
  show "identity (snd (admin_handle d q s)) = identity s \<or>
      (\<exists>kp. r = Inr kp \<and> identity (snd (admin_handle d q s)) = pubkey d kp)"
    using * by blast
  show "fst (admin_handle d q s) = SetResponse (Ok ()) \<Longrightarrow>
      \<exists>kp. r = Inr kp \<and> identity (snd (admin_handle d q s)) = pubkey d kp \<and>
        \<not> identity_poisoned (snd (admin_handle d q s))"
    using * by blast
qed

text \<open>The key pair an argument of \<open>set-identity\<close> names, and the request it makes.\<close>

definition names_keypair ::
  "('p, 'kp, 'pk, 'cl) admin_deps \<Rightarrow> ('p, 'kp) cli_env \<Rightarrow> 'p option \<Rightarrow> 'kp \<Rightarrow> bool" where
  "names_keypair d e arg kp \<longleftrightarrow>
     (case arg of
        Some p \<Rightarrow> \<exists>p'. canonicalize e p = Inr p' \<and> read_from_file d p' = Inr kp
      | None \<Rightarrow> read_stdin_keypair e = Inr kp)"

lemma run_update_identity_calls:
  assumes "run_update_identity e call addr arg s = (r, out, s')"
    and "\<And>kp. keypair_try_from d (keypair_to_bytes e kp) = Inr kp"
  obtains (early) "r \<noteq> Ok ()" "s' = s"
  | (called) q k where "requested_keypair d q = Some k" "\<And>kp. k = Inr kp \<Longrightarrow> names_keypair d e arg kp"
      "(r = Ok () \<and> (\<exists>a. call q s = (Inr a, s'))) \<or> (r \<noteq> Ok () \<and> (\<exists>x. call q s = (Inl x, s')))"
      "r = Ok () \<Longrightarrow> current_runtime e = Inr () \<and> http_client e (''http://'' @ addr) = Inr ()"
proof (cases arg)
  case None
  show thesis
  proof (cases "read_stdin_keypair e")
    case (Inl x)
    with None assms(1) show thesis
      by (intro early) (auto simp: run_update_identity_def build_current_runtime_def split: sum.splits)
  next
    case (Inr kp)
    with None assms show thesis
      by (cases "call (SetIdentityFromBytes (keypair_to_bytes e kp)) s")
         (auto simp: run_update_identity_def build_current_runtime_def names_keypair_def Let_def
            intro: early called [of "SetIdentityFromBytes (keypair_to_bytes e kp)" "Inr kp"]
            split: sum.splits)
  qed
next
  case (Some p)
  show thesis
  proof (cases "canonicalize e p")
    case (Inl x)
    with Some assms(1) show thesis
      by (intro early) (auto simp: run_update_identity_def build_current_runtime_def split: sum.splits)
  next
    case (Inr p')
    with Some assms(1) show thesis
      by (cases "call (SetIdentity p') s")
         (auto simp: run_update_identity_def build_current_runtime_def names_keypair_def Let_def
            intro: early called [of "SetIdentity p'" "read_from_file d p'"] split: sum.splits)
  qed
qed

section \<open>Properties\<close>

text \<open>
  C28: the commands work end to end, over any transport that brings back what the server
  answered. A \<open>set-identity\<close> that reports success has switched the admin server to the key pair
  of the file, or of the standard input when no file is named, and a \<open>get-info\<close> that follows and
  succeeds prints that identity and nothing else, and changes nothing. After one that fails,
  be it that a request or an answer was lost, the identity is the one before or that of the
  key pair named: no third one.
\<close>

theorem set_identity_then_get_info:
  assumes "answers_from_server d call"
    and "\<And>kp. keypair_try_from d (keypair_to_bytes e kp) = Inr kp"
    and "run_update_identity e call addr arg s = (r, out, s')"
  shows "if r = Ok ()
    then \<exists>kp. names_keypair d e arg kp \<and> identity s' = pubkey d kp \<and>
         (\<forall>out2 s''. run_get_info e call addr s' = (Ok (), out2, s'') \<longrightarrow>
            out2 = [info_to_string_pretty e (admin_pubkey_to_string d (pubkey d kp))] \<and> s'' = s')
    else identity s' = identity s \<or> (\<exists>kp. names_keypair d e arg kp \<and> identity s' = pubkey d kp)"
  using assms(3,2)
proof (cases rule: run_update_identity_calls)
  case early
  then show ?thesis by simp
next
  case (called q k)
  show ?thesis
  proof (cases "r = Ok ()")
    case True
    with called(3) obtain a where call: "call q s = (Inr a, s')" by blast
    note ans = answered [OF assms(1) call]
    have "fst (admin_handle d q s) = SetResponse (Ok ())"
      using ans(2) called(1) by (cases q) (auto split: prod.splits)
    with setter_identity(2) [OF called(1), of s] ans(1) obtain kp where
      kp: "k = Inr kp" "identity s' = pubkey d kp" "\<not> identity_poisoned s'" by auto
    have "out2 = [info_to_string_pretty e (admin_pubkey_to_string d (pubkey d kp))] \<and> s'' = s'"
      if info: "run_get_info e call addr s' = (Ok (), out2, s'')" for out2 s''
    proof -
      obtain i where i: "call GetIdentity s' = (Inr i, s'')" "out2 = [info_to_string_pretty e i]"
        using info by (auto simp: run_get_info_def split: rust_result.splits sum.splits prod.splits)
      from answered [OF assms(1) i(1)] kp(2,3) i(2) show ?thesis by (simp add: get_identity_def)
    qed
    with True kp called(2) show ?thesis by auto
  next
    case False
    with called(3) obtain x where "call q s = (Inl x, s')" by blast
    from unanswered [OF assms(1) this] setter_identity(1) [OF called(1), of s] called(2) False
    show ?thesis by auto
  qed
qed

text \<open>
  A transport of this kind, for the example: it always reaches the server and brings its answer
  back; the panic of a handler closes the connection.
\<close>

definition admin_transport ::
  "('p, 'kp, 'pk, 'cl) admin_deps \<Rightarrow> ('p, ('pk, 'cl) admin_rpc_impl) admin_call" where
  "admin_transport d q s =
     (let (r, s1) = admin_handle d q s
      in (case r of
            SetResponse (Ok _) \<Rightarrow> Inr []
          | SetResponse (Err x) \<Rightarrow> Inl (error_message x)
          | GetResponse (Ok i) \<Rightarrow> Inr i
          | GetResponse (Err x) \<Rightarrow> Inl (error_message x)
          | _ \<Rightarrow> Inl ''connection closed'', s1))"

lemma admin_transport_answers: "answers_from_server d (admin_transport d)"
  by (auto simp: answers_from_server_def admin_transport_def Let_def
      split: prod.split admin_response.split rust_result.split)

definition sample_cli :: "(nat, nat) cli_env" where
  "sample_cli =
     \<lparr>current_runtime = Inr (), http_client = (\<lambda>_. Inr ()), canonicalize = Inr,
      path_display = show_nat, read_stdin_keypair = Inl ''closed'',
      keypair_to_bytes = (\<lambda>kp. replicate kp 0), keypair_pubkey_string = show_nat,
      info_to_string_pretty = (\<lambda>i. i)\<rparr>"

text \<open>The sample admin server with a parser that inverts this encoding.\<close>

definition sample_admin_cli :: "(nat, nat, nat, nat) admin_deps" where
  "sample_admin_cli = sample_admin\<lparr>keypair_try_from := (\<lambda>bs. Inr (length bs))\<rparr>"

theorem set_identity_then_get_info_witness:
  "let s = \<lparr>tpu_client = 3, identity = 3, identity_poisoned = False\<rparr> :: (nat, nat) admin_rpc_impl;
       call = admin_transport sample_admin_cli
   in \<exists>out s'. run_update_identity sample_cli call default_admin_addr (Some 5) s = (Ok (), out, s') \<and>
        identity s' = 5 \<and>
        run_get_info sample_cli call default_admin_addr s' = (Ok (), [show_nat 5], s')"
proof -
  let ?e = sample_cli
  let ?call = "admin_transport sample_admin_cli"
  let ?s = "\<lparr>tpu_client = 3, identity = 3, identity_poisoned = False\<rparr> :: (nat, nat) admin_rpc_impl"
  obtain r out s' where run: "run_update_identity ?e ?call default_admin_addr (Some 5) ?s = (r, out, s')"
    by (rule prod_cases3)
  have inv: "keypair_try_from sample_admin_cli (keypair_to_bytes ?e kp) = Inr kp" for kp
    by (simp add: sample_admin_cli_def sample_admin_def sample_cli_def)
  have ok: "r = Ok ()" and np: "\<not> identity_poisoned s'"
    using run by (auto simp: run_update_identity_def build_current_runtime_def sample_cli_def
        admin_transport_def set_identity_def sample_admin_cli_def sample_admin_def)
  have "pubkey sample_admin_cli kp = kp" "admin_pubkey_to_string sample_admin_cli kp = show_nat kp"
    "names_keypair sample_admin_cli ?e (Some 5) kp \<longleftrightarrow> kp = 5" "info_to_string_pretty ?e x = x" for kp x
    by (auto simp: sample_admin_cli_def sample_admin_def sample_cli_def names_keypair_def)
  with set_identity_then_get_info [OF admin_transport_answers inv run] ok
  have after: "identity s' = 5"
    "\<And>out2 s''. run_get_info ?e ?call default_admin_addr s' = (Ok (), out2, s'') \<Longrightarrow>
       out2 = [show_nat 5] \<and> s'' = s'" by auto
  have "\<exists>out2 s''. run_get_info ?e ?call default_admin_addr s' = (Ok (), out2, s'')"
    using np by (simp add: run_get_info_def build_current_runtime_def sample_cli_def
        admin_transport_def get_identity_def)
  then obtain out2 s'' where "run_get_info ?e ?call default_admin_addr s' = (Ok (), out2, s'')" by blast
  with after ok run show ?thesis by (auto simp: Let_def)
qed

end
