(* ===== verification/Spec2Isabelle.thy ===== *)
theory Spec2Isabelle
  imports Draining Progress Unit_Tests Cli
begin

text \<open>
  A verification development for Iris, a service that takes Solana transactions from clients
  over JSON-RPC and QUIC and forwards them to the QUIC ports of the coming block leaders,
  holding back those that asked for MEV protection while a leader of the moment is on a list of
  blocked validators.

  \<^bold>\<open>The program and its parts.\<close> \<open>run\<close> in \<open>src/main.rs\<close> reads the configuration and starts, in this
  order, the log output, the Prometheus exporter, the broadcaster with the thread that refreshes
  its list of blocked leaders, the statistics reporter, the TPU client with its flush task, the
  admin server, the QUIC server (if configured) and the JSON-RPC server; then it waits for the
  JSON-RPC server to end, cancels the others and joins the QUIC server. A submission travels
  from a front end (\<open>rpc_server.rs\<close>, \<open>quic_server.rs\<close>) as an encoded payload (\<open>tpu_next_client.rs\<close>)
  through the bounded channel of the TPU client to the broadcaster (\<open>broadcaster.rs\<close>), which sends
  it to every leader of the window or keeps it in its buffer; the list of blocked leaders comes
  from an on-chain policy (\<open>shield.rs\<close>) and the leader window follows the slot events of a
  websocket (\<open>websocket_node_address_service.rs\<close>). Every part counts what it does in global
  statistics (\<open>transaction_stats.rs\<close>) and in the counters of the metrics recorder.

  \<^bold>\<open>Theories, in the order of their imports.\<close>

  \<^item> \<open>Iris_Prelude\<close>: machine integers, the result of a call that may panic, socket addresses,
    profile-dependent and saturating addition, \<open>chunks_exact\<close>, decimal rendering with its
    inverse, and the two locales shared by all components: \<open>event_machine\<close> (an invariant kept by
    every event holds over any history) and \<open>recurring\<close> (what grows again and again exceeds
    every bound).
  \<^item> \<open>Transaction_Stats\<close> (\<open>transaction_stats.rs\<close>): the statics as a record of 64-bit counters, the
    record functions, snapshots and the report loop over tick and cancel events. The values per
    interval telescope, the loop prints one line per tick and never panics in a release build.
    \<open>Metrics\<close>: the world with the calls of the metrics recorder.
  \<^item> \<open>Tpu_Payload\<close>, \<open>Tpu_Sender\<close> (\<open>tpu_next_client.rs\<close>): the payload with its flag byte and the
    locale \<open>payload_codec\<close> between the two ends of the channel; \<open>send_transaction\<close>, the flush
    task, the rounds of metrics, and the start of the client. Each send is counted exactly once,
    by what the channel answered to it.
  \<^item> \<open>Broadcaster\<close> (\<open>broadcaster.rs\<close>): the MEV buffer, the worker cache as a parameter, the refresh
    thread. The abstract specification is a FIFO queue of tagged transactions; \<open>queue_inv\<close>
    relates the two over any history, and the safety of blocked windows rests on it.
  \<^item> \<open>Shield\<close> (\<open>shield.rs\<close>): the two layouts of a policy account over a locale \<open>policy_layout\<close>.
  \<^item> \<open>Rpc_Error\<close>, \<open>Solana_Rpc\<close> (\<open>vendor/solana_rpc.rs\<close>), \<open>Rpc_Server\<close> (\<open>rpc_server.rs\<close>, \<open>rpc.rs\<close>):
    decoding under the size limits of each encoding; for standard base64 the accepted
    transactions are characterised byte by byte (\<open>v1_range\<close>: the prefix test compares text, so
    it matches more first bytes than the version-1 prefix 0x81). The handlers.
  \<^item> \<open>Quic_Server\<close>, \<open>Quic_Config\<close> (\<open>quic_server.rs\<close>, \<open>types.rs\<close>), \<open>Runtime_Config\<close> (\<open>runtime.rs\<close>),
    \<open>Http_Middleware\<close>, \<open>Ws_Address_Service\<close>, \<open>Admin_Rpc\<close>: the other components of these names.
  \<^item> \<open>Otel_Tracer\<close> (\<open>otel_tracer.rs\<close>), \<open>Main_Run\<close> and \<open>Cli\<close> (\<open>main.rs\<close>): a subscriber is its list of
    layers; the process is its list of effects, in order, with the way it ends, so that what is
    running when a server starts is the part of the list before that effect; the client commands
    talk to the admin server through a parameter \<open>call\<close>.
  \<^item> \<open>Ingress\<close>: the front ends and the flush task as one machine, each handler one step: what the
    statistics say and what the channel is offered. \<open>End_To_End\<close>: the channel, the client and the
    broadcaster added: accepted submissions flow in order, lost only by a delivery to an empty
    window, and blocked identities stay blocked. \<open>Progress\<close>: infinite histories of that system
    (without empty windows, every accepted submission is eventually transmitted) and the type of
    the messages in its channel.
  \<^item> \<open>Interleaving\<close>: handlers taken apart into atomic operations and run as concurrent tasks, with
    a step relation \<open>task_step\<close>. A task alone is the handler of \<open>Ingress\<close>; at every moment of
    every interleaving the statistics are off by exactly the requests in flight; and no run of
    tasks is longer than a measure of their work.
  \<^item> \<open>Linearisation\<close>: these tasks together with the deliveries and the refresh thread, as the
    relation \<open>concurrent_step\<close>. A simulation (\<open>explains\<close>) gives every reachable state a sequential
    history of \<open>End_To_End\<close> in which a handler takes effect at its \<open>try_send\<close>; the locale
    \<open>outcome_measure\<close> does the bookkeeping once for the statistics and for the metrics. Conversely
    every sequential history is a concurrent run. What is proved of the deliveries of sequential
    histories therefore holds of all interleavings.
  \<^item> \<open>Draining\<close>: the tasks by themselves, as such a run without deliveries: they always end, and
    leave exactly the statistics and the channel of the handlers in some order.
  \<^item> \<open>Unit_Tests\<close>: the test functions of the repository, evaluated on the model.

  \<^bold>\<open>How state and operations correspond.\<close> A \<open>static\<close> or a field of a structure is a field of a
  record of the same name; a function is a definition of the same name (prefixed by the type
  where two would clash) that takes and returns the state; a \<open>Result\<close> is a sum or, where the code
  can also panic, \<open>rust_result\<close>; a panic of a loop or a thread is \<open>Panicked\<close>. A lock whose
  holder panics is poisoned, and a later \<open>unwrap\<close> of it panics. Every wait (\<open>select!\<close>, a stream,
  a timer) is an event of a list, and a loop consumes events until it ends, by structural
  recursion, so no fuel is needed; \<open>StillRunning\<close> or \<open>Waits\<close> says that the events given do not
  end it. Integers have their Rust width and wrap; where an overflow would panic in a debug build
  the build profile is an argument. The functions with their own termination proofs are
  \<open>chunks_exact\<close>, by the length of its list, and \<open>run_task\<close>, by the weight of the actions left.

  \<^bold>\<open>Parameters.\<close> Code of other crates and the answers of the outside are arguments: the channel's
  \<open>try_send\<close> and \<open>recv\<close>, the worker cache, the Borsh, wincode, bs58 and base64 decoders, key pairs,
  the transaction parser, the answers of RPC nodes, tokio and the operating system. What a
  theorem relies on is a predicate named in its statement: \<open>fifo_channel\<close> (a taken message is
  appended, the oldest comes out), \<open>borsh_policy\<close>, \<open>borsh_policy_v2\<close> and \<open>borsh_pubkey\<close> (fields in
  order), \<open>base64_standard\<close> (decoding inverts the RFC encoding), \<open>solana_sizes\<close> (1232 and 4096
  bytes), \<open>packet_within\<close> (a decoded packet is no longer than its bytes), \<open>answers_from_server\<close> (an admin
  call that succeeds brings back what the server answered; one that fails may have been lost on
  either way). Each is shown to hold of a concrete instance by a witness.

  \<^bold>\<open>Bounds.\<close> Counters are 64 bits wide and all counting statements hold modulo that width; the
  fairness of thread pinning is stated up to \<open>2 ^ 64\<close> threads, the range of the shared counter.

  \<^bold>\<open>Not modelled.\<close> The text of log lines other than the report; the reading of the environment and of
  the command line into \<open>config\<close> and \<open>cli\<close>, which figment and clap derive from the field types;
  the reading of a JSON-RPC request off its bytes (jsonrpsee); the contents of TLS certificates
  and the wire protocols (rustls, quinn, tonic); the scheduling inside \<open>solana_tpu_client_next\<close>,
  of which the development uses only the calls of \<open>send_to_workers\<close> one after the other, as its
  single scheduler task makes them. The lock-free read of the blocked list by the broadcaster is
  one atomic load per call, as in the code. Time is visible only through events.
\<close>

end
